(* ===== verification/GoPrelude.thy ===== *)
theory GoPrelude
  imports Main "HOL-Library.Word" "HOL-Library.Sublist"
begin

text \<open>
  Shared vocabulary of the development.  It names the machine types of the Go
  sources, gives the functions of Go's standard library that the sources call
  (packages \<open>strings\<close>, \<open>encoding/hex\<close>, \<open>net\<close>), and collects the generic list
  and option lemmas used by the component theories.

  Go strings are byte strings.  They are \<open>string\<close> here (a list of bytes), and
  the case-mapping functions are those of the ASCII range, which is the range
  of the presentation form of a domain name.
\<close>

section \<open>Machine types\<close>

type_synonym uint8 = "8 word"
type_synonym uint16 = "16 word"
type_synonym uint32 = "32 word"
type_synonym uint64 = "64 word"

text \<open>
  A Go \<open>int\<close> has 64 bits on the platforms the service is built for.  Where a sum
  can leave that range the model wraps it explicitly.
\<close>

definition wrap64 :: "int \<Rightarrow> int" where
  "wrap64 x = (x + 2 ^ 63) mod 2 ^ 64 - 2 ^ 63"

lemma wrap64_id: "- (2 ^ 63) \<le> x \<Longrightarrow> x < 2 ^ 63 \<Longrightarrow> wrap64 x = x"
  by (simp add: wrap64_def)

lemma wrap64_bounds: "- (2 ^ 63) \<le> wrap64 x \<and> wrap64 x < 2 ^ 63"
  by (simp add: wrap64_def)

text \<open>
  Go's errors and panics are values of the model.  \<open>Err\<close> is an error value, by
  its message; \<open>Panic\<close> marks a run-time panic (a failed type assertion, an index
  out of range), which no caller of the modelled code recovers from, and \<open>Diverge\<close> a
  call that does not return.
\<close>

datatype go_error = Err string | Panic string | Diverge

text \<open>Sequencing of steps that may fail.\<close>

definition andThen :: "'e + 'a \<Rightarrow> ('a \<Rightarrow> 'e + 'b) \<Rightarrow> 'e + 'b" where
  "andThen m f = (case m of Inl e \<Rightarrow> Inl e | Inr x \<Rightarrow> f x)"

lemma andThen_simps [simp]:
  "andThen (Inl e) f = Inl e"
  "andThen (Inr x) f = f x"
  by (simp_all add: andThen_def)

text \<open>A step that ends without a failure, and how that is shown of a composed step.\<close>

definition ends :: "'e + 'a \<Rightarrow> bool" where
  "ends m \<longleftrightarrow> (\<exists>x. m = Inr x)"

lemma ends_simps [simp]: "ends (Inr x)" "\<not> ends (Inl e)"
  by (simp_all add: ends_def)

lemma ends_andThen: "ends m \<Longrightarrow> (\<And>x. m = Inr x \<Longrightarrow> ends (f x)) \<Longrightarrow> ends (andThen m f)"
  by (auto simp: ends_def)

lemma ends_case_sum:
  "(\<And>e. m = Inl e \<Longrightarrow> ends (f e)) \<Longrightarrow> (\<And>x. m = Inr x \<Longrightarrow> ends (g x)) \<Longrightarrow>
   ends (case m of Inl e \<Rightarrow> f e | Inr x \<Rightarrow> g x)"
  by (cases m) auto

lemma ends_if: "(b \<Longrightarrow> ends m) \<Longrightarrow> (\<not> b \<Longrightarrow> ends n) \<Longrightarrow> ends (if b then m else n)"
  by simp

lemma ends_case_prod: "(\<And>a b. p = (a, b) \<Longrightarrow> ends (f a b)) \<Longrightarrow> ends (case p of (a, b) \<Rightarrow> f a b)"
  by (cases p) auto

lemmas ends_rules = ends_andThen ends_case_sum ends_if ends_case_prod ends_simps(1)

lemma andThen_Inr_iff: "andThen m f = Inr y \<longleftrightarrow> (\<exists>x. m = Inr x \<and> f x = Inr y)"
  by (cases m) auto

text \<open>Reading a slice at an index, and running a fallible step over a slice.\<close>

definition idx :: "'a list \<Rightarrow> nat \<Rightarrow> go_error + 'a" where
  "idx xs i = (if i < length xs then Inr (xs ! i) else Inl (Panic ''index out of range''))"

fun traverse :: "('a \<Rightarrow> 'e + 'b) \<Rightarrow> 'a list \<Rightarrow> 'e + 'b list" where
  "traverse f [] = Inr []"
| "traverse f (x # xs) =
     (case f x of
        Inl e \<Rightarrow> Inl e
      | Inr y \<Rightarrow> (case traverse f xs of Inl e \<Rightarrow> Inl e | Inr ys \<Rightarrow> Inr (y # ys)))"

lemma traverse_total:
  "(\<And>x. x \<in> set xs \<Longrightarrow> f x = Inr (g x)) \<Longrightarrow> traverse f xs = Inr (map g xs)"
  by (induction xs) auto

lemma traverse_length: "traverse f xs = Inr ys \<Longrightarrow> length ys = length xs"
  by (induction xs arbitrary: ys) (auto split: sum.splits)

lemma ends_traverse:
  "(\<And>x. x \<in> set xs \<Longrightarrow> ends (f x)) \<Longrightarrow> ends (traverse f xs)"
proof (induction xs)
  case (Cons x xs)
  then have "ends (f x)" "ends (traverse f xs)" by auto
  then show ?case by (auto simp: ends_def)
qed simp

section \<open>Collections of facts\<close>

named_theorems go_simps \<open>defining equations of the modelled Go library functions\<close>
named_theorems z42_simps \<open>defining equations of the modelled z42 operations\<close>

section \<open>Package strings\<close>

definition HasPrefix :: "string \<Rightarrow> string \<Rightarrow> bool" where
  "HasPrefix s p \<longleftrightarrow> take (length p) s = p"

definition HasSuffix :: "string \<Rightarrow> string \<Rightarrow> bool" where
  "HasSuffix s p \<longleftrightarrow> length p \<le> length s \<and> drop (length s - length p) s = p"

definition TrimPrefix :: "string \<Rightarrow> string \<Rightarrow> string" where
  "TrimPrefix s p = (if HasPrefix s p then drop (length p) s else s)"

definition TrimSuffix :: "string \<Rightarrow> string \<Rightarrow> string" where
  "TrimSuffix s p = (if HasSuffix s p then take (length s - length p) s else s)"

definition lower_char :: "char \<Rightarrow> char" where
  "lower_char c = (let n = of_char c :: nat in if 65 \<le> n \<and> n \<le> 90 then char_of (n + 32) else c)"

definition upper_char :: "char \<Rightarrow> char" where
  "upper_char c = (let n = of_char c :: nat in if 97 \<le> n \<and> n \<le> 122 then char_of (n - 32) else c)"

definition ToLower :: "string \<Rightarrow> string" where
  "ToLower s = map lower_char s"

definition ToUpper :: "string \<Rightarrow> string" where
  "ToUpper s = map upper_char s"

text \<open>\<open>strings.Split\<close> at a one-byte separator: a string with n separators has n+1 parts.\<close>

fun Split :: "string \<Rightarrow> char \<Rightarrow> string list" where
  "Split [] sep = [[]]"
| "Split (c # cs) sep =
     (if c = sep then [] # Split cs sep
      else (case Split cs sep of [] \<Rightarrow> [[c]] | p # ps \<Rightarrow> (c # p) # ps))"

text \<open>
  \<open>strings.SplitAfterN(s, ".", 2)\<close>: two parts, the first one ending in the
  separator, when the separator occurs, and the whole string as one part otherwise.
\<close>

fun SplitAfter2 :: "string \<Rightarrow> char \<Rightarrow> string list" where
  "SplitAfter2 s sep =
     (if sep \<in> set s
      then [takeWhile (\<lambda>c. c \<noteq> sep) s @ [sep], tl (dropWhile (\<lambda>c. c \<noteq> sep) s)]
      else [s])"

lemma HasPrefix_append [simp]: "HasPrefix (p @ s) p"
  by (simp add: HasPrefix_def)

lemma HasPrefix_iff: "HasPrefix s p \<longleftrightarrow> (\<exists>t. s = p @ t)"
proof
  assume "HasPrefix s p"
  then have "s = p @ drop (length p) s"
    by (metis HasPrefix_def append_take_drop_id)
  then show "\<exists>t. s = p @ t" ..
qed (auto simp: HasPrefix_def)

lemma TrimPrefix_append [simp]: "TrimPrefix (p @ s) p = s"
  by (simp add: TrimPrefix_def)

lemma HasSuffix_append [simp]: "HasSuffix (s @ p) p"
  by (simp add: HasSuffix_def)

lemma HasSuffix_iff: "HasSuffix s p \<longleftrightarrow> (\<exists>t. s = t @ p)"
proof
  assume "HasSuffix s p"
  then have "s = take (length s - length p) s @ p"
    by (metis HasSuffix_def append_take_drop_id)
  then show "\<exists>t. s = t @ p" ..
qed auto

lemma TrimSuffix_append [simp]: "TrimSuffix (s @ p) p = s"
  by (simp add: TrimSuffix_def)

lemma TrimSuffix_other: "\<not> HasSuffix s p \<Longrightarrow> TrimSuffix s p = s"
  by (simp add: TrimSuffix_def)

lemma length_TrimSuffix: "length (TrimSuffix s p) \<le> length s"
  by (simp add: TrimSuffix_def)

lemma Split_nonempty [simp]: "Split s sep \<noteq> []"
  by (cases s) (auto split: list.splits)

lemma Split_no_sep: "sep \<notin> set s \<Longrightarrow> Split s sep = [s]"
  by (induction s) auto

lemma Split_append_sep: "sep \<notin> set s \<Longrightarrow> Split (s @ sep # t) sep = s # Split t sep"
  by (induction s) auto

lemma length_Split: "length (Split s sep) = Suc (count_list s sep)"
  by (induction s) (auto split: list.splits)

section \<open>Package encoding/hex\<close>

text \<open>
  \<open>hex.EncodeToString\<close> writes two lower-case digits per byte.
  \<open>hex.DecodeString\<close> accepts both cases and fails on an odd length or on a
  byte that is no digit.
\<close>

definition hex_digit :: "nat \<Rightarrow> char" where
  "hex_digit n = (if n < 10 then char_of (48 + n) else char_of (87 + n))"

definition hex_value :: "char \<Rightarrow> nat option" where
  "hex_value c =
     (let n = of_char c :: nat in
      if 48 \<le> n \<and> n \<le> 57 then Some (n - 48)
      else if 97 \<le> n \<and> n \<le> 102 then Some (n - 87)
      else if 65 \<le> n \<and> n \<le> 70 then Some (n - 55)
      else None)"

fun hex_EncodeToString :: "uint8 list \<Rightarrow> string" where
  "hex_EncodeToString [] = []"
| "hex_EncodeToString (b # bs) =
     hex_digit (unat b div 16) # hex_digit (unat b mod 16) # hex_EncodeToString bs"

fun hex_DecodeString :: "string \<Rightarrow> uint8 list option" where
  "hex_DecodeString [] = Some []"
| "hex_DecodeString [c] = None"
| "hex_DecodeString (c # d # s) =
     (case (hex_value c, hex_value d, hex_DecodeString s) of
        (Some h, Some l, Some bs) \<Rightarrow> Some (of_nat (16 * h + l) # bs)
      | _ \<Rightarrow> None)"

lemma hex_value_digit: "n < 16 \<Longrightarrow> hex_value (hex_digit n) = Some n"
  by (auto simp: hex_value_def hex_digit_def Let_def)

lemma hex_decode_encode [simp]: "hex_DecodeString (hex_EncodeToString bs) = Some bs"
proof (induction bs)
  case (Cons b bs)
  have b: "unat b < 256"
    using unsigned_less [of b] by simp
  have "hex_value (hex_digit (unat b div 16)) = Some (unat b div 16)"
    using b by (intro hex_value_digit) auto
  moreover have "hex_value (hex_digit (unat b mod 16)) = Some (unat b mod 16)"
    by (intro hex_value_digit) auto
  moreover have "16 * (unat b div 16) + unat b mod 16 = unat b"
    by simp
  ultimately show ?case
    using Cons.IH by simp
qed simp

lemma length_hex_encode [simp]: "length (hex_EncodeToString bs) = 2 * length bs"
  by (induction bs) auto

lemma hex_encode_append: "hex_EncodeToString (as @ bs) = hex_EncodeToString as @ hex_EncodeToString bs"
  by (induction as) auto

lemma length_hex_decode: "hex_DecodeString s = Some bs \<Longrightarrow> length s = 2 * length bs"
  by (induction s arbitrary: bs rule: hex_DecodeString.induct) (auto split: option.splits)

section \<open>Package net: addresses\<close>

text \<open>
  A \<open>net.IP\<close> is a byte slice, \<open>None\<close> the nil slice.  \<open>To4\<close> recognises the
  4-byte form and the IPv4-mapped 16-byte form.
\<close>

type_synonym IP = "uint8 list option"

definition v4InV6Prefix :: "uint8 list" where
  "v4InV6Prefix = replicate 10 0 @ [255, 255]"

fun To4 :: "IP \<Rightarrow> IP" where
  "To4 None = None"
| "To4 (Some b) =
     (if length b = 4 then Some b
      else if length b = 16 \<and> take 12 b = v4InV6Prefix then Some (drop 12 b)
      else None)"

fun To16 :: "IP \<Rightarrow> IP" where
  "To16 None = None"
| "To16 (Some b) =
     (if length b = 4 then Some (v4InV6Prefix @ b)
      else if length b = 16 then Some b
      else None)"

lemma To4_length: "To4 ip = Some b \<Longrightarrow> length b = 4"
  by (cases ip) (auto split: if_splits)

lemma To16_length: "To16 ip = Some b \<Longrightarrow> length b = 16"
  by (cases ip) (auto simp: v4InV6Prefix_def split: if_splits)

lemma To4_To16: "To4 ip = Some b \<Longrightarrow> To4 (To16 ip) = Some b"
  by (cases ip) (auto simp: v4InV6Prefix_def split: if_splits)

text \<open>Decimal and hexadecimal numerals as \<open>strconv\<close> and \<open>net\<close> print them.\<close>

fun Itoa_nat :: "nat \<Rightarrow> string" where
  "Itoa_nat n = (if n < 10 then [char_of (48 + n)] else Itoa_nat (n div 10) @ [char_of (48 + n mod 10)])"

fun Htoa_nat :: "nat \<Rightarrow> string" where
  "Htoa_nat n = (if n < 16 then [hex_digit n] else Htoa_nat (n div 16) @ [hex_digit (n mod 16)])"

declare Itoa_nat.simps [simp del] Htoa_nat.simps [simp del]

definition Itoa :: "int \<Rightarrow> string" where
  "Itoa i = (if i < 0 then CHR ''-'' # Itoa_nat (nat (- i)) else Itoa_nat (nat i))"

text \<open>
  \<open>strconv.Atoi\<close>: an optional sign and at least one decimal digit, within the range of an
  \<open>int\<close>.
\<close>

definition digit_value :: "char \<Rightarrow> nat option" where
  "digit_value c = (let n = of_char c :: nat in if 48 \<le> n \<and> n \<le> 57 then Some (n - 48) else None)"

fun digits_value :: "nat \<Rightarrow> string \<Rightarrow> nat option" where
  "digits_value acc [] = Some acc"
| "digits_value acc (c # cs) =
     (case digit_value c of None \<Rightarrow> None | Some d \<Rightarrow> digits_value (10 * acc + d) cs)"

definition Atoi :: "string \<Rightarrow> go_error + int" where
  "Atoi s =
     (let neg = (s \<noteq> [] \<and> hd s = CHR ''-'');
          ds = (if s \<noteq> [] \<and> (hd s = CHR ''-'' \<or> hd s = CHR ''+'') then tl s else s)
      in if ds = [] then Inl (Err ''invalid syntax'')
         else case digits_value 0 ds of
                None \<Rightarrow> Inl (Err ''invalid syntax'')
              | Some n \<Rightarrow>
                  let i = (if neg then - int n else int n)
                  in if i < - (2 ^ 63) \<or> 2 ^ 63 \<le> i then Inl (Err ''value out of range'') else Inr i)"

lemma digits_value_append:
  "digits_value acc (xs @ ys) =
   (case digits_value acc xs of None \<Rightarrow> None | Some n \<Rightarrow> digits_value n ys)"
  by (induction acc xs rule: digits_value.induct) (auto split: option.splits)

lemma digit_value_char: "d < 10 \<Longrightarrow> digit_value (char_of (48 + d)) = Some d"
  by (simp add: digit_value_def Let_def)

lemma digits_value_Itoa: "digits_value 0 (Itoa_nat n) = Some n"
proof (induction n rule: Itoa_nat.induct)
  case (1 n)
  show ?case
  proof (cases "n < 10")
    case True
    then show ?thesis by (subst Itoa_nat.simps) (simp add: digit_value_char)
  next
    case False
    then show ?thesis
      using 1 digit_value_char [of "n mod 10"]
      by (subst Itoa_nat.simps) (simp add: digits_value_append)
  qed
qed

lemma Itoa_nat_nonempty [simp]: "Itoa_nat n \<noteq> []"
  by (subst Itoa_nat.simps) simp

lemma digits_value_hd: "digits_value acc s = Some n \<Longrightarrow> s \<noteq> [] \<Longrightarrow> digit_value (hd s) \<noteq> None"
  by (cases s) (auto split: option.splits)

lemma Itoa_nat_sign: "hd (Itoa_nat n) \<noteq> CHR ''-'' \<and> hd (Itoa_nat n) \<noteq> CHR ''+''"
proof -
  have "digit_value (CHR ''-'') = None" "digit_value (CHR ''+'') = None" by code_simp+
  moreover have "digit_value (hd (Itoa_nat n)) \<noteq> None"
    using digits_value_hd [OF digits_value_Itoa] by simp
  ultimately show ?thesis by metis
qed

lemma Atoi_Itoa: "- (2 ^ 63) \<le> i \<Longrightarrow> i < 2 ^ 63 \<Longrightarrow> Atoi (Itoa i) = Inr i"
  using Itoa_nat_sign [of "nat i"]
  by (auto simp: Atoi_def Itoa_def Let_def digits_value_Itoa)

fun join_strings :: "string \<Rightarrow> string list \<Rightarrow> string" where
  "join_strings sep [] = []"
| "join_strings sep [x] = x"
| "join_strings sep (x # y # ys) = x @ sep @ join_strings sep (y # ys)"

text \<open>
  \<open>net.IP.String\<close>: dotted decimal, the compressed IPv6 form (the first longest run
  of at least two zero groups becomes \<open>::\<close>), \<open><nil>\<close> for an empty slice, and a
  question mark with the bytes in hexadecimal for any other length.
\<close>

fun ip_groups :: "uint8 list \<Rightarrow> nat list" where
  "ip_groups (a # b # bs) = (256 * unat a + unat b) # ip_groups bs"
| "ip_groups bs = []"

definition zero_run :: "nat list \<Rightarrow> nat \<Rightarrow> nat" where
  "zero_run gs i = length (takeWhile (\<lambda>g. g = 0) (drop i gs))"

definition best_run :: "nat list \<Rightarrow> (nat \<times> nat) option" where
  "best_run gs =
     fold (\<lambda>i best. let l = zero_run gs i in
             (case best of
                None \<Rightarrow> if 2 \<le> l then Some (i, i + l) else None
              | Some (s, e) \<Rightarrow> if e - s < l then Some (i, i + l) else best))
       [0..<length gs] None"

definition ip6_String :: "uint8 list \<Rightarrow> string" where
  "ip6_String b =
     (let gs = ip_groups b in
      case best_run gs of
        None \<Rightarrow> join_strings '':'' (map Htoa_nat gs)
      | Some (s, e) \<Rightarrow>
          join_strings '':'' (map Htoa_nat (take s gs)) @ ''::'' @
          join_strings '':'' (map Htoa_nat (drop e gs)))"

definition IP_String :: "IP \<Rightarrow> string" where
  "IP_String ip =
     (case ip of
        None \<Rightarrow> ''<nil>''
      | Some b \<Rightarrow>
          if b = [] then ''<nil>''
          else (case To4 (Some b) of
                  Some q \<Rightarrow> join_strings ''.'' (map (\<lambda>x. Itoa_nat (unat x)) q)
                | None \<Rightarrow> if length b = 16 then ip6_String b
                          else CHR ''?'' # hex_EncodeToString b))"

lemma join_strings_nonempty:
  "xs \<noteq> [] \<Longrightarrow> (\<forall>x \<in> set xs. x \<noteq> []) \<Longrightarrow> join_strings sep xs \<noteq> []"
  by (induction sep xs rule: join_strings.induct) auto

lemma Htoa_nat_nonempty [simp]: "Htoa_nat n \<noteq> []"
  by (subst Htoa_nat.simps) simp

lemma ip_groups_nonempty: "2 \<le> length b \<Longrightarrow> ip_groups b \<noteq> []"
  by (cases b rule: ip_groups.cases) auto

lemma ip6_String_nonempty: "length b = 16 \<Longrightarrow> ip6_String b \<noteq> []"
  by (auto simp: ip6_String_def Let_def ip_groups_nonempty join_strings_nonempty
      split: option.splits)

lemma IP_String_nonempty: "IP_String ip \<noteq> []"
proof (cases ip)
  case (Some b)
  have "To4 (Some b) = Some q \<Longrightarrow> join_strings ''.'' (map (\<lambda>x. Itoa_nat (unat x)) q) \<noteq> []" for q
    using To4_length [of "Some b" q] by (intro join_strings_nonempty) auto
  then show ?thesis
    using Some by (auto simp: IP_String_def ip6_String_nonempty split: option.splits)
qed (simp add: IP_String_def)

section \<open>Lists and options\<close>

lemma filter_nth_split:
  "i < length xs \<Longrightarrow> filter P xs = filter P (take i xs) @ filter P (drop i xs)"
  by (metis append_take_drop_id filter_append)

lemma map_filter_zip_take_drop:
  "map f (filter P (drop i xs)) @ map f (filter P (take i xs)) =
   map f (filter P (drop i xs @ take i xs))"
  by simp

lemma takeWhile_dropWhile_sep:
  "sep \<in> set s \<Longrightarrow>
   s = takeWhile (\<lambda>c. c \<noteq> sep) s @ sep # tl (dropWhile (\<lambda>c. c \<noteq> sep) s)"
  by (induction s) auto

lemma count_list_tl_dropWhile:
  "sep \<in> set s \<Longrightarrow> count_list s sep = Suc (count_list (tl (dropWhile (\<lambda>c. c \<noteq> sep) s)) sep)"
  by (induction s) auto

lemma find_Some_in: "find P xs = Some x \<Longrightarrow> x \<in> set xs \<and> P x"
  by (auto simp: find_Some_iff)

end
