(* ===== verification/DnsTypes.thy ===== *)
theory DnsTypes
  imports GoPrelude "HOL-Library.Multiset"
begin

text \<open>
  The record sets of \<open>src/internal/types/dns_types.go\<close>: one record per Go struct,
  the methods \<open>Value\<close>, \<open>Empty\<close>, \<open>Ttl\<close> and \<open>Parse\<close> of each, the tables of
  supported types, \<open>SplitSets\<close> and \<open>split255\<close>.

  The resource records themselves are structs of \<open>github.com/miekg/dns\<close>; only the
  fields the sources read or write are kept.  \<open>dns.Fqdn\<close> and the type-name tables
  \<open>dns.StringToType\<close> and \<open>dns.TypeToString\<close> of that package are parameters.
\<close>

section \<open>Resource records of the dns package\<close>

text \<open>Type and class codes as assigned by IANA.\<close>

definition TypeNone :: uint16 where "TypeNone = 0"
definition TypeA :: uint16 where "TypeA = 1"
definition TypeNS :: uint16 where "TypeNS = 2"
definition TypeCNAME :: uint16 where "TypeCNAME = 5"
definition TypeSOA :: uint16 where "TypeSOA = 6"
definition TypePTR :: uint16 where "TypePTR = 12"
definition TypeMX :: uint16 where "TypeMX = 15"
definition TypeTXT :: uint16 where "TypeTXT = 16"
definition TypeAAAA :: uint16 where "TypeAAAA = 28"
definition TypeSRV :: uint16 where "TypeSRV = 33"
definition TypeOPT :: uint16 where "TypeOPT = 41"
definition TypeDS :: uint16 where "TypeDS = 43"
definition TypeRRSIG :: uint16 where "TypeRRSIG = 46"
definition TypeNSEC :: uint16 where "TypeNSEC = 47"
definition TypeDNSKEY :: uint16 where "TypeDNSKEY = 48"
definition TypeTLSA :: uint16 where "TypeTLSA = 52"
definition TypeCAA :: uint16 where "TypeCAA = 257"
definition ClassINET :: uint16 where "ClassINET = 1"

lemmas type_codes [z42_simps] =
  TypeNone_def TypeA_def TypeNS_def TypeCNAME_def TypeSOA_def TypePTR_def TypeMX_def
  TypeTXT_def TypeAAAA_def TypeSRV_def TypeOPT_def TypeDS_def TypeRRSIG_def TypeNSEC_def
  TypeDNSKEY_def TypeTLSA_def TypeCAA_def

record RR_Header =
  hdr_Name :: string
  hdr_Rrtype :: uint16
  hdr_Class :: uint16
  hdr_Ttl :: uint32

record DNSKEY =
  key_Hdr :: RR_Header
  key_Flags :: uint16
  key_Protocol :: uint8
  key_Algorithm :: uint8
  key_PublicKey :: string

record RRSIG =
  sig_Hdr :: RR_Header
  sig_Inception :: uint32
  sig_Expiration :: uint32
  sig_KeyTag :: uint16
  sig_SignerName :: string
  sig_Algorithm :: uint8
  sig_TypeCovered :: uint16
  sig_Signature :: string

datatype EDNS0 = EDNS0_COOKIE string | EDNS0_SUBNET IP | EDNS0_OTHER uint16

record OPT =
  opt_Hdr :: RR_Header
  opt_UDPSize :: uint16
  opt_Do :: bool
  opt_Option :: "EDNS0 list"

text \<open>
  An interface value of type \<open>dns.RR\<close>.  \<open>RR_NilRRSIG\<close> is the non-nil interface that
  holds a nil \<open>*dns.RRSIG\<close>, \<open>RR_Nil\<close> the nil interface; \<open>RR_Other\<close> is any type the sources never look into.
\<close>

datatype RR =
    RR_A RR_Header IP
  | RR_AAAA RR_Header IP
  | RR_CNAME RR_Header string
  | RR_TXT RR_Header "string list"
  | RR_NS RR_Header string
  | RR_MX RR_Header uint16 string
  | RR_SRV RR_Header uint16 uint16 uint16 string
  | RR_CAA RR_Header uint8 string string
  | RR_PTR RR_Header string
  | RR_TLSA RR_Header uint8 uint8 uint8 string
  | RR_DS RR_Header uint16 uint8 uint8 string
  | RR_SOA RR_Header string string uint32 uint32 uint32 uint32 uint32
  | RR_NSEC RR_Header string "uint16 list"
  | RR_DNSKEY DNSKEY
  | RR_RRSIG RRSIG
  | RR_OPT OPT
  | RR_NilRRSIG
  | RR_Nil
  | RR_Other RR_Header

definition nil_hdr :: RR_Header where
  "nil_hdr = \<lparr>hdr_Name = [], hdr_Rrtype = TypeRRSIG, hdr_Class = 0, hdr_Ttl = 0\<rparr>"

fun Header :: "RR \<Rightarrow> RR_Header" where
  "Header (RR_A h _) = h"
| "Header (RR_AAAA h _) = h"
| "Header (RR_CNAME h _) = h"
| "Header (RR_TXT h _) = h"
| "Header (RR_NS h _) = h"
| "Header (RR_MX h _ _) = h"
| "Header (RR_SRV h _ _ _ _) = h"
| "Header (RR_CAA h _ _ _) = h"
| "Header (RR_PTR h _) = h"
| "Header (RR_TLSA h _ _ _ _) = h"
| "Header (RR_DS h _ _ _ _) = h"
| "Header (RR_SOA h _ _ _ _ _ _ _) = h"
| "Header (RR_NSEC h _ _) = h"
| "Header (RR_DNSKEY k) = key_Hdr k"
| "Header (RR_RRSIG s) = sig_Hdr s"
| "Header (RR_OPT p) = opt_Hdr p"
| "Header RR_NilRRSIG = nil_hdr"
| "Header RR_Nil = nil_hdr"
| "Header (RR_Other h) = h"

abbreviation inet_hdr :: "string \<Rightarrow> uint16 \<Rightarrow> uint32 \<Rightarrow> RR_Header" where
  "inet_hdr name t ttl \<equiv> \<lparr>hdr_Name = name, hdr_Rrtype = t, hdr_Class = ClassINET, hdr_Ttl = ttl\<rparr>"

section \<open>Masks and supported types\<close>

text \<open>The constants of the two \<open>const\<close> blocks; a mask is a Go \<open>int\<close>.\<close>

definition IpMaskWhite :: int where "IpMaskWhite = 0"
definition IpMaskGrey :: int where "IpMaskGrey = 1"
definition IpMaskBlack :: int where "IpMaskBlack = 2"
definition TypeANAME :: uint16 where "TypeANAME = 500"

lemmas mask_codes = IpMaskWhite_def IpMaskGrey_def IpMaskBlack_def

definition IsSupported :: "uint16 \<Rightarrow> bool" where
  "IsSupported t \<longleftrightarrow>
     t \<in> {TypeA, TypeAAAA, TypeCNAME, TypeTXT, TypeNS, TypeMX, TypeSRV, TypeCAA,
          TypePTR, TypeTLSA, TypeDS, TypeANAME, TypeSOA}"

section \<open>Record sets\<close>

text \<open>Embedding \<open>GenericRRSet\<close> in a struct is record extension.\<close>

record GenericRRSet =
  TtlValue :: uint32

definition Ttl :: "'a GenericRRSet_scheme \<Rightarrow> uint32" where
  "Ttl rrset = TtlValue rrset"

text \<open>A \<open>crypto.PrivateKey\<close>, by its dynamic type; the key material stays opaque.\<close>

datatype PrivateKey = RSA_Key string | ECDSA_Key string | Other_Key string

record ZoneKey =
  zk_DnsKey :: DNSKEY
  zk_PrivateKey :: PrivateKey
  zk_KeyInception :: uint32
  zk_KeyExpiration :: uint32

record IP_RR =
  ip_Weight :: int
  ip_Ip :: IP
  ip_Country :: "string list"
  ip_ASN :: "uint64 list"

record IpHealthCheckConfig =
  hc_Protocol :: string
  hc_Uri :: string
  hc_Port :: int
  hc_Timeout :: int
  hc_UpCount :: int
  hc_DownCount :: int
  hc_Enable :: bool

record IpFilterConfig =
  fc_Count :: string
  fc_Order :: string
  fc_GeoFilter :: string

record IP_RRSet = GenericRRSet +
  ips_FilterConfig :: IpFilterConfig
  ips_HealthCheckConfig :: IpHealthCheckConfig
  ips_Data :: "IP_RR list"

record CNAME_RRSet = GenericRRSet +
  cname_Host :: string

record TXT_RRSet = GenericRRSet +
  txt_Data :: "string list"

record NS_RRSet = GenericRRSet +
  ns_Data :: "string list"

record MX_RR =
  mx_Host :: string
  mx_Preference :: uint16

record MX_RRSet = GenericRRSet +
  mx_Data :: "MX_RR list"

record SRV_RR =
  srv_Target :: string
  srv_Priority :: uint16
  srv_Weight :: uint16
  srv_Port :: uint16

record SRV_RRSet = GenericRRSet +
  srv_Data :: "SRV_RR list"

record CAA_RR =
  caa_Tag :: string
  caa_Value :: string
  caa_Flag :: uint8

record CAA_RRSet = GenericRRSet +
  caa_Data :: "CAA_RR list"

record PTR_RRSet = GenericRRSet +
  ptr_Domain :: string

record TLSA_RR =
  tlsa_Usage :: uint8
  tlsa_Selector :: uint8
  tlsa_MatchingType :: uint8
  tlsa_Certificate :: string

record TLSA_RRSet = GenericRRSet +
  tlsa_Data :: "TLSA_RR list"

record DS_RR =
  ds_KeyTag :: uint16
  ds_Algorithm :: uint8
  ds_DigestType :: uint8
  ds_Digest :: string

record DS_RRSet = GenericRRSet +
  ds_Data :: "DS_RR list"

record SOA_RRSet = GenericRRSet +
  soa_Ns :: string
  soa_MBox :: string
  soa_Data :: "RR option"
  soa_Refresh :: uint32
  soa_Retry :: uint32
  soa_Expire :: uint32
  soa_MinTtl :: uint32
  soa_Serial :: uint32

record ANAME_RRSet = GenericRRSet +
  aname_Location :: string

text \<open>The interface type \<open>RRSet\<close>, by its dynamic type.\<close>

datatype RRSet =
    IP_Set IP_RRSet
  | CNAME_Set CNAME_RRSet
  | TXT_Set TXT_RRSet
  | NS_Set NS_RRSet
  | MX_Set MX_RRSet
  | SRV_Set SRV_RRSet
  | CAA_Set CAA_RRSet
  | PTR_Set PTR_RRSet
  | TLSA_Set TLSA_RRSet
  | DS_Set DS_RRSet
  | SOA_Set SOA_RRSet
  | ANAME_Set ANAME_RRSet

text \<open>Zero values, as \<open>&T{}\<close> builds them.\<close>

definition zero_filter :: IpFilterConfig where
  "zero_filter = \<lparr>fc_Count = [], fc_Order = [], fc_GeoFilter = []\<rparr>"

definition zero_healthcheck :: IpHealthCheckConfig where
  "zero_healthcheck = \<lparr>hc_Protocol = [], hc_Uri = [], hc_Port = 0, hc_Timeout = 0,
     hc_UpCount = 0, hc_DownCount = 0, hc_Enable = False\<rparr>"

definition zero_IP :: IP_RRSet where
  "zero_IP = \<lparr>TtlValue = 0, ips_FilterConfig = zero_filter,
     ips_HealthCheckConfig = zero_healthcheck, ips_Data = []\<rparr>"

definition zero_CNAME :: CNAME_RRSet where "zero_CNAME = \<lparr>TtlValue = 0, cname_Host = []\<rparr>"
definition zero_TXT :: TXT_RRSet where "zero_TXT = \<lparr>TtlValue = 0, txt_Data = []\<rparr>"
definition zero_NS :: NS_RRSet where "zero_NS = \<lparr>TtlValue = 0, ns_Data = []\<rparr>"
definition zero_MX :: MX_RRSet where "zero_MX = \<lparr>TtlValue = 0, mx_Data = []\<rparr>"
definition zero_SRV :: SRV_RRSet where "zero_SRV = \<lparr>TtlValue = 0, srv_Data = []\<rparr>"
definition zero_CAA :: CAA_RRSet where "zero_CAA = \<lparr>TtlValue = 0, caa_Data = []\<rparr>"
definition zero_PTR :: PTR_RRSet where "zero_PTR = \<lparr>TtlValue = 0, ptr_Domain = []\<rparr>"
definition zero_TLSA :: TLSA_RRSet where "zero_TLSA = \<lparr>TtlValue = 0, tlsa_Data = []\<rparr>"
definition zero_DS :: DS_RRSet where "zero_DS = \<lparr>TtlValue = 0, ds_Data = []\<rparr>"
definition zero_SOA :: SOA_RRSet where
  "zero_SOA = \<lparr>TtlValue = 0, soa_Ns = [], soa_MBox = [], soa_Data = None, soa_Refresh = 0,
     soa_Retry = 0, soa_Expire = 0, soa_MinTtl = 0, soa_Serial = 0\<rparr>"
definition zero_ANAME :: ANAME_RRSet where "zero_ANAME = \<lparr>TtlValue = 0, aname_Location = []\<rparr>"

lemmas zero_rrset_defs =
  zero_IP_def zero_CNAME_def zero_TXT_def zero_NS_def zero_MX_def zero_SRV_def zero_CAA_def
  zero_PTR_def zero_TLSA_def zero_DS_def zero_SOA_def zero_ANAME_def

definition TypeToRRSet :: "uint16 \<Rightarrow> RRSet option" where
  "TypeToRRSet t =
     (if t = TypeA then Some (IP_Set zero_IP)
      else if t = TypeAAAA then Some (IP_Set zero_IP)
      else if t = TypeCNAME then Some (CNAME_Set zero_CNAME)
      else if t = TypeTXT then Some (TXT_Set zero_TXT)
      else if t = TypeNS then Some (NS_Set zero_NS)
      else if t = TypeMX then Some (MX_Set zero_MX)
      else if t = TypeSRV then Some (SRV_Set zero_SRV)
      else if t = TypeCAA then Some (CAA_Set zero_CAA)
      else if t = TypePTR then Some (PTR_Set zero_PTR)
      else if t = TypeTLSA then Some (TLSA_Set zero_TLSA)
      else if t = TypeDS then Some (DS_Set zero_DS)
      else if t = TypeSOA then Some (SOA_Set zero_SOA)
      else if t = TypeANAME then Some (ANAME_Set zero_ANAME)
      else None)"

text \<open>
  The two tables of the dns package: \<open>dns_StringToType\<close> is 0 and
  \<open>dns_TypeToString\<close> is empty where the Go map has no entry.
\<close>

record dns_tables =
  dns_StringToType :: "string \<Rightarrow> uint16"
  dns_TypeToString :: "uint16 \<Rightarrow> string"

definition StringToType :: "dns_tables \<Rightarrow> string \<Rightarrow> uint16" where
  "StringToType T s =
     (let u = ToUpper s in if u = ''ANAME'' then TypeANAME else dns_StringToType T u)"

definition customTypeToString :: "uint16 \<Rightarrow> string option" where
  "customTypeToString t = (if t = TypeANAME then Some ''ANAME'' else None)"

definition TypeToString :: "dns_tables \<Rightarrow> uint16 \<Rightarrow> string" where
  "TypeToString T t =
     ToLower (case customTypeToString t of Some s \<Rightarrow> s | None \<Rightarrow> dns_TypeToString T t)"

definition TypeStrToRRSet :: "dns_tables \<Rightarrow> string \<Rightarrow> RRSet option" where
  "TypeStrToRRSet T t = TypeToRRSet (StringToType T t)"

section \<open>split255\<close>

text \<open>The loop appends \<open>s[p:i]\<close> while \<open>i\<close> is within the string, then the rest.\<close>

function split255_loop :: "string \<Rightarrow> nat \<Rightarrow> nat \<Rightarrow> string list" where
  "split255_loop s p i =
     (if i \<le> length s
      then take (i - p) (drop p s) # split255_loop s (p + 255) (i + 255)
      else [drop p s])"
  by pat_completeness auto
termination
  by (relation "measure (\<lambda>(s, p, i). Suc (length s) - i)") auto

declare split255_loop.simps [simp del]

definition split255 :: "string \<Rightarrow> string list" where
  "split255 s = (if length s < 255 then [s] else split255_loop s 0 255)"

section \<open>Value\<close>

text \<open>
  \<open>fqdn\<close> is \<open>dns.Fqdn\<close>.  A record whose host, target or text is empty is left out
  by the methods that test for it.
\<close>

definition IP_Value :: "IP_RRSet \<Rightarrow> string \<Rightarrow> RR list" where
  "IP_Value rrset name =
     concat (map (\<lambda>record.
       if IP_String (ip_Ip record) = [] then []
       else if To4 (ip_Ip record) \<noteq> None
       then [RR_A (inet_hdr name TypeA (TtlValue rrset)) (ip_Ip record)]
       else [RR_AAAA (inet_hdr name TypeAAAA (TtlValue rrset)) (ip_Ip record)]) (ips_Data rrset))"

definition CNAME_Value :: "(string \<Rightarrow> string) \<Rightarrow> CNAME_RRSet \<Rightarrow> string \<Rightarrow> RR list" where
  "CNAME_Value fqdn rrset name =
     (if cname_Host rrset = [] then []
      else [RR_CNAME (inet_hdr name TypeCNAME (TtlValue rrset)) (fqdn (cname_Host rrset))])"

definition TXT_Value :: "TXT_RRSet \<Rightarrow> string \<Rightarrow> RR list" where
  "TXT_Value rrset name =
     concat (map (\<lambda>txt.
       if txt = [] then [] else [RR_TXT (inet_hdr name TypeTXT (TtlValue rrset)) (split255 txt)])
       (txt_Data rrset))"

definition NS_Value :: "(string \<Rightarrow> string) \<Rightarrow> NS_RRSet \<Rightarrow> string \<Rightarrow> RR list" where
  "NS_Value fqdn rrset name =
     concat (map (\<lambda>ns.
       if ns = [] then [] else [RR_NS (inet_hdr name TypeNS (TtlValue rrset)) (fqdn ns)])
       (ns_Data rrset))"

definition MX_Value :: "(string \<Rightarrow> string) \<Rightarrow> MX_RRSet \<Rightarrow> string \<Rightarrow> RR list" where
  "MX_Value fqdn rrset name =
     concat (map (\<lambda>mx.
       if mx_Host mx = [] then []
       else [RR_MX (inet_hdr name TypeMX (TtlValue rrset)) (mx_Preference mx) (fqdn (mx_Host mx))])
       (mx_Data rrset))"

definition SRV_Value :: "(string \<Rightarrow> string) \<Rightarrow> SRV_RRSet \<Rightarrow> string \<Rightarrow> RR list" where
  "SRV_Value fqdn rrset name =
     concat (map (\<lambda>srv.
       if srv_Target srv = [] then []
       else [RR_SRV (inet_hdr name TypeSRV (TtlValue rrset)) (srv_Priority srv) (srv_Weight srv)
               (srv_Port srv) (fqdn (srv_Target srv))])
       (srv_Data rrset))"

definition CAA_Value :: "CAA_RRSet \<Rightarrow> string \<Rightarrow> RR list" where
  "CAA_Value rrset name =
     map (\<lambda>caa. RR_CAA (inet_hdr name TypeCAA (TtlValue rrset)) (caa_Flag caa) (caa_Tag caa)
                  (caa_Value caa)) (caa_Data rrset)"

definition PTR_Value :: "(string \<Rightarrow> string) \<Rightarrow> PTR_RRSet \<Rightarrow> string \<Rightarrow> RR list" where
  "PTR_Value fqdn rrset name =
     (if ptr_Domain rrset = [] then []
      else [RR_PTR (inet_hdr name TypePTR (TtlValue rrset)) (fqdn (ptr_Domain rrset))])"

definition TLSA_Value :: "TLSA_RRSet \<Rightarrow> string \<Rightarrow> RR list" where
  "TLSA_Value rrset name =
     map (\<lambda>tlsa. RR_TLSA (inet_hdr name TypeTLSA (TtlValue rrset)) (tlsa_Usage tlsa)
                   (tlsa_Selector tlsa) (tlsa_MatchingType tlsa) (tlsa_Certificate tlsa))
       (tlsa_Data rrset)"

definition DS_Value :: "DS_RRSet \<Rightarrow> string \<Rightarrow> RR list" where
  "DS_Value rrset name =
     map (\<lambda>ds. RR_DS (inet_hdr name TypeDS (TtlValue rrset)) (ds_KeyTag ds) (ds_Algorithm ds)
                 (ds_DigestType ds) (ds_Digest ds)) (ds_Data rrset)"

definition SOA_Value :: "SOA_RRSet \<Rightarrow> string \<Rightarrow> RR list" where
  "SOA_Value rrset name =
     [RR_SOA (inet_hdr name TypeSOA (TtlValue rrset)) (soa_Ns rrset) (soa_MBox rrset)
        (soa_Serial rrset) (soa_Refresh rrset) (soa_Retry rrset) (soa_Expire rrset)
        (soa_MinTtl rrset)]"

definition ANAME_Value :: "ANAME_RRSet \<Rightarrow> string \<Rightarrow> RR list" where
  "ANAME_Value rrset name =
     [RR_CNAME (inet_hdr name TypeCNAME (TtlValue rrset)) (aname_Location rrset)]"

fun Value :: "(string \<Rightarrow> string) \<Rightarrow> RRSet \<Rightarrow> string \<Rightarrow> RR list" where
  "Value fqdn (IP_Set r) name = IP_Value r name"
| "Value fqdn (CNAME_Set r) name = CNAME_Value fqdn r name"
| "Value fqdn (TXT_Set r) name = TXT_Value r name"
| "Value fqdn (NS_Set r) name = NS_Value fqdn r name"
| "Value fqdn (MX_Set r) name = MX_Value fqdn r name"
| "Value fqdn (SRV_Set r) name = SRV_Value fqdn r name"
| "Value fqdn (CAA_Set r) name = CAA_Value r name"
| "Value fqdn (PTR_Set r) name = PTR_Value fqdn r name"
| "Value fqdn (TLSA_Set r) name = TLSA_Value r name"
| "Value fqdn (DS_Set r) name = DS_Value r name"
| "Value fqdn (SOA_Set r) name = SOA_Value r name"
| "Value fqdn (ANAME_Set r) name = ANAME_Value r name"

lemmas value_defs =
  IP_Value_def CNAME_Value_def TXT_Value_def NS_Value_def MX_Value_def SRV_Value_def
  CAA_Value_def PTR_Value_def TLSA_Value_def DS_Value_def SOA_Value_def ANAME_Value_def

section \<open>Empty and Ttl\<close>

definition IP_Empty :: "IP_RRSet \<Rightarrow> bool" where "IP_Empty r \<longleftrightarrow> length (ips_Data r) = 0"
definition CNAME_Empty :: "CNAME_RRSet \<Rightarrow> bool" where "CNAME_Empty r \<longleftrightarrow> length (cname_Host r) = 0"
definition TXT_Empty :: "TXT_RRSet \<Rightarrow> bool" where "TXT_Empty r \<longleftrightarrow> length (txt_Data r) = 0"
definition NS_Empty :: "NS_RRSet \<Rightarrow> bool" where "NS_Empty r \<longleftrightarrow> length (ns_Data r) = 0"
definition MX_Empty :: "MX_RRSet \<Rightarrow> bool" where "MX_Empty r \<longleftrightarrow> length (mx_Data r) = 0"
definition SRV_Empty :: "SRV_RRSet \<Rightarrow> bool" where "SRV_Empty r \<longleftrightarrow> length (srv_Data r) = 0"
definition CAA_Empty :: "CAA_RRSet \<Rightarrow> bool" where "CAA_Empty r \<longleftrightarrow> length (caa_Data r) = 0"
definition PTR_Empty :: "PTR_RRSet \<Rightarrow> bool" where "PTR_Empty r \<longleftrightarrow> length (ptr_Domain r) = 0"
definition TLSA_Empty :: "TLSA_RRSet \<Rightarrow> bool" where "TLSA_Empty r \<longleftrightarrow> length (tlsa_Data r) = 0"
definition DS_Empty :: "DS_RRSet \<Rightarrow> bool" where "DS_Empty r \<longleftrightarrow> length (ds_Data r) = 0"
definition SOA_Empty :: "SOA_RRSet \<Rightarrow> bool" where "SOA_Empty r \<longleftrightarrow> False"
definition ANAME_Empty :: "ANAME_RRSet \<Rightarrow> bool" where "ANAME_Empty r \<longleftrightarrow> length (aname_Location r) = 0"

lemmas empty_defs =
  IP_Empty_def CNAME_Empty_def TXT_Empty_def NS_Empty_def MX_Empty_def SRV_Empty_def
  CAA_Empty_def PTR_Empty_def TLSA_Empty_def DS_Empty_def SOA_Empty_def ANAME_Empty_def

fun Empty :: "RRSet \<Rightarrow> bool" where
  "Empty (IP_Set r) = IP_Empty r"
| "Empty (CNAME_Set r) = CNAME_Empty r"
| "Empty (TXT_Set r) = TXT_Empty r"
| "Empty (NS_Set r) = NS_Empty r"
| "Empty (MX_Set r) = MX_Empty r"
| "Empty (SRV_Set r) = SRV_Empty r"
| "Empty (CAA_Set r) = CAA_Empty r"
| "Empty (PTR_Set r) = PTR_Empty r"
| "Empty (TLSA_Set r) = TLSA_Empty r"
| "Empty (DS_Set r) = DS_Empty r"
| "Empty (SOA_Set r) = SOA_Empty r"
| "Empty (ANAME_Set r) = ANAME_Empty r"

fun RRSet_Ttl :: "RRSet \<Rightarrow> uint32" where
  "RRSet_Ttl (IP_Set r) = Ttl r"
| "RRSet_Ttl (CNAME_Set r) = Ttl r"
| "RRSet_Ttl (TXT_Set r) = Ttl r"
| "RRSet_Ttl (NS_Set r) = Ttl r"
| "RRSet_Ttl (MX_Set r) = Ttl r"
| "RRSet_Ttl (SRV_Set r) = Ttl r"
| "RRSet_Ttl (CAA_Set r) = Ttl r"
| "RRSet_Ttl (PTR_Set r) = Ttl r"
| "RRSet_Ttl (TLSA_Set r) = Ttl r"
| "RRSet_Ttl (DS_Set r) = Ttl r"
| "RRSet_Ttl (SOA_Set r) = Ttl r"
| "RRSet_Ttl (ANAME_Set r) = Ttl r"

section \<open>Parse\<close>

text \<open>
  \<open>Parse\<close> first tests the type in the record's header, then asserts the dynamic type
  of the record, which panics when the two disagree.
\<close>

definition errInvalidType :: go_error where
  "errInvalidType = Err ''invalid type''"

definition type_assertion :: go_error where
  "type_assertion = Panic ''interface conversion''"

definition new_IP_RR :: "IP \<Rightarrow> IP_RR" where
  "new_IP_RR ip = \<lparr>ip_Weight = 0, ip_Ip = ip, ip_Country = [], ip_ASN = []\<rparr>"

definition IP_Parse :: "IP_RRSet \<Rightarrow> RR \<Rightarrow> go_error + IP_RRSet" where
  "IP_Parse rrset r =
     (if hdr_Rrtype (Header r) \<noteq> TypeA \<and> hdr_Rrtype (Header r) \<noteq> TypeAAAA
      then Inl errInvalidType
      else let rrset1 = (if length (ips_Data rrset) = 0
                         then rrset\<lparr>TtlValue := hdr_Ttl (Header r)\<rparr> else rrset)
           in if hdr_Rrtype (Header r) = TypeA
              then (case r of
                      RR_A h ip \<Rightarrow> Inr (rrset1\<lparr>ips_Data := ips_Data rrset1 @ [new_IP_RR ip]\<rparr>)
                    | _ \<Rightarrow> Inl type_assertion)
              else (case r of
                      RR_AAAA h ip \<Rightarrow> Inr (rrset1\<lparr>ips_Data := ips_Data rrset1 @ [new_IP_RR ip]\<rparr>)
                    | _ \<Rightarrow> Inl type_assertion))"

definition CNAME_Parse :: "CNAME_RRSet \<Rightarrow> RR \<Rightarrow> go_error + CNAME_RRSet" where
  "CNAME_Parse rrset r =
     (if hdr_Rrtype (Header r) \<noteq> TypeCNAME then Inl errInvalidType
      else let rrset1 = rrset\<lparr>TtlValue := hdr_Ttl (Header r)\<rparr>
           in case r of
                RR_CNAME h target \<Rightarrow> Inr (rrset1\<lparr>cname_Host := target\<rparr>)
              | _ \<Rightarrow> Inl type_assertion)"

definition TXT_Parse :: "TXT_RRSet \<Rightarrow> RR \<Rightarrow> go_error + TXT_RRSet" where
  "TXT_Parse rrset r =
     (if hdr_Rrtype (Header r) \<noteq> TypeTXT then Inl errInvalidType
      else let rrset1 = (if length (txt_Data rrset) = 0
                         then rrset\<lparr>TtlValue := hdr_Ttl (Header r)\<rparr> else rrset)
           in case r of
                RR_TXT h txt \<Rightarrow> Inr (rrset1\<lparr>txt_Data := txt_Data rrset1 @ [concat txt]\<rparr>)
              | _ \<Rightarrow> Inl type_assertion)"

definition NS_Parse :: "NS_RRSet \<Rightarrow> RR \<Rightarrow> go_error + NS_RRSet" where
  "NS_Parse rrset r =
     (if hdr_Rrtype (Header r) \<noteq> TypeNS then Inl errInvalidType
      else let rrset1 = (if length (ns_Data rrset) = 0
                         then rrset\<lparr>TtlValue := hdr_Ttl (Header r)\<rparr> else rrset)
           in case r of
                RR_NS h host \<Rightarrow> Inr (rrset1\<lparr>ns_Data := ns_Data rrset1 @ [host]\<rparr>)
              | _ \<Rightarrow> Inl type_assertion)"

definition MX_Parse :: "MX_RRSet \<Rightarrow> RR \<Rightarrow> go_error + MX_RRSet" where
  "MX_Parse rrset r =
     (if hdr_Rrtype (Header r) \<noteq> TypeMX then Inl errInvalidType
      else let rrset1 = (if length (mx_Data rrset) = 0
                         then rrset\<lparr>TtlValue := hdr_Ttl (Header r)\<rparr> else rrset)
           in case r of
                RR_MX h pref host \<Rightarrow> Inr (rrset1\<lparr>mx_Data := mx_Data rrset1 @ [\<lparr>mx_Host = host, mx_Preference = pref\<rparr>]\<rparr>)
              | _ \<Rightarrow> Inl type_assertion)"

definition SRV_Parse :: "SRV_RRSet \<Rightarrow> RR \<Rightarrow> go_error + SRV_RRSet" where
  "SRV_Parse rrset r =
     (if hdr_Rrtype (Header r) \<noteq> TypeSRV then Inl errInvalidType
      else let rrset1 = (if length (srv_Data rrset) = 0
                         then rrset\<lparr>TtlValue := hdr_Ttl (Header r)\<rparr> else rrset)
           in case r of
                RR_SRV h prio weight port target \<Rightarrow> Inr (rrset1\<lparr>srv_Data := srv_Data rrset1 @ [
                  \<lparr>srv_Target = target, srv_Priority = prio, srv_Weight = weight, srv_Port = port\<rparr>]\<rparr>)
              | _ \<Rightarrow> Inl type_assertion)"

definition CAA_Parse :: "CAA_RRSet \<Rightarrow> RR \<Rightarrow> go_error + CAA_RRSet" where
  "CAA_Parse rrset r =
     (if hdr_Rrtype (Header r) \<noteq> TypeCAA then Inl errInvalidType
      else let rrset1 = (if length (caa_Data rrset) = 0
                         then rrset\<lparr>TtlValue := hdr_Ttl (Header r)\<rparr> else rrset)
           in case r of
                RR_CAA h flag tag val \<Rightarrow> Inr (rrset1\<lparr>caa_Data := caa_Data rrset1 @ [
                  \<lparr>caa_Tag = tag, caa_Value = val, caa_Flag = flag\<rparr>]\<rparr>)
              | _ \<Rightarrow> Inl type_assertion)"

definition PTR_Parse :: "PTR_RRSet \<Rightarrow> RR \<Rightarrow> go_error + PTR_RRSet" where
  "PTR_Parse rrset r =
     (if hdr_Rrtype (Header r) \<noteq> TypePTR then Inl errInvalidType
      else let rrset1 = rrset\<lparr>TtlValue := hdr_Ttl (Header r)\<rparr>
           in case r of
                RR_PTR h ptr \<Rightarrow> Inr (rrset1\<lparr>ptr_Domain := ptr\<rparr>)
              | _ \<Rightarrow> Inl type_assertion)"

definition TLSA_Parse :: "TLSA_RRSet \<Rightarrow> RR \<Rightarrow> go_error + TLSA_RRSet" where
  "TLSA_Parse rrset r =
     (if hdr_Rrtype (Header r) \<noteq> TypeTLSA then Inl errInvalidType
      else let rrset1 = (if length (tlsa_Data rrset) = 0
                         then rrset\<lparr>TtlValue := hdr_Ttl (Header r)\<rparr> else rrset)
           in case r of
                RR_TLSA h usage selector mtype cert \<Rightarrow> Inr (rrset1\<lparr>tlsa_Data := tlsa_Data rrset1 @ [
                  \<lparr>tlsa_Usage = usage, tlsa_Selector = selector, tlsa_MatchingType = mtype,
                    tlsa_Certificate = cert\<rparr>]\<rparr>)
              | _ \<Rightarrow> Inl type_assertion)"

definition DS_Parse :: "DS_RRSet \<Rightarrow> RR \<Rightarrow> go_error + DS_RRSet" where
  "DS_Parse rrset r =
     (if hdr_Rrtype (Header r) \<noteq> TypeDS then Inl errInvalidType
      else let rrset1 = (if length (ds_Data rrset) = 0
                         then rrset\<lparr>TtlValue := hdr_Ttl (Header r)\<rparr> else rrset)
           in case r of
                RR_DS h tag alg dtype digest \<Rightarrow> Inr (rrset1\<lparr>ds_Data := ds_Data rrset1 @ [
                  \<lparr>ds_KeyTag = tag, ds_Algorithm = alg, ds_DigestType = dtype, ds_Digest = digest\<rparr>]\<rparr>)
              | _ \<Rightarrow> Inl type_assertion)"

definition SOA_Parse :: "SOA_RRSet \<Rightarrow> RR \<Rightarrow> go_error + SOA_RRSet" where
  "SOA_Parse rrset r =
     (if hdr_Rrtype (Header r) \<noteq> TypeSOA then Inl errInvalidType
      else let rrset1 = rrset\<lparr>TtlValue := hdr_Ttl (Header r)\<rparr>
           in case r of
                RR_SOA h ns mbox serial refresh retry expire minttl \<Rightarrow>
                  Inr (rrset1\<lparr>soa_Ns := ns, soa_Expire := expire, soa_MBox := mbox,
                         soa_MinTtl := minttl, soa_Refresh := refresh, soa_Retry := retry,
                         soa_Serial := serial\<rparr>)
              | _ \<Rightarrow> Inl type_assertion)"

definition ANAME_Parse :: "ANAME_RRSet \<Rightarrow> RR \<Rightarrow> go_error + ANAME_RRSet" where
  "ANAME_Parse rrset r = Inl errInvalidType"

fun Parse :: "RRSet \<Rightarrow> RR \<Rightarrow> go_error + RRSet" where
  "Parse (IP_Set x) r = map_sum id IP_Set (IP_Parse x r)"
| "Parse (CNAME_Set x) r = map_sum id CNAME_Set (CNAME_Parse x r)"
| "Parse (TXT_Set x) r = map_sum id TXT_Set (TXT_Parse x r)"
| "Parse (NS_Set x) r = map_sum id NS_Set (NS_Parse x r)"
| "Parse (MX_Set x) r = map_sum id MX_Set (MX_Parse x r)"
| "Parse (SRV_Set x) r = map_sum id SRV_Set (SRV_Parse x r)"
| "Parse (CAA_Set x) r = map_sum id CAA_Set (CAA_Parse x r)"
| "Parse (PTR_Set x) r = map_sum id PTR_Set (PTR_Parse x r)"
| "Parse (TLSA_Set x) r = map_sum id TLSA_Set (TLSA_Parse x r)"
| "Parse (DS_Set x) r = map_sum id DS_Set (DS_Parse x r)"
| "Parse (SOA_Set x) r = map_sum id SOA_Set (SOA_Parse x r)"
| "Parse (ANAME_Set x) r = map_sum id ANAME_Set (ANAME_Parse x r)"

lemmas parse_defs =
  IP_Parse_def CNAME_Parse_def TXT_Parse_def NS_Parse_def MX_Parse_def SRV_Parse_def
  CAA_Parse_def PTR_Parse_def TLSA_Parse_def DS_Parse_def SOA_Parse_def ANAME_Parse_def

section \<open>Defaults\<close>

definition nsNames :: "string list" where
  "nsNames = [''alpha'', ''bravo'', ''charlie'', ''echo'', ''foxtrot'', ''golf'', ''hotel'',
     ''india'', ''Juliet'', ''kilo'', ''lima'', ''mike'', ''november'', ''oscar'', ''papa'',
     ''quebec'', ''romeo'', ''sierra'', ''tango'', ''uniform'', ''victor'', ''whiskey'',
     ''xray'', ''yankee'', ''zulu'']"

text \<open>\<open>r1\<close> and \<open>r2\<close> are the two results of \<open>rand.Int()\<close>, which is never negative.\<close>

definition GenerateNS :: "nat \<Rightarrow> nat \<Rightarrow> string \<Rightarrow> NS_RRSet" where
  "GenerateNS r1 r2 authServer =
     \<lparr>TtlValue = 3600,
      ns_Data = [nsNames ! (r1 mod length nsNames) @ ''.'' @ authServer,
                 nsNames ! (r2 mod length nsNames) @ ''.'' @ authServer]\<rparr>"

text \<open>
  The serial of \<open>DefaultSOA\<close> is today's date as the digits of \<open>yyyymmdd\<close> followed by
  two zeros, converted to 32 bits.
\<close>

definition DefaultSOA :: "int \<Rightarrow> int \<Rightarrow> int \<Rightarrow> string \<Rightarrow> SOA_RRSet" where
  "DefaultSOA year month day zoneName =
     \<lparr>TtlValue = 3600, soa_Ns = ''ns1.'' @ zoneName, soa_MBox = ''hostmaster.'' @ zoneName,
      soa_Data = None, soa_Refresh = 86400, soa_Retry = 7200, soa_Expire = 3600000,
      soa_MinTtl = 300,
      soa_Serial = word_of_int (((year * 100 + month) * 100 + day) * 100)\<rparr>"

section \<open>SplitSets\<close>

text \<open>
  The Go map from keys to record lists is an association list, in the order in which
  the keys were first stored; Go leaves the order of iteration open, and the client in
  the signing component takes an arbitrary reordering of it.  The nil map is \<open>[]\<close>.
\<close>

record RRSetKey =
  rk_QName :: string
  rk_QType :: uint16

definition rr_key :: "RR \<Rightarrow> RRSetKey" where
  "rr_key r = \<lparr>rk_QName = hdr_Name (Header r), rk_QType = hdr_Rrtype (Header r)\<rparr>"

fun add_to_set :: "RRSetKey \<Rightarrow> RR \<Rightarrow> (RRSetKey \<times> RR list) list \<Rightarrow> (RRSetKey \<times> RR list) list" where
  "add_to_set k r [] = [(k, [r])]"
| "add_to_set k r ((k', s) # m) =
     (if k' = k then (k', s @ [r]) # m else (k', s) # add_to_set k r m)"

fun SplitSets_loop :: "(RRSetKey \<times> RR list) list \<Rightarrow> RR list \<Rightarrow> (RRSetKey \<times> RR list) list" where
  "SplitSets_loop m [] = m"
| "SplitSets_loop m (r # rs) =
     (if hdr_Rrtype (Header r) = TypeRRSIG \<or> hdr_Rrtype (Header r) = TypeOPT
      then SplitSets_loop m rs
      else SplitSets_loop (add_to_set (rr_key r) r m) rs)"

definition SplitSets :: "RR list \<Rightarrow> (RRSetKey \<times> RR list) list" where
  "SplitSets rrs = SplitSets_loop [] rrs"

text \<open>
  \<open>types.String\<close>: the text form of a record set in a zone file.  \<open>show\<close> is the
  \<open>String\<close> method of the dns package's records.
\<close>

definition RRSet_String :: "(string \<Rightarrow> string) \<Rightarrow> (RR \<Rightarrow> string) \<Rightarrow> RRSet \<Rightarrow> string \<Rightarrow> string" where
  "RRSet_String fqdn show rrset name =
     (case Value fqdn rrset [] of
        [] \<Rightarrow> []
      | v # vs \<Rightarrow> name @ show v @ ''\<newline>'' @
          concat (map (\<lambda>r. CHR 0x09 # show r @ ''\<newline>'') vs))"

section \<open>split255 cuts a text into pieces of at most 255 bytes\<close>

lemma split255_loop_concat:
  "i = p + 255 \<Longrightarrow> p \<le> length s \<Longrightarrow> concat (split255_loop s p i) = drop p s"
proof (induction s p i rule: split255_loop.induct)
  case (1 s p i)
  show ?case
  proof (cases "i \<le> length s")
    case True
    have "concat (split255_loop s (p + 255) (i + 255)) = drop (p + 255) s"
      using 1 True by auto
    then have "concat (split255_loop s p i) = take 255 (drop p s) @ drop 255 (drop p s)"
      using 1 True by (subst split255_loop.simps) (simp add: add.commute)
    then show ?thesis by (simp only: append_take_drop_id)
  qed (subst split255_loop.simps, simp)
qed

lemma split255_loop_length:
  "i = p + 255 \<Longrightarrow> c \<in> set (split255_loop s p i) \<Longrightarrow> length c \<le> 255"
proof (induction s p i rule: split255_loop.induct)
  case (1 s p i)
  from "1.prems"(2) consider
      (chunk) "i \<le> length s" "c = take (i - p) (drop p s)"
    | (later) "i \<le> length s" "c \<in> set (split255_loop s (p + 255) (i + 255))"
    | (rest) "\<not> i \<le> length s" "c = drop p s"
    by (subst (asm) split255_loop.simps) (auto split: if_splits)
  then show ?case
    using "1.IH" "1.prems"(1) by cases auto
qed

lemma concat_split255 [simp]: "concat (split255 s) = s"
  by (simp add: split255_def split255_loop_concat)

lemma split255_length: "c \<in> set (split255 s) \<Longrightarrow> length c \<le> 255"
  using split255_loop_length [of 255 0 c s] by (auto simp: split255_def split: if_splits)

section \<open>Record sets as printers and parsers\<close>

fun parse_all :: "('s \<Rightarrow> RR \<Rightarrow> go_error + 's) \<Rightarrow> 's \<Rightarrow> RR list \<Rightarrow> go_error + 's" where
  "parse_all prs s [] = Inr s"
| "parse_all prs s (v # vs) = (case prs s v of Inl e \<Rightarrow> Inl e | Inr s' \<Rightarrow> parse_all prs s' vs)"

text \<open>
  The contract of the list-valued record sets: \<open>emits ttl v\<close> says that \<open>v\<close> is a record
  the set can print with that TTL, and \<open>stable ttl s\<close> that parsing another such record
  keeps the set's TTL.
\<close>

locale rrset_codec =
  fixes val :: "'s \<Rightarrow> RR list"
    and prs :: "'s \<Rightarrow> RR \<Rightarrow> go_error + 's"
    and fresh :: 's
    and emits :: "uint32 \<Rightarrow> RR \<Rightarrow> bool"
    and stable :: "uint32 \<Rightarrow> 's \<Rightarrow> bool"
  assumes val_fresh: "val fresh = []"
    and stable_fresh: "stable ttl fresh"
    and parse_emitted: "stable ttl s \<Longrightarrow> emits ttl v \<Longrightarrow>
          \<exists>s'. prs s v = Inr s' \<and> val s' = val s @ [v] \<and> stable ttl s'"
begin

lemma parse_all_emitted:
  "stable ttl s \<Longrightarrow> \<forall>v \<in> set vs. emits ttl v \<Longrightarrow>
   \<exists>s'. parse_all prs s vs = Inr s' \<and> val s' = val s @ vs"
proof (induction vs arbitrary: s)
  case (Cons v vs)
  then obtain s1 where s1: "prs s v = Inr s1" "val s1 = val s @ [v]" "stable ttl s1"
    using parse_emitted [of ttl s v] by auto
  with Cons.IH [of s1] Cons.prems show ?case by auto
qed simp

lemma reparse:
  "\<forall>v \<in> set vs. emits ttl v \<Longrightarrow> \<exists>s'. parse_all prs fresh vs = Inr s' \<and> val s' = vs"
  using parse_all_emitted [OF stable_fresh] by (simp add: val_fresh)

end

definition stable_ttl :: "('a GenericRRSet_scheme \<Rightarrow> 'd list) \<Rightarrow> uint32 \<Rightarrow> 'a GenericRRSet_scheme \<Rightarrow> bool" where
  "stable_ttl data ttl s \<longleftrightarrow> data s = [] \<or> TtlValue s = ttl"

lemmas codec_simps =
  value_defs parse_defs zero_rrset_defs stable_ttl_def new_IP_RR_def Let_def type_codes

interpretation ip_codec: rrset_codec
  "\<lambda>s. IP_Value s name" IP_Parse zero_IP
  "\<lambda>ttl v. \<exists>ip. v = (if To4 ip \<noteq> None then RR_A (inet_hdr name TypeA ttl) ip
                    else RR_AAAA (inet_hdr name TypeAAAA ttl) ip)"
  "stable_ttl ips_Data" for name
  by unfold_locales (auto simp: codec_simps IP_String_nonempty cong: if_cong split: if_splits)

interpretation txt_codec: rrset_codec
  "\<lambda>s. TXT_Value s name" TXT_Parse zero_TXT
  "\<lambda>ttl v. \<exists>txt. txt \<noteq> [] \<and> v = RR_TXT (inet_hdr name TypeTXT ttl) (split255 txt)"
  "stable_ttl txt_Data" for name
  by unfold_locales (auto simp: codec_simps cong: if_cong)

interpretation ns_codec: rrset_codec
  "\<lambda>s. NS_Value fqdn s name" NS_Parse zero_NS
  "\<lambda>ttl v. \<exists>h. h \<noteq> [] \<and> fqdn h = h \<and> v = RR_NS (inet_hdr name TypeNS ttl) h"
  "stable_ttl ns_Data" for fqdn name
  by unfold_locales (auto simp: codec_simps cong: if_cong)

interpretation mx_codec: rrset_codec
  "\<lambda>s. MX_Value fqdn s name" MX_Parse zero_MX
  "\<lambda>ttl v. \<exists>h p. h \<noteq> [] \<and> fqdn h = h \<and> v = RR_MX (inet_hdr name TypeMX ttl) p h"
  "stable_ttl mx_Data" for fqdn name
  by unfold_locales (auto simp: codec_simps cong: if_cong)

interpretation srv_codec: rrset_codec
  "\<lambda>s. SRV_Value fqdn s name" SRV_Parse zero_SRV
  "\<lambda>ttl v. \<exists>h p w q. h \<noteq> [] \<and> fqdn h = h \<and> v = RR_SRV (inet_hdr name TypeSRV ttl) p w q h"
  "stable_ttl srv_Data" for fqdn name
  by unfold_locales (auto simp: codec_simps cong: if_cong)

interpretation caa_codec: rrset_codec
  "\<lambda>s. CAA_Value s name" CAA_Parse zero_CAA
  "\<lambda>ttl v. \<exists>f t w. v = RR_CAA (inet_hdr name TypeCAA ttl) f t w"
  "stable_ttl caa_Data" for name
  by unfold_locales (auto simp: codec_simps cong: if_cong)

interpretation tlsa_codec: rrset_codec
  "\<lambda>s. TLSA_Value s name" TLSA_Parse zero_TLSA
  "\<lambda>ttl v. \<exists>u s m c. v = RR_TLSA (inet_hdr name TypeTLSA ttl) u s m c"
  "stable_ttl tlsa_Data" for name
  by unfold_locales (auto simp: codec_simps cong: if_cong)

interpretation ds_codec: rrset_codec
  "\<lambda>s. DS_Value s name" DS_Parse zero_DS
  "\<lambda>ttl v. \<exists>t a d g. v = RR_DS (inet_hdr name TypeDS ttl) t a d g"
  "stable_ttl ds_Data" for name
  by unfold_locales (auto simp: codec_simps cong: if_cong)

section \<open>Printing and parsing at the interface type\<close>

text \<open>What the sources rely on of \<open>dns.Fqdn\<close>: it is idempotent and never empties a name.\<close>

definition fqdn_laws :: "(string \<Rightarrow> string) \<Rightarrow> bool" where
  "fqdn_laws fqdn \<longleftrightarrow> (\<forall>s. fqdn (fqdn s) = fqdn s) \<and> (\<forall>s. s \<noteq> [] \<longrightarrow> fqdn s \<noteq> [])"

definition append_dot :: "string \<Rightarrow> string" where
  "append_dot s = (if s \<noteq> [] \<and> last s = CHR ''.'' then s else s @ ''.'')"

lemma fqdn_laws_append_dot: "fqdn_laws append_dot"
  by (auto simp: fqdn_laws_def append_dot_def)

fun rrset_kind :: "RRSet \<Rightarrow> nat" where
  "rrset_kind (IP_Set _) = 0"
| "rrset_kind (CNAME_Set _) = 1"
| "rrset_kind (TXT_Set _) = 2"
| "rrset_kind (NS_Set _) = 3"
| "rrset_kind (MX_Set _) = 4"
| "rrset_kind (SRV_Set _) = 5"
| "rrset_kind (CAA_Set _) = 6"
| "rrset_kind (PTR_Set _) = 7"
| "rrset_kind (TLSA_Set _) = 8"
| "rrset_kind (DS_Set _) = 9"
| "rrset_kind (SOA_Set _) = 10"
| "rrset_kind (ANAME_Set _) = 11"

lemma parse_all_lift:
  assumes "\<And>s v. Parse (C s) v = map_sum id C (prs s v)"
  shows "parse_all Parse (C s) vs = map_sum id C (parse_all prs s vs)"
proof (induction vs arbitrary: s)
  case (Cons v vs)
  then show ?case by (cases "prs s v") (auto simp: assms)
qed simp

lemma parse_all_lift_ok:
  assumes "\<exists>s'. parse_all prs s vs = Inr s' \<and> val s' = vs"
    and "\<And>s v. Parse (C s) v = map_sum id C (prs s v)"
    and "\<And>s. Value fqdn (C s) name = val s"
  shows "\<exists>rs'. parse_all Parse (C s) vs = Inr rs' \<and> Value fqdn rs' name = vs"
  using assms by (auto simp: parse_all_lift [of C prs])

lemma TypeToRRSet_zero:
  "TypeToRRSet t = Some r0 \<Longrightarrow>
   r0 \<in> {IP_Set zero_IP, CNAME_Set zero_CNAME, TXT_Set zero_TXT, NS_Set zero_NS, MX_Set zero_MX,
         SRV_Set zero_SRV, CAA_Set zero_CAA, PTR_Set zero_PTR, TLSA_Set zero_TLSA,
         DS_Set zero_DS, SOA_Set zero_SOA, ANAME_Set zero_ANAME} \<and>
   (rrset_kind r0 = 11 \<longrightarrow> t = TypeANAME)"
  by (auto simp: TypeToRRSet_def split: if_splits)

lemma zero_of_kind:
  assumes "TypeToRRSet t = Some r0" and "rrset_kind r0 = rrset_kind rs" and "t \<noteq> TypeANAME"
  shows "r0 = (case rs of IP_Set _ \<Rightarrow> IP_Set zero_IP | CNAME_Set _ \<Rightarrow> CNAME_Set zero_CNAME
      | TXT_Set _ \<Rightarrow> TXT_Set zero_TXT | NS_Set _ \<Rightarrow> NS_Set zero_NS | MX_Set _ \<Rightarrow> MX_Set zero_MX
      | SRV_Set _ \<Rightarrow> SRV_Set zero_SRV | CAA_Set _ \<Rightarrow> CAA_Set zero_CAA
      | PTR_Set _ \<Rightarrow> PTR_Set zero_PTR | TLSA_Set _ \<Rightarrow> TLSA_Set zero_TLSA
      | DS_Set _ \<Rightarrow> DS_Set zero_DS | SOA_Set _ \<Rightarrow> SOA_Set zero_SOA | ANAME_Set x \<Rightarrow> ANAME_Set x)"
    and "rrset_kind rs \<noteq> 11"
  using TypeToRRSet_zero [OF assms(1)] assms(2,3) by (cases rs; auto)+

lemma single_roundtrip:
  "fqdn_laws fqdn \<Longrightarrow>
   \<exists>s'. parse_all CNAME_Parse zero_CNAME (CNAME_Value fqdn c name) = Inr s' \<and>
        CNAME_Value fqdn s' name = CNAME_Value fqdn c name"
  "fqdn_laws fqdn \<Longrightarrow>
   \<exists>s'. parse_all PTR_Parse zero_PTR (PTR_Value fqdn p name) = Inr s' \<and>
        PTR_Value fqdn s' name = PTR_Value fqdn p name"
  "\<exists>s'. parse_all SOA_Parse zero_SOA (SOA_Value q name) = Inr s' \<and>
        SOA_Value s' name = SOA_Value q name"
  by (auto simp: fqdn_laws_def codec_simps)

lemma list_roundtrip:
  "\<exists>s'. parse_all IP_Parse zero_IP (IP_Value a name) = Inr s' \<and>
        IP_Value s' name = IP_Value a name"
  "\<exists>s'. parse_all TXT_Parse zero_TXT (TXT_Value b name) = Inr s' \<and>
        TXT_Value s' name = TXT_Value b name"
  "\<exists>s'. parse_all CAA_Parse zero_CAA (CAA_Value c name) = Inr s' \<and>
        CAA_Value s' name = CAA_Value c name"
  "\<exists>s'. parse_all TLSA_Parse zero_TLSA (TLSA_Value d name) = Inr s' \<and>
        TLSA_Value s' name = TLSA_Value d name"
  "\<exists>s'. parse_all DS_Parse zero_DS (DS_Value e name) = Inr s' \<and>
        DS_Value s' name = DS_Value e name"
  by (rule ip_codec.reparse [of _ _ "TtlValue a"] txt_codec.reparse [of _ _ "TtlValue b"]
        caa_codec.reparse [of _ _ "TtlValue c"] tlsa_codec.reparse [of _ _ "TtlValue d"]
        ds_codec.reparse [of _ _ "TtlValue e"];
      auto simp: value_defs IP_String_nonempty split: if_splits)+

lemma host_roundtrip:
  assumes "fqdn_laws fqdn"
  shows
  "\<exists>s'. parse_all NS_Parse zero_NS (NS_Value fqdn a name) = Inr s' \<and>
        NS_Value fqdn s' name = NS_Value fqdn a name"
  "\<exists>s'. parse_all MX_Parse zero_MX (MX_Value fqdn b name) = Inr s' \<and>
        MX_Value fqdn s' name = MX_Value fqdn b name"
  "\<exists>s'. parse_all SRV_Parse zero_SRV (SRV_Value fqdn c name) = Inr s' \<and>
        SRV_Value fqdn s' name = SRV_Value fqdn c name"
  by (rule ns_codec.reparse [of _ _ _ "TtlValue a"] mx_codec.reparse [of _ _ _ "TtlValue b"]
        srv_codec.reparse [of _ _ _ "TtlValue c"];
      use assms in \<open>auto simp: value_defs fqdn_laws_def split: if_splits\<close>)+

text \<open>
  C28: a record set that is printed and parsed back serves the same records.  For every
  supported type but ANAME, feeding the records that \<open>Value\<close> produces one by one to
  \<open>Parse\<close>, from the empty set that \<open>TypeToRRSet\<close> gives for the type, succeeds, and
  \<open>Value\<close> of the result is the same list of records.
\<close>

theorem value_parse_roundtrip:
  assumes "fqdn_laws fqdn" and "TypeToRRSet t = Some r0"
    and "rrset_kind r0 = rrset_kind rs" and "t \<noteq> TypeANAME"
  shows "\<exists>rs'. parse_all Parse r0 (Value fqdn rs name) = Inr rs' \<and>
               Value fqdn rs' name = Value fqdn rs name"
proof -
  note lifted =
    parse_all_lift_ok [OF list_roundtrip(1) Parse.simps(1) Value.simps(1)]
    parse_all_lift_ok [OF single_roundtrip(1) [OF assms(1)] Parse.simps(2) Value.simps(2)]
    parse_all_lift_ok [OF list_roundtrip(2) Parse.simps(3) Value.simps(3)]
    parse_all_lift_ok [OF host_roundtrip(1) [OF assms(1)] Parse.simps(4) Value.simps(4)]
    parse_all_lift_ok [OF host_roundtrip(2) [OF assms(1)] Parse.simps(5) Value.simps(5)]
    parse_all_lift_ok [OF host_roundtrip(3) [OF assms(1)] Parse.simps(6) Value.simps(6)]
    parse_all_lift_ok [OF list_roundtrip(3) Parse.simps(7) Value.simps(7)]
    parse_all_lift_ok [OF single_roundtrip(2) [OF assms(1)] Parse.simps(8) Value.simps(8)]
    parse_all_lift_ok [OF list_roundtrip(4) Parse.simps(9) Value.simps(9)]
    parse_all_lift_ok [OF list_roundtrip(5) Parse.simps(10) Value.simps(10)]
    parse_all_lift_ok [OF single_roundtrip(3) Parse.simps(11) Value.simps(11)]
  show ?thesis
    using zero_of_kind [OF assms(2-4)] lifted by (cases rs) simp_all
qed

theorem value_parse_roundtrip_witness:
  "\<exists>rs'. parse_all Parse (MX_Set zero_MX)
      (Value append_dot (MX_Set \<lparr>TtlValue = 300, mx_Data = [\<lparr>mx_Host = ''mx1'', mx_Preference = 10\<rparr>]\<rparr>) ''z.'')
      = Inr rs' \<and>
    Value append_dot rs' ''z.'' = [RR_MX (inet_hdr ''z.'' TypeMX 300) 10 ''mx1.'']"
proof -
  have t: "TypeToRRSet TypeMX = Some (MX_Set zero_MX)"
    by (simp add: TypeToRRSet_def type_codes)
  let ?r = "\<lparr>TtlValue = 300, mx_Data = [\<lparr>mx_Host = ''mx1'', mx_Preference = 10\<rparr>]\<rparr>"
  have n: "TypeMX \<noteq> TypeANAME"
    by (simp add: type_codes TypeANAME_def)
  show ?thesis
    using value_parse_roundtrip [OF fqdn_laws_append_dot t _ n, of "MX_Set ?r" "''z.''"]
    by (simp add: MX_Value_def append_dot_def)
qed

text \<open>
  Every record that \<open>Value\<close> produces carries the name it was asked for, class IN
  and the TTL of its set, so all records of one answer have the same TTL.
\<close>

lemma value_headers:
  "\<forall>r \<in> set (Value fqdn rs name).
     hdr_Name (Header r) = name \<and> hdr_Class (Header r) = ClassINET \<and>
     hdr_Ttl (Header r) = RRSet_Ttl rs"
  by (cases rs) (auto simp: value_defs Ttl_def split: if_splits)

section \<open>Type tables\<close>

lemma lower_upper_char: "upper_char (lower_char c) = upper_char c"
  by (auto simp: lower_char_def upper_char_def Let_def)

lemma ToUpper_ToLower [simp]: "ToUpper (ToLower s) = ToUpper s"
  by (simp add: ToUpper_def ToLower_def lower_upper_char)

definition supported_types :: "(uint16 \<times> string) list" where
  "supported_types = [(TypeA, ''A''), (TypeAAAA, ''AAAA''), (TypeCNAME, ''CNAME''),
     (TypeTXT, ''TXT''), (TypeNS, ''NS''), (TypeMX, ''MX''), (TypeSRV, ''SRV''),
     (TypeCAA, ''CAA''), (TypePTR, ''PTR''), (TypeTLSA, ''TLSA''), (TypeDS, ''DS''),
     (TypeSOA, ''SOA'')]"

text \<open>The entries of the dns package's tables that the sources rely on.\<close>

definition dns_table_laws :: "dns_tables \<Rightarrow> bool" where
  "dns_table_laws T \<longleftrightarrow>
     (\<forall>(t, n) \<in> set supported_types. dns_TypeToString T t = n \<and> dns_StringToType T n = t)"

definition std_tables :: dns_tables where
  "std_tables =
     \<lparr>dns_StringToType =
        (\<lambda>n. case map_of (map (\<lambda>(t, n). (n, t)) supported_types) n of Some t \<Rightarrow> t | None \<Rightarrow> 0),
      dns_TypeToString =
        (\<lambda>t. case map_of supported_types t of Some n \<Rightarrow> n | None \<Rightarrow> [])\<rparr>"

lemma dns_table_laws_std: "dns_table_laws std_tables"
  by (simp add: dns_table_laws_def std_tables_def supported_types_def type_codes)

lemma upper_names: "(t, n) \<in> set supported_types \<Longrightarrow> ToUpper n = n \<and> n \<noteq> ''ANAME''"
  by (auto simp: supported_types_def ToUpper_def upper_char_def Let_def)

lemma upper_ANAME: "ToUpper ''ANAME'' = ''ANAME''"
  by (simp add: ToUpper_def upper_char_def Let_def)

lemma StringToType_TypeToString:
  assumes "dns_table_laws T" and "IsSupported t"
  shows "StringToType T (TypeToString T t) = t"
proof (cases "t = TypeANAME")
  case True
  then show ?thesis
    by (simp add: StringToType_def TypeToString_def customTypeToString_def upper_ANAME Let_def)
next
  case False
  then have "t \<in> fst ` set supported_types"
    using assms(2) by (simp add: IsSupported_def supported_types_def)
  then obtain n where n: "(t, n) \<in> set supported_types"
    by force
  then have "dns_TypeToString T t = n" "dns_StringToType T n = t"
    using assms(1) by (auto simp: dns_table_laws_def)
  then show ?thesis
    using False upper_names [OF n]
    by (simp add: StringToType_def TypeToString_def customTypeToString_def Let_def)
qed

lemma TypeToRRSet_iff_supported: "TypeToRRSet t \<noteq> None \<longleftrightarrow> IsSupported t"
  by (auto simp: IsSupported_def TypeToRRSet_def)

lemma TypeToString_inj:
  "dns_table_laws T \<Longrightarrow> IsSupported t \<Longrightarrow> IsSupported u \<Longrightarrow>
   TypeToString T t = TypeToString T u \<Longrightarrow> t = u"
  by (metis StringToType_TypeToString)

text \<open>
  The names of the supported types round-trip.  For every supported type the
  lower-case name that \<open>TypeToString\<close> gives (and that is stored in database keys)
  is read back as the same type, and \<open>TypeStrToRRSet\<close> builds a record set for it.
\<close>

lemma type_name_roundtrip:
  assumes "dns_table_laws T" and "IsSupported t"
  shows "StringToType T (TypeToString T t) = t \<and>
         TypeStrToRRSet T (TypeToString T t) = TypeToRRSet t \<and> TypeToRRSet t \<noteq> None"
  using StringToType_TypeToString [OF assms] assms(2)
  by (simp add: TypeStrToRRSet_def TypeToRRSet_iff_supported del: not_None_eq)

section \<open>SplitSets groups an answer by name and type\<close>

definition signable :: "RR \<Rightarrow> bool" where
  "signable r \<longleftrightarrow> hdr_Rrtype (Header r) \<noteq> TypeRRSIG \<and> hdr_Rrtype (Header r) \<noteq> TypeOPT"

lemma map_of_add_to_set:
  "map_of (add_to_set k r m) k' =
   (if k' = k then Some ((case map_of m k of None \<Rightarrow> [] | Some s \<Rightarrow> s) @ [r]) else map_of m k')"
  by (induction k r m rule: add_to_set.induct) auto

lemma keys_add_to_set:
  "distinct (map fst m) \<Longrightarrow> distinct (map fst (add_to_set k r m)) \<and>
   set (map fst (add_to_set k r m)) = insert k (set (map fst m))"
  by (induction k r m rule: add_to_set.induct) auto

lemma mset_add_to_set:
  "mset (concat (map snd (add_to_set k r m))) = add_mset r (mset (concat (map snd m)))"
  by (induction k r m rule: add_to_set.induct) auto

lemma SplitSets_loop_lookup:
  "map_of (SplitSets_loop m rs) k =
   (case (map_of m k, filter (\<lambda>r. signable r \<and> rr_key r = k) rs) of
      (None, []) \<Rightarrow> None
    | (None, xs) \<Rightarrow> Some xs
    | (Some s, xs) \<Rightarrow> Some (s @ xs))"
  by (induction m rs rule: SplitSets_loop.induct)
    (auto simp: signable_def map_of_add_to_set split: option.splits list.splits)

lemma SplitSets_loop_distinct:
  "distinct (map fst m) \<Longrightarrow> distinct (map fst (SplitSets_loop m rs))"
  by (induction m rs rule: SplitSets_loop.induct) (auto simp: keys_add_to_set)

lemma SplitSets_loop_mset:
  "mset (concat (map snd (SplitSets_loop m rs))) =
   mset (concat (map snd m)) + mset (filter signable rs)"
  by (induction m rs rule: SplitSets_loop.induct) (auto simp: signable_def mset_add_to_set)

lemma SplitSets_lookup:
  "map_of (SplitSets rrs) k =
   (let xs = filter (\<lambda>r. signable r \<and> rr_key r = k) rrs in if xs = [] then None else Some xs)"
  by (auto simp: SplitSets_def SplitSets_loop_lookup Let_def split: list.splits)

lemma SplitSets_member:
  assumes "(k, xs) \<in> set (SplitSets rrs)"
  shows "xs = filter (\<lambda>r. signable r \<and> rr_key r = k) rrs" and "xs \<noteq> []"
proof -
  have "map_of (SplitSets rrs) k = Some xs"
    using assms SplitSets_loop_distinct [of "[]" rrs] by (simp add: SplitSets_def)
  then show "xs = filter (\<lambda>r. signable r \<and> rr_key r = k) rrs" and "xs \<noteq> []"
    by (auto simp: SplitSets_lookup Let_def split: if_splits)
qed

text \<open>
  \<open>SplitSets\<close> partitions an answer.  The keys are distinct, the set stored under
  a name and type is exactly the sub-list of the records with that name and type, in
  their order, RRSIG and OPT records left out, and no other record is lost or duplicated.
\<close>

lemma SplitSets_partition:
  "distinct (map fst (SplitSets rrs)) \<and>
   mset (concat (map snd (SplitSets rrs))) = mset (filter signable rrs) \<and>
   map_of (SplitSets rrs) k =
     (let xs = filter (\<lambda>r. signable r \<and> rr_key r = k) rrs in if xs = [] then None else Some xs)"
  using SplitSets_loop_distinct [of "[]" rrs] SplitSets_loop_mset [of "[]" rrs]
  by (simp add: SplitSets_lookup) (simp add: SplitSets_def)

text \<open>
  The test for an empty address in \<open>IP_RRSet.Value\<close> never succeeds, because
  \<open>net.IP.String\<close> has no empty result: every stored address yields one record, and a
  missing (nil) address yields an AAAA record without an address.
\<close>

lemma ip_value_keeps_nil_addresses:
  "length (IP_Value rrset name) = length (ips_Data rrset) \<and>
   (rec \<in> set (ips_Data rrset) \<and> ip_Ip rec = None \<longrightarrow>
      RR_AAAA (inet_hdr name TypeAAAA (TtlValue rrset)) None \<in> set (IP_Value rrset name))"
proof -
  have "length (concat (map f xs)) = length xs" if "\<And>x. length (f x) = 1" for f :: "IP_RR \<Rightarrow> RR list" and xs
    using that by (induction xs) auto
  then have "length (IP_Value rrset name) = length (ips_Data rrset)"
    by (simp add: IP_Value_def IP_String_nonempty)
  moreover have "rec \<in> set (ips_Data rrset) \<and> ip_Ip rec = None \<longrightarrow>
      RR_AAAA (inet_hdr name TypeAAAA (TtlValue rrset)) None \<in> set (IP_Value rrset name)"
    by (force simp: IP_Value_def IP_String_nonempty)
  ultimately show ?thesis by blast
qed

end
