(* ===== verification/Geo.thy ===== *)
theory Geo
  imports DnsTypes Complex_Main
begin

text \<open>
  Geographic filtering of addresses: \<open>src/pkg/geoip/geoip.go\<close> and
  \<open>src/internal/geotools/geotools.go\<close>.

  The MaxMind database readers are parameters: functions from an address to what the
  database holds for it.  A \<open>float64\<close> is a real number here, so the distances are
  the exact ones.
\<close>

section \<open>pkg/geoip\<close>

record country_reader =
  cr_country :: "IP \<Rightarrow> go_error + string"
  cr_location :: "IP \<Rightarrow> go_error + (real \<times> real)"

record GeoIp =
  geo_enable :: bool
  geo_countryDB :: "country_reader option"
  geo_asnDB :: "(IP \<Rightarrow> go_error + uint64) option"

definition ErrGeoIpDisabled :: go_error where
  "ErrGeoIpDisabled = Err ''geoip is disabled''"

definition ErrBadDB :: go_error where
  "ErrBadDB = Err ''bad db''"

text \<open>
  \<open>open_country\<close> and \<open>open_asn\<close> are \<open>maxminddb.Open\<close>; a failure is logged and leaves
  the reader nil.
\<close>

record GeoIpConfig =
  gc_Enable :: bool
  gc_CountryDB :: string
  gc_ASNDB :: string

definition NewGeoIp ::
  "(string \<Rightarrow> country_reader option) \<Rightarrow> (string \<Rightarrow> (IP \<Rightarrow> go_error + uint64) option) \<Rightarrow>
   GeoIpConfig \<Rightarrow> GeoIp" where
  "NewGeoIp open_country open_asn config =
     (if \<not> gc_Enable config
      then \<lparr>geo_enable = False, geo_countryDB = None, geo_asnDB = None\<rparr>
      else \<lparr>geo_enable = True,
            geo_countryDB = (if gc_CountryDB config \<noteq> [] then open_country (gc_CountryDB config) else None),
            geo_asnDB = (if gc_ASNDB config \<noteq> [] then open_asn (gc_ASNDB config) else None)\<rparr>)"

definition atan2_nonneg :: "real \<Rightarrow> real \<Rightarrow> real" where
  "atan2_nonneg y x = (if x = 0 then (if y = 0 then 0 else pi / 2) else arctan (y / x))"

definition GetDistance :: "real \<Rightarrow> real \<Rightarrow> real \<Rightarrow> real \<Rightarrow> real" where
  "GetDistance slat slong dlat dlong =
     (let deltaLat = (dlat - slat) * pi / 180;
          deltaLong = (dlong - slong) * pi / 180;
          slat = slat * pi / 180;
          dlat = dlat * pi / 180;
          a = sin (deltaLat / 2) * sin (deltaLat / 2) +
              cos slat * cos dlat * sin (deltaLong / 2) * sin (deltaLong / 2)
      in 2 * atan2_nonneg (sqrt a) (sqrt (1 - a)))"

definition GetCoordinates :: "GeoIp \<Rightarrow> IP \<Rightarrow> go_error + (real \<times> real)" where
  "GetCoordinates g ip =
     (if \<not> geo_enable g then Inl ErrGeoIpDisabled
      else case geo_countryDB g of
             None \<Rightarrow> Inl ErrBadDB
           | Some db \<Rightarrow> cr_location db ip)"

definition GetCountry :: "GeoIp \<Rightarrow> IP \<Rightarrow> go_error + string" where
  "GetCountry g ip =
     (if \<not> geo_enable g then Inl ErrGeoIpDisabled
      else case geo_countryDB g of
             None \<Rightarrow> Inl ErrBadDB
           | Some db \<Rightarrow> cr_country db ip)"

definition GetASN :: "GeoIp \<Rightarrow> IP \<Rightarrow> go_error + uint64" where
  "GetASN g ip =
     (if \<not> geo_enable g then Inl ErrGeoIpDisabled
      else case geo_asnDB g of
             None \<Rightarrow> Inl ErrBadDB
           | Some db \<Rightarrow> db ip)"

section \<open>internal/geotools\<close>

text \<open>
  The two passes over the mask that \<open>GetSameCountry\<close> and \<open>GetSameASN\<close> share in form.
  The first keeps the white entries that match and counts them in \<open>passed\<close>; the second
  whitens the entries that are good for any source.  An error of the database is
  returned beside the unchanged mask; the outer \<open>Inl\<close> is a panic.
\<close>

definition pass_match :: "(IP_RR \<Rightarrow> bool) \<Rightarrow> IP_RR list \<Rightarrow> nat \<times> int \<Rightarrow> go_error + (int \<times> nat)" where
  "pass_match good ips = (\<lambda>(i, x).
     if x = IpMaskWhite
     then (case idx ips i of
             Inl e \<Rightarrow> Inl e
           | Inr r \<Rightarrow> if good r then Inr (x, 1) else Inr (IpMaskGrey, 0))
     else Inr (IpMaskBlack, 0))"

definition pass_any :: "(IP_RR \<Rightarrow> bool) \<Rightarrow> IP_RR list \<Rightarrow> nat \<times> int \<Rightarrow> go_error + int" where
  "pass_any good ips = (\<lambda>(i, x).
     if x \<noteq> IpMaskBlack
     then (case idx ips i of
             Inl e \<Rightarrow> Inl e
           | Inr r \<Rightarrow> if good r then Inr IpMaskWhite else Inr IpMaskBlack)
     else Inr x)"

definition two_passes ::
  "bool \<Rightarrow> (IP_RR \<Rightarrow> bool) \<Rightarrow> (IP_RR \<Rightarrow> bool) \<Rightarrow> IP_RR list \<Rightarrow> int list \<Rightarrow> go_error + int list" where
  "two_passes known match any ips ms =
     (case (if known then traverse (pass_match match ips) (enumerate 0 ms)
            else Inr (map (\<lambda>x. (x, 0)) ms)) of
        Inl e \<Rightarrow> Inl e
      | Inr marked \<Rightarrow>
          if 0 < sum_list (map snd marked) then Inr (map fst marked)
          else traverse (pass_any any ips) (enumerate 0 (map fst marked)))"

definition GetSameCountry ::
  "GeoIp \<Rightarrow> IP \<Rightarrow> IP_RR list \<Rightarrow> int list \<Rightarrow> go_error + (int list \<times> go_error option)" where
  "GetSameCountry g sourceIp ips ms =
     (case GetCountry g sourceIp of
        Inl e \<Rightarrow> Inr (ms, Some e)
      | Inr sourceCountry \<Rightarrow>
          map_sum id (\<lambda>m. (m, None))
            (two_passes (sourceCountry \<noteq> [])
               (\<lambda>r. sourceCountry \<in> set (ip_Country r))
               (\<lambda>r. ip_Country r = [] \<or> [] \<in> set (ip_Country r)) ips ms))"

definition GetSameASN ::
  "GeoIp \<Rightarrow> IP \<Rightarrow> IP_RR list \<Rightarrow> int list \<Rightarrow> go_error + (int list \<times> go_error option)" where
  "GetSameASN g sourceIp ips ms =
     (case GetASN g sourceIp of
        Inl e \<Rightarrow> Inr (ms, Some e)
      | Inr sourceASN \<Rightarrow>
          map_sum id (\<lambda>m. (m, None))
            (two_passes (sourceASN \<noteq> 0)
               (\<lambda>r. sourceASN \<in> set (ip_ASN r))
               (\<lambda>r. ip_ASN r = [] \<or> 0 \<in> set (ip_ASN r)) ips ms))"

text \<open>
  \<open>GetMinimumDistance\<close> collects one distance per white entry, and reads them back at
  the index of the entry in the mask.
\<close>

definition coordinates_or_zero :: "go_error + (real \<times> real) \<Rightarrow> real \<times> real" where
  "coordinates_or_zero r = (case r of Inl _ \<Rightarrow> (0, 0) | Inr c \<Rightarrow> c)"

fun collect_distances ::
  "GeoIp \<Rightarrow> real \<times> real \<Rightarrow> IP_RR list \<Rightarrow> (nat \<times> int) list \<Rightarrow> real \<Rightarrow> real list \<Rightarrow>
   go_error + (real \<times> real list)" where
  "collect_distances g src ips [] minDistance dists = Inr (minDistance, dists)"
| "collect_distances g src ips ((i, x) # rest) minDistance dists =
     (if x = IpMaskWhite
      then (case idx ips i of
              Inl e \<Rightarrow> Inl e
            | Inr r \<Rightarrow>
                let dst = coordinates_or_zero (GetCoordinates g (ip_Ip r));
                    d = GetDistance (fst src) (snd src) (fst dst) (snd dst)
                in collect_distances g src ips rest (if d < minDistance then d else minDistance) (dists @ [d]))
      else collect_distances g src ips rest minDistance dists)"

definition mark_nearest :: "real \<Rightarrow> real list \<Rightarrow> nat \<times> int \<Rightarrow> go_error + (int \<times> nat)" where
  "mark_nearest minDistance dists = (\<lambda>(i, x).
     if x = IpMaskWhite
     then (case idx dists i of
             Inl e \<Rightarrow> Inl e
           | Inr d \<Rightarrow> if d = minDistance then Inr (x, 1) else Inr (IpMaskGrey, 0))
     else Inr (IpMaskBlack, 0))"

definition GetMinimumDistance ::
  "GeoIp \<Rightarrow> IP \<Rightarrow> IP_RR list \<Rightarrow> int list \<Rightarrow> go_error + (int list \<times> go_error option)" where
  "GetMinimumDistance g sourceIp ips ms =
     (case GetCoordinates g sourceIp of
        Inl e \<Rightarrow> Inr (ms, Some e)
      | Inr src \<Rightarrow>
          (case collect_distances g src ips (enumerate 0 ms) 1000 [] of
             Inl e \<Rightarrow> Inl e
           | Inr (minDistance, dists) \<Rightarrow>
               (case traverse (mark_nearest minDistance dists) (enumerate 0 ms) of
                  Inl e \<Rightarrow> Inl e
                | Inr marked \<Rightarrow>
                    if 0 < sum_list (map snd marked) then Inr (map fst marked, None)
                    else Inr (map (\<lambda>x. if x = IpMaskGrey then IpMaskWhite else x) (map fst marked), None))))"

section \<open>What the filters keep\<close>

lemma enumerate_map_nth: "enumerate 0 xs = map (\<lambda>i. (i, xs ! i)) [0..<length xs]"
  by (rule nth_equalityI) (simp_all add: nth_enumerate_eq)

lemma traverse_enumerate:
  assumes "\<And>i. i < length xs \<Longrightarrow> f (i, xs ! i) = Inr (g i)"
  shows "traverse f (enumerate 0 xs) = Inr (map g [0..<length xs])"
proof -
  have "traverse f (enumerate 0 xs) = Inr (map (g \<circ> fst) (enumerate 0 xs))"
    using assms by (intro traverse_total) (auto simp: in_set_enumerate_eq)
  then show ?thesis by (simp add: enumerate_map_nth comp_def)
qed

definition match_at :: "(IP_RR \<Rightarrow> bool) \<Rightarrow> IP_RR list \<Rightarrow> int list \<Rightarrow> nat \<Rightarrow> bool" where
  "match_at good ips ms i \<longleftrightarrow> ms ! i = IpMaskWhite \<and> good (ips ! i)"

lemma pass_match_at:
  "i < length ips \<Longrightarrow>
   pass_match good ips (i, ms ! i) =
     Inr (if match_at good ips ms i then (IpMaskWhite, 1)
          else (if ms ! i = IpMaskWhite then IpMaskGrey else IpMaskBlack, 0))"
  by (auto simp: pass_match_def match_at_def idx_def)

lemma pass_any_at:
  "i < length ips \<Longrightarrow>
   pass_any good ips (i, x) =
     Inr (if x \<noteq> IpMaskBlack \<and> good (ips ! i) then IpMaskWhite else IpMaskBlack)"
  by (auto simp: pass_any_def idx_def)

lemma sum_list_pos_iff:
  "0 < sum_list (map h xs) \<longleftrightarrow> (\<exists>x \<in> set xs. 0 < h x)" for h :: "'a \<Rightarrow> nat"
  by (induction xs) auto

text \<open>The entries that are white after the two passes.\<close>

definition kept :: "bool \<Rightarrow> (IP_RR \<Rightarrow> bool) \<Rightarrow> (IP_RR \<Rightarrow> bool) \<Rightarrow> IP_RR list \<Rightarrow> int list \<Rightarrow> nat \<Rightarrow> bool" where
  "kept known match any ips ms i \<longleftrightarrow>
     (if known \<and> (\<exists>j < length ms. match_at match ips ms j) then match_at match ips ms i
      else ms ! i \<noteq> IpMaskBlack \<and> (known \<longrightarrow> ms ! i = IpMaskWhite) \<and> any (ips ! i))"

lemma two_passes_kept:
  assumes len: "length ms \<le> length ips"
  shows "\<exists>ms'. two_passes known match any ips ms = Inr ms' \<and> length ms' = length ms \<and>
    (\<forall>i < length ms. ms' ! i = IpMaskWhite \<longleftrightarrow> kept known match any ips ms i)"
proof (cases known)
  case True
  let ?f = "\<lambda>i. if match_at match ips ms i then (IpMaskWhite, 1)
       else (if ms ! i = IpMaskWhite then IpMaskGrey else IpMaskBlack, 0::nat)"
  have marked: "traverse (pass_match match ips) (enumerate 0 ms) = Inr (map ?f [0..<length ms])"
    using len by (intro traverse_enumerate pass_match_at) auto
  have pos: "0 < sum_list (map snd (map ?f [0..<length ms])) \<longleftrightarrow>
      (\<exists>j < length ms. match_at match ips ms j)"
    by (auto simp: sum_list_pos_iff split: if_splits)
  show ?thesis
  proof (cases "\<exists>j < length ms. match_at match ips ms j")
    case hit: True
    then have "two_passes known match any ips ms = Inr (map fst (map ?f [0..<length ms]))"
      using True marked pos by (simp add: two_passes_def)
    with hit True show ?thesis
      by (auto simp: kept_def mask_codes)
  next
    case miss: False
    let ?m = "map fst (map ?f [0..<length ms])"
    have m: "i < length ms \<Longrightarrow> ?m ! i = (if ms ! i = IpMaskWhite then IpMaskGrey else IpMaskBlack)" for i
      using miss by auto
    have "traverse (pass_any any ips) (enumerate 0 ?m) =
        Inr (map (\<lambda>i. if ?m ! i \<noteq> IpMaskBlack \<and> any (ips ! i) then IpMaskWhite else IpMaskBlack) [0..<length ?m])"
      using len by (intro traverse_enumerate pass_any_at) auto
    moreover have "\<not> 0 < sum_list (map snd (map ?f [0..<length ms]))"
      using pos miss by blast
    ultimately have "two_passes known match any ips ms =
        Inr (map (\<lambda>i. if ?m ! i \<noteq> IpMaskBlack \<and> any (ips ! i) then IpMaskWhite else IpMaskBlack) [0..<length ?m])"
      by (simp only: two_passes_def True if_True marked sum.case if_False)
    with True miss m show ?thesis
      by (auto simp: kept_def mask_codes simp del: map_map)
  qed
next
  case False
  have "traverse (pass_any any ips) (enumerate 0 ms) =
      Inr (map (\<lambda>i. if ms ! i \<noteq> IpMaskBlack \<and> any (ips ! i) then IpMaskWhite else IpMaskBlack) [0..<length ms])"
    using len by (intro traverse_enumerate pass_any_at) auto
  with False show ?thesis
    by (auto simp: two_passes_def kept_def mask_codes comp_def)
qed

text \<open>
  Country filtering.  When the database knows the source's country and some white
  address lists it, exactly those addresses stay white; otherwise exactly the addresses
  for any country (an empty list, or one with the empty country) do.  The mask keeps its
  length and no index is out of range.
\<close>

lemma same_country_keeps:
  assumes "GetCountry g src = Inr c" and "length ms \<le> length ips"
  shows "\<exists>ms'. GetSameCountry g src ips ms = Inr (ms', None) \<and> length ms' = length ms \<and>
    (\<forall>i < length ms. ms' ! i = IpMaskWhite \<longleftrightarrow>
       (if c \<noteq> [] \<and> (\<exists>j < length ms. ms ! j = IpMaskWhite \<and> c \<in> set (ip_Country (ips ! j)))
        then ms ! i = IpMaskWhite \<and> c \<in> set (ip_Country (ips ! i))
        else ms ! i \<noteq> IpMaskBlack \<and> (c \<noteq> [] \<longrightarrow> ms ! i = IpMaskWhite) \<and>
             (ip_Country (ips ! i) = [] \<or> [] \<in> set (ip_Country (ips ! i)))))"
  using two_passes_kept [OF assms(2), of "c \<noteq> []" "\<lambda>r. c \<in> set (ip_Country r)"
      "\<lambda>r. ip_Country r = [] \<or> [] \<in> set (ip_Country r)"] assms(1)
  by (auto simp: GetSameCountry_def kept_def match_at_def)

definition sample_geo :: GeoIp where
  "sample_geo = \<lparr>geo_enable = True,
     geo_countryDB = Some \<lparr>cr_country = (\<lambda>_. Inr ''DE''), cr_location = (\<lambda>_. Inr (0, 0))\<rparr>,
     geo_asnDB = Some (\<lambda>_. Inr 64500)\<rparr>"

definition sample_ip :: "string list \<Rightarrow> uint64 list \<Rightarrow> IP_RR" where
  "sample_ip cs as = \<lparr>ip_Weight = 1, ip_Ip = Some [192, 0, 2, 1], ip_Country = cs, ip_ASN = as\<rparr>"

text \<open>
  Autonomous-system filtering follows the same rule with AS numbers, 0 standing for
  any network and for an unknown source.
\<close>

lemma same_asn_keeps:
  assumes "GetASN g src = Inr a" and "length ms \<le> length ips"
  shows "\<exists>ms'. GetSameASN g src ips ms = Inr (ms', None) \<and> length ms' = length ms \<and>
    (\<forall>i < length ms. ms' ! i = IpMaskWhite \<longleftrightarrow>
       (if a \<noteq> 0 \<and> (\<exists>j < length ms. ms ! j = IpMaskWhite \<and> a \<in> set (ip_ASN (ips ! j)))
        then ms ! i = IpMaskWhite \<and> a \<in> set (ip_ASN (ips ! i))
        else ms ! i \<noteq> IpMaskBlack \<and> (a \<noteq> 0 \<longrightarrow> ms ! i = IpMaskWhite) \<and>
             (ip_ASN (ips ! i) = [] \<or> 0 \<in> set (ip_ASN (ips ! i)))))"
  using two_passes_kept [OF assms(2), of "a \<noteq> 0" "\<lambda>r. a \<in> set (ip_ASN r)"
      "\<lambda>r. ip_ASN r = [] \<or> 0 \<in> set (ip_ASN r)"] assms(1)
  by (auto simp: GetSameASN_def kept_def match_at_def)

section \<open>Distance filtering\<close>

definition distance_to :: "GeoIp \<Rightarrow> real \<times> real \<Rightarrow> IP_RR \<Rightarrow> real" where
  "distance_to g src r =
     (let dst = coordinates_or_zero (GetCoordinates g (ip_Ip r))
      in GetDistance (fst src) (snd src) (fst dst) (snd dst))"

lemma atan2_nonneg_le: "atan2_nonneg y x \<le> pi / 2"
  using arctan_ubound [of "y / x"] by (auto simp: atan2_nonneg_def)

lemma GetDistance_less: "GetDistance a b c d < 1000"
proof -
  have "GetDistance a b c d \<le> pi"
    by (simp add: GetDistance_def Let_def atan2_nonneg_le mult.commute [of 2]
        flip: le_divide_eq_numeral1)
  then show ?thesis using pi_less_4 by linarith
qed

lemma collect_distances_eq:
  assumes "\<And>i x. (i, x) \<in> set ixs \<Longrightarrow> i < length ips"
  shows "collect_distances g src ips ixs m ds =
    (let ws = map (\<lambda>(i, x). distance_to g src (ips ! i)) (filter (\<lambda>(i, x). x = IpMaskWhite) ixs)
     in Inr (foldl min m ws, ds @ ws))"
  using assms
proof (induction ixs arbitrary: m ds)
  case (Cons ix ixs)
  obtain i x where [simp]: "ix = (i, x)" by force
  have i: "i < length ips" using Cons.prems by auto
  have step: "(if distance_to g src r < m then distance_to g src r else m) = min m (distance_to g src r)" for r
    by auto
  show ?case
    using Cons.IH [of "min m (distance_to g src (ips ! i))" "ds @ [distance_to g src (ips ! i)]"]
      Cons.IH [of m ds] Cons.prems i
    by (auto simp: idx_def Let_def step [unfolded distance_to_def Let_def] distance_to_def)
qed simp

lemma foldl_min_Min: "foldl min m xs = Min (insert m (set xs))" for m :: "'a::linorder"
proof (induction xs arbitrary: m)
  case (Cons x xs)
  have "foldl min m (x # xs) = Min (insert (min m x) (set xs))" using Cons by simp
  also have "\<dots> = Min (insert m (insert x (set xs)))"
    by (cases "set xs = {}") (simp_all add: Min_insert2 min.assoc)
  finally show ?case by simp
qed simp

lemma collect_all_white:
  assumes "length ms \<le> length ips" and "\<forall>x \<in> set ms. x = IpMaskWhite"
  shows "collect_distances g src ips (enumerate 0 ms) 1000 [] =
    Inr (Min (insert 1000 (distance_to g src ` set (take (length ms) ips))),
         map (distance_to g src) (take (length ms) ips))"
proof -
  have "filter (\<lambda>(i, x). x = IpMaskWhite) (enumerate 0 ms) = enumerate 0 ms"
    using assms(2) by (intro filter_True) (auto simp: in_set_enumerate_eq)
  moreover have "map (\<lambda>(i, x). distance_to g src (ips ! i)) (enumerate 0 ms) =
      map (distance_to g src) (take (length ms) ips)"
    using assms(1) by (intro nth_equalityI) (auto simp: nth_enumerate_eq)
  ultimately show ?thesis
    using assms(1) by (subst collect_distances_eq)
      (auto simp: in_set_enumerate_eq Let_def foldl_min_Min)
qed

text \<open>
  Distance filtering.  On the all-white mask that the resolver passes it, exactly the
  addresses at the smallest distance from the source stay white.  The search starts from
  1000, which is larger than any distance (an angle of at most \<pi>), so an answer is left
  whenever there was an address.
\<close>

lemma minimum_distance_keeps:
  assumes "GetCoordinates g src = Inr c" and len: "length ms \<le> length ips"
    and white: "\<forall>x \<in> set ms. x = IpMaskWhite"
  shows "\<exists>ms'. GetMinimumDistance g src ips ms = Inr (ms', None) \<and> length ms' = length ms \<and>
    (\<forall>i < length ms. ms' ! i = IpMaskWhite \<longleftrightarrow>
       (\<forall>j < length ms. distance_to g c (ips ! i) \<le> distance_to g c (ips ! j)))"
proof (cases "ms = []")
  case True
  then show ?thesis using assms(1) by (simp add: GetMinimumDistance_def)
next
  case False
  let ?D = "distance_to g c ` set (take (length ms) ips)"
  have ne: "?D \<noteq> {}" "finite ?D" using False len by auto
  have D: "?D = (\<lambda>j. distance_to g c (ips ! j)) ` {..<length ms}"
    using len by (force simp: in_set_conv_nth)
  have "d < 1000" if "d \<in> ?D" for d
    using that by (auto simp: distance_to_def Let_def GetDistance_less)
  then have "Min ?D < 1000"
    using Min_in [OF ne(2,1)] by blast
  then have mn: "Min (insert 1000 ?D) = Min ?D" using ne by simp
  let ?f = "\<lambda>i. if distance_to g c (ips ! i) = Min ?D then (IpMaskWhite, 1::nat) else (IpMaskGrey, 0)"
  have marked: "traverse (mark_nearest (Min ?D) (map (distance_to g c) (take (length ms) ips)))
      (enumerate 0 ms) = Inr (map ?f [0..<length ms])"
    using len white by (intro traverse_enumerate) (auto simp: mark_nearest_def idx_def)
  have "\<exists>i < length ms. distance_to g c (ips ! i) = Min ?D"
    using Min_in [OF ne(2,1)] D by auto
  then have pos: "0 < sum_list (map snd (map ?f [0..<length ms]))"
    by (auto simp: sum_list_pos_iff)
  have "GetMinimumDistance g src ips ms = Inr (map fst (map ?f [0..<length ms]), None)"
    using assms(1) pos
    by (simp only: GetMinimumDistance_def sum.case collect_all_white [OF len white] prod.case mn marked if_True)
  moreover have "distance_to g c (ips ! i) = Min ?D \<longleftrightarrow>
      (\<forall>j < length ms. distance_to g c (ips ! i) \<le> distance_to g c (ips ! j))" if "i < length ms" for i
    using that ne D by (subst eq_commute, subst Min_eq_iff) auto
  ultimately show ?thesis
    by (auto simp: mask_codes)
qed

lemma traverse_Inl:
  assumes "x \<in> set xs" and "f x = Inl e" and "\<And>y e'. f y = Inl e' \<Longrightarrow> e' = e"
  shows "traverse f xs = Inl e"
  using assms(1)
proof (induction xs)
  case (Cons a xs)
  then show ?case using assms(2) assms(3) [of a] by (cases "f a") auto
qed simp

text \<open>
  With a mask that an earlier filter has already narrowed, distance filtering panics:
  it keeps one distance per white entry but reads them at the index in the mask.  A last
  entry that is white behind an entry that is not reads past the end.
\<close>

lemma minimum_distance_panics:
  assumes "GetCoordinates g src = Inr c" and len: "length ms \<le> length ips"
    and ms: "ms = ns @ [IpMaskWhite]" and "\<exists>x \<in> set ns. x \<noteq> IpMaskWhite"
  shows "GetMinimumDistance g src ips ms = Inl (Panic ''index out of range'')"
proof -
  let ?w = "filter (\<lambda>(i, x). x = IpMaskWhite) (enumerate 0 ms)"
  obtain mn ds where coll: "collect_distances g c ips (enumerate 0 ms) 1000 [] = Inr (mn, ds)"
    and lds: "length ds = length ?w"
    using len by (subst (asm) collect_distances_eq) (auto simp: in_set_enumerate_eq Let_def)
  have "length ?w = length (filter (\<lambda>x. x = IpMaskWhite) (map snd (enumerate 0 ms)))"
    by (simp only: filter_map length_map comp_def case_prod_unfold)
  also have "\<dots> \<le> length ns"
    using ms assms(4) length_filter_less [of _ ns "\<lambda>x. x = IpMaskWhite"] by fastforce
  finally have short: "length ds \<le> length ns" using lds by simp
  have "(length ns, IpMaskWhite) \<in> set (enumerate 0 ms)"
    using ms by (auto simp: in_set_enumerate_eq)
  moreover have "mark_nearest mn ds (length ns, IpMaskWhite) = Inl (Panic ''index out of range'')"
    using short by (simp add: mark_nearest_def idx_def)
  ultimately have "traverse (mark_nearest mn ds) (enumerate 0 ms) = Inl (Panic ''index out of range'')"
    by (rule traverse_Inl) (auto simp: mark_nearest_def idx_def split: if_splits)
  then show ?thesis
    using assms(1) coll by (simp add: GetMinimumDistance_def)
qed

end
