(* ===== verification/IpSelect.thy ===== *)
theory IpSelect
  imports Geo
begin

text \<open>
  Selecting and ordering the addresses of an answer: \<open>filter\<close>, \<open>orderIps\<close>,
  \<open>generateA\<close> and \<open>generateAAAA\<close> of \<open>src/internal/resolver/handler.go\<close>, and the
  generator of \<open>src/internal/resolver/rng.go\<close>.

  The clock is a parameter: \<open>ns\<close> is the nanosecond within the second, from which the
  generator draws.  Weights are Go \<open>int\<close>s; their sums wrap.
\<close>

section \<open>Operations\<close>

definition LehmerRandom :: "nat \<Rightarrow> int \<Rightarrow> int" where
  "LehmerRandom ns mx = int (ns * 48271 mod 2147483647) mod mx"

text \<open>The first loop of \<open>orderIps\<close>: how many entries are white, and their total weight.\<close>

fun white_totals :: "IP_RR list \<Rightarrow> (nat \<times> int) list \<Rightarrow> int \<times> int \<Rightarrow> go_error + (int \<times> int)" where
  "white_totals data [] acc = Inr acc"
| "white_totals data ((i, x) # rest) (cnt, tot) =
     (if x = IpMaskWhite
      then (case idx data i of
              Inl e \<Rightarrow> Inl e
            | Inr r \<Rightarrow> white_totals data rest (cnt + 1, wrap64 (tot + ip_Weight r)))
      else white_totals data rest (cnt, tot))"

text \<open>The three loops that choose the starting index; \<open>None\<close> is the initial -1.\<close>

fun pick_weighted :: "IP_RR list \<Rightarrow> (nat \<times> int) list \<Rightarrow> int \<Rightarrow> go_error + nat option" where
  "pick_weighted data [] s = Inr None"
| "pick_weighted data ((i, x) # rest) s =
     (if x = IpMaskWhite
      then (case idx data i of
              Inl e \<Rightarrow> Inl e
            | Inr r \<Rightarrow>
                let s = wrap64 (s - ip_Weight r)
                in if s < 0 then Inr (Some i) else pick_weighted data rest s)
      else pick_weighted data rest s)"

fun pick_rr :: "(nat \<times> int) list \<Rightarrow> int \<Rightarrow> nat option" where
  "pick_rr [] r = None"
| "pick_rr ((i, x) # rest) r =
     (if x = IpMaskWhite then (if r = 0 then Some i else pick_rr rest (r - 1))
      else pick_rr rest r)"

fun pick_first :: "(nat \<times> int) list \<Rightarrow> nat option" where
  "pick_first [] = None"
| "pick_first ((i, x) # rest) = (if x = IpMaskWhite then Some i else pick_first rest)"

text \<open>The two loops that collect the white addresses of an index range.\<close>

definition collect_white :: "IP_RR list \<Rightarrow> int list \<Rightarrow> nat list \<Rightarrow> go_error + IP list" where
  "collect_white data ms is =
     traverse (\<lambda>i. map_sum id ip_Ip (idx data i)) (filter (\<lambda>i. ms ! i = IpMaskWhite) is)"

definition choose_index :: "nat \<Rightarrow> IP_RRSet \<Rightarrow> int list \<Rightarrow> int \<Rightarrow> int \<Rightarrow> go_error + nat option" where
  "choose_index ns rrset ms cnt tot =
     (let order = fc_Order (ips_FilterConfig rrset)
      in if order = ''weighted'' \<and> 0 < tot
         then pick_weighted (ips_Data rrset) (enumerate 0 ms) (LehmerRandom ns tot)
         else if order = ''rr'' \<or> (order = ''weighted'' \<and> tot = 0)
         then Inr (pick_rr (enumerate 0 ms) (LehmerRandom ns cnt))
         else Inr (pick_first (enumerate 0 ms)))"

definition orderIps :: "nat \<Rightarrow> IP_RRSet \<Rightarrow> int list \<Rightarrow> go_error + IP list" where
  "orderIps ns rrset ms =
     (case white_totals (ips_Data rrset) (enumerate 0 ms) (0, 0) of
        Inl e \<Rightarrow> Inl e
      | Inr (cnt, tot) \<Rightarrow>
          if cnt = 0 then Inr []
          else (case choose_index ns rrset ms cnt tot of
                  Inl e \<Rightarrow> Inl e
                | Inr None \<Rightarrow> Inr []
                | Inr (Some index) \<Rightarrow>
                    if fc_Count (ips_FilterConfig rrset) = ''single''
                    then map_sum id (\<lambda>r. [ip_Ip r]) (idx (ips_Data rrset) index)
                    else (case collect_white (ips_Data rrset) ms [index..<length ms] of
                            Inl e \<Rightarrow> Inl e
                          | Inr front \<Rightarrow>
                              map_sum id (\<lambda>back. front @ back)
                                (collect_white (ips_Data rrset) ms [0..<index]))))"

text \<open>The method \<open>filter\<close> of the handler; \<open>g\<close> is its \<open>geoip\<close> field.\<close>

definition filterIps :: "GeoIp \<Rightarrow> nat \<Rightarrow> IP \<Rightarrow> IP_RRSet \<Rightarrow> go_error + IP list" where
  "filterIps g ns sourceIp rrset =
     (let ms = replicate (length (ips_Data rrset)) 0;
          geo = fc_GeoFilter (ips_FilterConfig rrset);
          filtered =
            (if geo = ''asn'' then GetSameASN g sourceIp (ips_Data rrset) ms
             else if geo = ''country'' then GetSameCountry g sourceIp (ips_Data rrset) ms
             else if geo = ''asn+country''
             then (case GetSameASN g sourceIp (ips_Data rrset) ms of
                     Inl e \<Rightarrow> Inl e
                   | Inr (ms1, _) \<Rightarrow> GetSameCountry g sourceIp (ips_Data rrset) ms1)
             else if geo = ''location'' then GetMinimumDistance g sourceIp (ips_Data rrset) ms
             else Inr (ms, None))
      in case filtered of Inl e \<Rightarrow> Inl e | Inr (ms2, _) \<Rightarrow> orderIps ns rrset ms2)"

definition generateA :: "string \<Rightarrow> uint32 \<Rightarrow> IP list \<Rightarrow> RR list" where
  "generateA name ttl ips =
     concat (map (\<lambda>ip. if ip = None then [] else [RR_A (inet_hdr name TypeA ttl) ip]) ips)"

definition generateAAAA :: "string \<Rightarrow> uint32 \<Rightarrow> IP list \<Rightarrow> RR list" where
  "generateAAAA name ttl ips =
     concat (map (\<lambda>ip. if ip = None then [] else [RR_AAAA (inet_hdr name TypeAAAA ttl) ip]) ips)"

section \<open>Ordering\<close>

definition whites :: "int list \<Rightarrow> nat list" where
  "whites ms = filter (\<lambda>i. ms ! i = IpMaskWhite) [0..<length ms]"

lemma whites_enumerate:
  "map fst (filter (\<lambda>(i, x). x = IpMaskWhite) (enumerate 0 ms)) = whites ms"
  by (simp add: enumerate_map_nth filter_map comp_def whites_def)

text \<open>Each loop over the mask only sees the white entries.\<close>

fun pick_plain :: "(nat \<Rightarrow> int) \<Rightarrow> nat list \<Rightarrow> int \<Rightarrow> nat option" where
  "pick_plain w [] s = None"
| "pick_plain w (i # is) s = (if s < w i then Some i else pick_plain w is (s - w i))"

abbreviation white_idx :: "(nat \<times> int) list \<Rightarrow> nat list" where
  "white_idx ixs \<equiv> map fst (filter (\<lambda>(i, x). x = IpMaskWhite) ixs)"

lemma white_totals_eq:
  assumes "\<forall>(i, x) \<in> set ixs. i < length data \<and> 0 \<le> ip_Weight (data ! i)"
    and "0 \<le> tot" and "tot + (\<Sum>i\<leftarrow>white_idx ixs. ip_Weight (data ! i)) < 2 ^ 63"
  shows "white_totals data ixs (cnt, tot) =
    Inr (cnt + int (length (white_idx ixs)), tot + (\<Sum>i\<leftarrow>white_idx ixs. ip_Weight (data ! i)))"
  using assms
proof (induction ixs arbitrary: cnt tot)
  case (Cons ix ixs)
  obtain i x where [simp]: "ix = (i, x)" by force
  have i: "i < length data" "0 \<le> ip_Weight (data ! i)" using Cons.prems(1) by auto
  have rest: "0 \<le> (\<Sum>i\<leftarrow>white_idx ixs. ip_Weight (data ! i))"
    using Cons.prems(1) by (intro sum_list_nonneg) auto
  show ?case
  proof (cases "x = IpMaskWhite")
    case True
    then have "wrap64 (tot + ip_Weight (data ! i)) = tot + ip_Weight (data ! i)"
      using Cons.prems(2,3) i rest by (intro wrap64_id) auto
    then show ?thesis
      using Cons.IH [of "tot + ip_Weight (data ! i)" "cnt + 1"] Cons.prems i True
      by (auto simp: idx_def add.assoc)
  next
    case False
    then show ?thesis using Cons.IH [of tot cnt] Cons.prems by auto
  qed
qed simp

lemma pick_weighted_eq:
  assumes "\<forall>(i, x) \<in> set ixs.
      i < length data \<and> 0 \<le> ip_Weight (data ! i) \<and> ip_Weight (data ! i) < 2 ^ 63"
    and "0 \<le> s" and "s < 2 ^ 63"
  shows "pick_weighted data ixs s = Inr (pick_plain (\<lambda>i. ip_Weight (data ! i)) (white_idx ixs) s)"
  using assms
proof (induction ixs arbitrary: s)
  case (Cons ix ixs)
  obtain i x where [simp]: "ix = (i, x)" by force
  have i: "i < length data" "0 \<le> ip_Weight (data ! i)" "ip_Weight (data ! i) < 2 ^ 63"
    using Cons.prems(1) by auto
  then have w: "wrap64 (s - ip_Weight (data ! i)) = s - ip_Weight (data ! i)"
    using Cons.prems(2,3) by (intro wrap64_id) auto
  show ?case
    using Cons.IH [of s] Cons.IH [of "s - ip_Weight (data ! i)"] Cons.prems i w
    by (auto simp: idx_def Let_def)
qed simp

lemma pick_rr_eq:
  "0 \<le> r \<Longrightarrow> pick_rr ixs r =
     (if nat r < length (white_idx ixs) then Some (white_idx ixs ! nat r) else None)"
proof (induction ixs arbitrary: r)
  case (Cons ix ixs)
  then show ?case by (cases ix; cases "nat r") (auto simp: nth_Cons' nat_diff_distrib)
qed simp

lemma pick_first_eq:
  "pick_first ixs = (case white_idx ixs of [] \<Rightarrow> None | i # _ \<Rightarrow> Some i)"
  by (induction ixs rule: pick_first.induct) auto

lemma pick_plain_total:
  assumes "0 \<le> s" and "s < (\<Sum>i\<leftarrow>is. w i)"
  shows "\<exists>i \<in> set is. pick_plain w is s = Some i"
  using assms
proof (induction "is" arbitrary: s)
  case (Cons a js)
  then show ?case using Cons.IH [of "s - w a"] by (cases "s < w a") auto
qed simp

lemma pick_plain_count:
  assumes "distinct is" and "\<And>i. i \<in> set is \<Longrightarrow> 0 \<le> w i" and "i \<in> set is"
  shows "card {s. 0 \<le> s \<and> s < (\<Sum>i\<leftarrow>is. w i) \<and> pick_plain w is s = Some i} = nat (w i)"
  using assms
proof (induction "is")
  case (Cons a js)
  let ?T = "\<Sum>i\<leftarrow>js. w i"
  have wa: "0 \<le> w a" using Cons.prems(2) by simp
  have T: "0 \<le> ?T" using Cons.prems(2) by (intro sum_list_nonneg) auto
  have none: "i = a \<Longrightarrow> pick_plain w js s \<noteq> Some a" for s
    using Cons.prems(1) by (induction js arbitrary: s) (auto split: if_splits)
  show ?case
  proof (cases "i = a")
    case True
    have "{s. 0 \<le> s \<and> s < (\<Sum>i\<leftarrow>a # js. w i) \<and> pick_plain w (a # js) s = Some i} = {0..<w a}"
      using True none T by auto
    then show ?thesis using True by simp
  next
    case False
    have "{s. 0 \<le> s \<and> s < (\<Sum>i\<leftarrow>a # js. w i) \<and> pick_plain w (a # js) s = Some i} =
        (+) (w a) ` {s. 0 \<le> s \<and> s < ?T \<and> pick_plain w js s = Some i}"
    proof (intro set_eqI iffI)
      fix s assume "s \<in> {s. 0 \<le> s \<and> s < (\<Sum>i\<leftarrow>a # js. w i) \<and> pick_plain w (a # js) s = Some i}"
      then show "s \<in> (+) (w a) ` {s. 0 \<le> s \<and> s < ?T \<and> pick_plain w js s = Some i}"
        using False by (intro image_eqI [of _ _ "s - w a"]) (auto split: if_splits)
    qed (use False wa in auto)
    then show ?thesis
      using Cons False by (simp add: card_image)
  qed
qed simp

definition sane_weights :: "IP_RR list \<Rightarrow> int list \<Rightarrow> bool" where
  "sane_weights data ms \<longleftrightarrow> length ms \<le> length data \<and>
     (\<forall>r \<in> set data. 0 \<le> ip_Weight r \<and> ip_Weight r < 2 ^ 63) \<and>
     (\<Sum>i\<leftarrow>whites ms. ip_Weight (data ! i)) < 2 ^ 63"

lemma LehmerRandom_range: "0 < mx \<Longrightarrow> 0 \<le> LehmerRandom ns mx \<and> LehmerRandom ns mx < mx"
  by (simp add: LehmerRandom_def)

lemma sane_enumerate:
  "sane_weights data ms \<Longrightarrow> \<forall>(i, x) \<in> set (enumerate 0 ms).
     i < length data \<and> 0 \<le> ip_Weight (data ! i) \<and> ip_Weight (data ! i) < 2 ^ 63"
  by (auto simp: sane_weights_def in_set_enumerate_eq)

lemma sane_totals:
  assumes "sane_weights data ms"
  shows "white_totals data (enumerate 0 ms) (0, 0) =
    Inr (int (length (whites ms)), \<Sum>i\<leftarrow>whites ms. ip_Weight (data ! i))"
proof -
  have "\<forall>(i, x) \<in> set (enumerate 0 ms). i < length data \<and> 0 \<le> ip_Weight (data ! i)"
    using sane_enumerate [OF assms] by blast
  then show ?thesis
    using white_totals_eq [of "enumerate 0 ms" data 0 0] assms
    by (simp add: whites_enumerate sane_weights_def)
qed

lemma sane_pick:
  assumes "sane_weights data ms" and "0 \<le> s" and "s < (\<Sum>i\<leftarrow>whites ms. ip_Weight (data ! i))"
  shows "pick_weighted data (enumerate 0 ms) s =
    Inr (pick_plain (\<lambda>i. ip_Weight (data ! i)) (whites ms) s)"
proof -
  have "s < 2 ^ 63" using assms unfolding sane_weights_def by linarith
  then show ?thesis
    using pick_weighted_eq [OF sane_enumerate [OF assms(1)] assms(2)] by (simp add: whites_enumerate)
qed

lemma choose_index_white:
  assumes "sane_weights (ips_Data rrset) ms" and "whites ms \<noteq> []"
  shows "\<exists>i \<in> set (whites ms). choose_index ns rrset ms (int (length (whites ms)))
    (\<Sum>i\<leftarrow>whites ms. ip_Weight (ips_Data rrset ! i)) = Inr (Some i)"
proof -
  let ?w = "\<lambda>i. ip_Weight (ips_Data rrset ! i)" and ?n = "int (length (whites ms))"
  have weighted: "\<exists>i \<in> set (whites ms). pick_weighted (ips_Data rrset) (enumerate 0 ms)
      (LehmerRandom ns (\<Sum>i\<leftarrow>whites ms. ?w i)) = Inr (Some i)" if "0 < (\<Sum>i\<leftarrow>whites ms. ?w i)"
    using sane_pick [OF assms(1)] LehmerRandom_range [OF that, of ns]
      pick_plain_total [of "LehmerRandom ns (\<Sum>i\<leftarrow>whites ms. ?w i)" ?w "whites ms"] by auto
  have "nat (LehmerRandom ns ?n) < length (whites ms)" "0 \<le> LehmerRandom ns ?n"
    using LehmerRandom_range [of ?n ns] assms(2) by auto
  then have rr: "\<exists>i \<in> set (whites ms). pick_rr (enumerate 0 ms) (LehmerRandom ns ?n) = Some i"
    by (auto simp: pick_rr_eq whites_enumerate)
  have "\<exists>i \<in> set (whites ms). pick_first (enumerate 0 ms) = Some i"
    using assms(2) by (auto simp: pick_first_eq whites_enumerate split: list.splits)
  with weighted rr show ?thesis by (auto simp: choose_index_def Let_def)
qed

lemma collect_white_eq:
  "(\<And>i. i \<in> set is \<Longrightarrow> i < length data) \<Longrightarrow>
   collect_white data ms is =
     Inr (map (\<lambda>i. ip_Ip (data ! i)) (filter (\<lambda>i. ms ! i = IpMaskWhite) is))"
  unfolding collect_white_def by (rule traverse_total) (auto simp: idx_def)

lemma whites_rotation:
  assumes "i \<in> set (whites ms)"
  shows "\<exists>k. filter (\<lambda>i. ms ! i = IpMaskWhite) [i..<length ms] @
             filter (\<lambda>i. ms ! i = IpMaskWhite) [0..<i] = rotate k (whites ms)"
    and "take 1 (filter (\<lambda>i. ms ! i = IpMaskWhite) [i..<length ms]) = [i]"
proof -
  have i: "i < length ms" "ms ! i = IpMaskWhite" using assms by (auto simp: whites_def)
  let ?f = "filter (\<lambda>i. ms ! i = IpMaskWhite)"
  have "whites ms = ?f [0..<i] @ ?f [i..<length ms]"
    using i upt_add_eq_append [of 0 i "length ms - i"] by (simp add: whites_def)
  then show "\<exists>k. ?f [i..<length ms] @ ?f [0..<i] = rotate k (whites ms)"
    using rotate_append [of "?f [0..<i]" "?f [i..<length ms]"] by (metis (no_types))
  show "take 1 (?f [i..<length ms]) = [i]" using i by (simp add: upt_conv_Cons)
qed

lemma order_ips_spec:
  assumes sane: "sane_weights (ips_Data rrset) ms"
  shows "\<exists>k. orderIps ns rrset ms =
    Inr (map (\<lambda>i. ip_Ip (ips_Data rrset ! i))
          (if fc_Count (ips_FilterConfig rrset) = ''single'' then take 1 (rotate k (whites ms))
           else rotate k (whites ms)))"
proof (cases "whites ms = []")
  case True
  then show ?thesis using sane_totals [OF sane] by (simp add: orderIps_def)
next
  case False
  let ?f = "filter (\<lambda>i. ms ! i = IpMaskWhite)"
  obtain i where i: "i \<in> set (whites ms)"
    and ch: "choose_index ns rrset ms (int (length (whites ms)))
      (\<Sum>i\<leftarrow>whites ms. ip_Weight (ips_Data rrset ! i)) = Inr (Some i)"
    using choose_index_white [OF sane False] by blast
  obtain k where k: "?f [i..<length ms] @ ?f [0..<i] = rotate k (whites ms)"
    using whites_rotation(1) [OF i] by blast
  have le: "length ms \<le> length (ips_Data rrset)" "i < length ms"
    using sane i by (auto simp: sane_weights_def whites_def)
  have "take 1 (rotate k (whites ms)) = [i]"
    using whites_rotation(2) [OF i] k [symmetric] by (cases "?f [i..<length ms]") auto
  moreover have "collect_white (ips_Data rrset) ms [i..<length ms] =
      Inr (map (\<lambda>i. ip_Ip (ips_Data rrset ! i)) (?f [i..<length ms]))"
    "collect_white (ips_Data rrset) ms [0..<i] = Inr (map (\<lambda>i. ip_Ip (ips_Data rrset ! i)) (?f [0..<i]))"
    using le by (auto intro!: collect_white_eq)
  then have "orderIps ns rrset ms =
    Inr (map (\<lambda>i. ip_Ip (ips_Data rrset ! i))
          (if fc_Count (ips_FilterConfig rrset) = ''single'' then [i]
           else ?f [i..<length ms] @ ?f [0..<i]))"
    using sane_totals [OF sane] False ch le
    by (simp add: orderIps_def idx_def)
  ultimately show ?thesis using k by (intro exI [of _ k]) simp
qed

text \<open>
  Ordering.  The addresses of an answer are the white ones, each exactly once, in the
  order of the record set started at some position and wrapped around; with the count
  ``single'' only the first of that sequence is sent.  No index is out of range.
\<close>

lemma order_ips_rotation:
  assumes sane: "sane_weights (ips_Data rrset) ms"
  shows "\<exists>k. orderIps ns rrset ms =
    Inr (map (\<lambda>i. ip_Ip (ips_Data rrset ! i))
          (if fc_Count (ips_FilterConfig rrset) = ''single'' then take 1 (rotate k (whites ms))
           else rotate k (whites ms)))"
  using sane by (rule order_ips_spec)

definition sample_set :: IP_RRSet where
  "sample_set = zero_IP\<lparr>ips_FilterConfig := \<lparr>fc_Count = ''multi'', fc_Order = ''weighted'', fc_GeoFilter = []\<rparr>,
     ips_Data := [\<lparr>ip_Weight = 1, ip_Ip = Some [1], ip_Country = [], ip_ASN = []\<rparr>,
                  \<lparr>ip_Weight = 3, ip_Ip = Some [2], ip_Country = [], ip_ASN = []\<rparr>]\<rparr>"

lemma whites_sample: "whites [0, 0] = [0, 1]"
  by (simp add: whites_def IpMaskWhite_def upt_rec)

lemma sane_sample: "sane_weights (ips_Data sample_set) [0, 0]"
  by (simp add: sane_weights_def sample_set_def whites_sample)

text \<open>
  Weighted choice.  Of the draws from 0 to the total weight, exactly as many start the
  answer at a white address as the address has weight; an address of weight 0 is never first.
\<close>

lemma weighted_choice_fair:
  assumes "sane_weights data ms" and "i \<in> set (whites ms)"
  shows "card {s. 0 \<le> s \<and> s < (\<Sum>j\<leftarrow>whites ms. ip_Weight (data ! j)) \<and>
                pick_weighted data (enumerate 0 ms) s = Inr (Some i)} = nat (ip_Weight (data ! i))"
proof -
  let ?w = "\<lambda>i. ip_Weight (data ! i)"
  have "{s. 0 \<le> s \<and> s < (\<Sum>j\<leftarrow>whites ms. ?w j) \<and> pick_weighted data (enumerate 0 ms) s = Inr (Some i)} =
      {s. 0 \<le> s \<and> s < (\<Sum>j\<leftarrow>whites ms. ?w j) \<and> pick_plain ?w (whites ms) s = Some i}"
    using sane_pick [OF assms(1)] by auto
  moreover have "distinct (whites ms)" by (simp add: whites_def)
  moreover have "0 \<le> ?w j" if "j \<in> set (whites ms)" for j
    using that assms(1) by (auto simp: sane_weights_def whites_def)
  ultimately show ?thesis
    using assms(2) pick_plain_count [of "whites ms" ?w i] by simp
qed

lemma two_passes_total:
  "length ms \<le> length ips \<Longrightarrow>
   \<exists>ms'. two_passes known match any ips ms = Inr ms' \<and> length ms' = length ms"
  using two_passes_kept [of ms ips known match any] by blast

lemma same_asn_total:
  assumes "length ms \<le> length ips"
  shows "\<exists>ms' e. GetSameASN g src ips ms = Inr (ms', e) \<and> length ms' = length ms"
proof (cases "GetASN g src")
  case (Inr a)
  show ?thesis
    using Inr two_passes_total [OF assms, of "a \<noteq> 0" "\<lambda>r. a \<in> set (ip_ASN r)"
        "\<lambda>r. ip_ASN r = [] \<or> 0 \<in> set (ip_ASN r)"]
    by (auto simp: GetSameASN_def)
qed (simp add: GetSameASN_def)

lemma same_country_total:
  assumes "length ms \<le> length ips"
  shows "\<exists>ms' e. GetSameCountry g src ips ms = Inr (ms', e) \<and> length ms' = length ms"
proof (cases "GetCountry g src")
  case (Inr a)
  show ?thesis
    using Inr two_passes_total [OF assms, of "a \<noteq> []" "\<lambda>r. a \<in> set (ip_Country r)"
        "\<lambda>r. ip_Country r = [] \<or> [] \<in> set (ip_Country r)"]
    by (auto simp: GetSameCountry_def)
qed (simp add: GetSameCountry_def)

lemma minimum_distance_total:
  "\<exists>ms' e. GetMinimumDistance g src ips (replicate (length ips) 0) = Inr (ms', e) \<and>
     length ms' = length ips"
proof (cases "GetCoordinates g src")
  case (Inr c)
  show ?thesis
  proof (cases "ips = []")
    case True
    then show ?thesis using Inr by (simp add: GetMinimumDistance_def)
  next
    case False
    have white: "\<forall>x \<in> set (replicate (length ips) 0). x = IpMaskWhite" by (simp add: IpMaskWhite_def)
    obtain mn where mn: "collect_distances g c ips (enumerate 0 (replicate (length ips) 0)) 1000 [] =
        Inr (mn, map (distance_to g c) ips)"
      using collect_all_white [of "replicate (length ips) 0" ips g c] white by simp
    have "\<exists>marked. traverse (mark_nearest mn (map (distance_to g c) ips))
        (enumerate 0 (replicate (length ips) 0)) = Inr marked \<and> length marked = length ips"
      by (subst traverse_enumerate [where g = "\<lambda>i. if distance_to g c (ips ! i) = mn then (0, 1) else (IpMaskGrey, 0)"])
        (auto simp: mark_nearest_def idx_def IpMaskWhite_def)
    then show ?thesis using Inr mn by (auto simp: GetMinimumDistance_def)
  qed
qed (simp add: GetMinimumDistance_def)

definition total_weight :: "IP_RR list \<Rightarrow> int" where
  "total_weight data = (\<Sum>r\<leftarrow>data. ip_Weight r)"

lemma sane_weights_total:
  assumes "\<forall>r \<in> set data. 0 \<le> ip_Weight r" and "total_weight data < 2 ^ 63"
    and "length ms = length data"
  shows "sane_weights data ms"
proof -
  let ?w = "\<lambda>i. ip_Weight (data ! i)"
  have tot: "total_weight data = (\<Sum>i\<in>{..<length data}. ?w i)"
    by (simp add: total_weight_def sum_list_sum_nth atLeast0LessThan)
  have "(\<Sum>i\<leftarrow>whites ms. ?w i) = (\<Sum>i\<in>set (whites ms). ?w i)"
    by (simp add: whites_def sum_list_distinct_conv_sum_set)
  also have "\<dots> \<le> total_weight data"
    unfolding tot using assms by (intro sum_mono2) (auto simp: whites_def)
  finally have "(\<Sum>i\<leftarrow>whites ms. ?w i) < 2 ^ 63" using assms(2) by linarith
  moreover have "ip_Weight r < 2 ^ 63" if "r \<in> set data" for r
  proof -
    have "ip_Weight r \<le> total_weight data"
      unfolding total_weight_def using that assms(1)
      by (intro member_le_sum_list) auto
    then show ?thesis using assms(2) by linarith
  qed
  ultimately show ?thesis using assms by (simp add: sane_weights_def)
qed

lemma filter_ips_result:
  assumes "\<forall>r \<in> set (ips_Data rrset). 0 \<le> ip_Weight r"
    and "total_weight (ips_Data rrset) < 2 ^ 63"
  shows "\<exists>ms k. length ms = length (ips_Data rrset) \<and>
    (fc_GeoFilter (ips_FilterConfig rrset) = [] \<longrightarrow> whites ms = [0..<length ms]) \<and>
    filterIps g ns src rrset =
      Inr (map (\<lambda>i. ip_Ip (ips_Data rrset ! i))
            (if fc_Count (ips_FilterConfig rrset) = ''single'' then take 1 (rotate k (whites ms))
             else rotate k (whites ms)))"
proof -
  let ?d = "ips_Data rrset" and ?c = "ips_FilterConfig rrset"
  let ?ms = "replicate (length ?d) 0"
  have all: "whites ?ms = [0..<length ?d]"
    by (simp add: whites_def IpMaskWhite_def)
  obtain ms e where len: "length ms = length ?d"
    and geo: "filterIps g ns src rrset = orderIps ns rrset ms"
    and none: "fc_GeoFilter ?c = [] \<longrightarrow> ms = ?ms"
  proof -
    obtain a ea where a: "GetSameASN g src ?d ?ms = Inr (a, ea)" "length a = length ?d"
      using same_asn_total [of ?ms ?d g src] by auto
    obtain c ec where c: "GetSameCountry g src ?d ?ms = Inr (c, ec)" "length c = length ?d"
      using same_country_total [of ?ms ?d g src] by auto
    obtain ac eac where ac: "GetSameCountry g src ?d a = Inr (ac, eac)" "length ac = length ?d"
      using same_country_total [of a ?d g src] a(2) by auto
    obtain m em where m: "GetMinimumDistance g src ?d ?ms = Inr (m, em)" "length m = length ?d"
      using minimum_distance_total by blast
    show thesis
      by (rule that [of "if fc_GeoFilter ?c = ''asn'' then a else if fc_GeoFilter ?c = ''country'' then c
            else if fc_GeoFilter ?c = ''asn+country'' then ac else if fc_GeoFilter ?c = ''location'' then m
            else ?ms"])
        (simp_all add: filterIps_def Let_def a c ac m)
  qed
  obtain k where "orderIps ns rrset ms =
    Inr (map (\<lambda>i. ip_Ip (?d ! i)) (if fc_Count ?c = ''single'' then take 1 (rotate k (whites ms))
           else rotate k (whites ms)))"
    using order_ips_spec [OF sane_weights_total [OF assms len], of ns] by blast
  with len geo none all show ?thesis by (intro exI [of _ ms] exI [of _ k]) auto
qed

text \<open>
  C38: selecting the addresses of an answer.  For every filter configuration and source the
  selection ends without a panic; it sends each address of the record set at most once, in a
  rotation of the order of the set, and without geographic filtering it sends all of them.
\<close>

theorem filter_ips_selects:
  assumes "\<forall>r \<in> set (ips_Data rrset). 0 \<le> ip_Weight r"
    and "total_weight (ips_Data rrset) < 2 ^ 63"
  shows "\<exists>ms k. length ms = length (ips_Data rrset) \<and>
    (fc_GeoFilter (ips_FilterConfig rrset) = [] \<longrightarrow> whites ms = [0..<length ms]) \<and>
    filterIps g ns src rrset =
      Inr (map (\<lambda>i. ip_Ip (ips_Data rrset ! i))
            (if fc_Count (ips_FilterConfig rrset) = ''single'' then take 1 (rotate k (whites ms))
             else rotate k (whites ms)))"
  using assms by (rule filter_ips_result)

theorem filter_ips_selects_witness:
  "\<exists>ms k. length ms = 2 \<and> whites ms = [0..<length ms] \<and>
     filterIps sample_geo 7 None sample_set =
       Inr (map (\<lambda>i. ip_Ip (ips_Data sample_set ! i)) (rotate k (whites ms)))"
  using filter_ips_selects [of sample_set sample_geo 7 None]
  by (simp add: sample_set_def total_weight_def numeral_2_eq_2)

end
