(* ===== verification/Zones.thy ===== *)
theory Zones
  imports DnsTypes
begin

text \<open>
  Zones and location lookup: \<open>src/internal/types/zone.go\<close>.

  The radix tree of \<open>github.com/hashicorp/go-immutable-radix\<close> is a parameter: a record
  of its four operations, with the laws of the package's documentation as the locale
  \<open>radix_tree\<close>.  \<open>FindLocation\<close> is shown to compute the closest-encloser and wildcard
  rules on the list of locations, whatever tree implements the laws.
\<close>

section \<open>The radix tree interface\<close>

text \<open>Keys are byte strings; a value is nil or a string.\<close>

record 't radix =
  r_New :: 't
  r_Insert :: "'t \<Rightarrow> string \<Rightarrow> string option \<Rightarrow> 't"
  r_Get :: "'t \<Rightarrow> string \<Rightarrow> string option option"
  r_LongestPrefix :: "'t \<Rightarrow> string \<Rightarrow> (string \<times> string option) option"

locale radix_tree =
  fixes R :: "'t radix"
  assumes get_new: "r_Get R (r_New R) k = None"
    and get_insert: "r_Get R (r_Insert R t k v) k' = (if k' = k then Some v else r_Get R t k')"
    and longest_none: "r_LongestPrefix R t q = None \<longleftrightarrow> (\<forall>k. prefix k q \<longrightarrow> r_Get R t k = None)"
    and longest_some: "r_LongestPrefix R t q = Some (k, v) \<Longrightarrow>
          prefix k q \<and> r_Get R t k = Some v \<and>
          (\<forall>k'. prefix k' q \<and> r_Get R t k' \<noteq> None \<longrightarrow> length k' \<le> length k)"

text \<open>An instance of the interface: an association list, newest entry first.\<close>

type_synonym alist_tree = "(string \<times> string option) list"

fun alist_longest :: "alist_tree \<Rightarrow> string \<Rightarrow> nat \<Rightarrow> (string \<times> string option) option" where
  "alist_longest t q n =
     (case map_of t (take n q) of
        Some v \<Rightarrow> Some (take n q, v)
      | None \<Rightarrow> (case n of 0 \<Rightarrow> None | Suc m \<Rightarrow> alist_longest t q m))"

declare alist_longest.simps [simp del]

definition alist_radix :: "alist_tree radix" where
  "alist_radix =
     \<lparr>r_New = [], r_Insert = (\<lambda>t k v. (k, v) # t), r_Get = map_of,
      r_LongestPrefix = (\<lambda>t q. alist_longest t q (length q))\<rparr>"

lemma prefix_take: "prefix k q \<longleftrightarrow> (\<exists>n \<le> length q. k = take n q)"
proof
  assume "prefix k q"
  then show "\<exists>n \<le> length q. k = take n q"
    by (intro exI [of _ "length k"]) (auto simp: prefix_def)
qed (auto simp: take_is_prefix)

lemma alist_longest_None:
  "alist_longest t q n = None \<longleftrightarrow> (\<forall>m \<le> n. map_of t (take m q) = None)"
proof (induction n)
  case (Suc n)
  then show ?case
    by (auto simp: alist_longest.simps [of t q "Suc n"] le_Suc_eq split: option.splits)
qed (auto simp: alist_longest.simps [of t q 0] split: option.splits)

lemma alist_longest_Some:
  "alist_longest t q n = Some (k, v) \<Longrightarrow>
   \<exists>m \<le> n. k = take m q \<and> map_of t k = Some v \<and>
     (\<forall>j. m < j \<and> j \<le> n \<longrightarrow> map_of t (take j q) = None)"
proof (induction n)
  case 0
  then show ?case
    by (subst (asm) alist_longest.simps) (auto split: option.splits)
next
  case (Suc n)
  show ?case
  proof (cases "map_of t (take (Suc n) q)")
    case None
    then have "alist_longest t q n = Some (k, v)"
      using Suc.prems by (subst (asm) alist_longest.simps) simp
    from Suc.IH [OF this] None show ?thesis
      by (force simp: le_Suc_eq)
  next
    case (Some w)
    then show ?thesis
      using Suc.prems by (subst (asm) alist_longest.simps) auto
  qed
qed

lemma alist_longest_prefix:
  assumes "alist_longest t q (length q) = Some (k, v)"
  shows "prefix k q \<and> map_of t k = Some v \<and>
     (\<forall>k'. prefix k' q \<and> map_of t k' \<noteq> None \<longrightarrow> length k' \<le> length k)"
proof -
  obtain m where m: "m \<le> length q" "k = take m q" "map_of t k = Some v"
      "\<And>j. m < j \<and> j \<le> length q \<Longrightarrow> map_of t (take j q) = None"
    using alist_longest_Some [OF assms] by blast
  have "length k' \<le> m" if k': "prefix k' q" "map_of t k' \<noteq> None" for k'
  proof -
    obtain n where n: "n \<le> length q" "k' = take n q"
      using k'(1) by (auto simp: prefix_take)
    with m(4) [of n] k'(2) show ?thesis by fastforce
  qed
  with m show ?thesis by (auto simp: take_is_prefix)
qed

interpretation alist: radix_tree alist_radix
proof unfold_locales
  fix t :: alist_tree and q k :: string and v
  show "r_LongestPrefix alist_radix t q = None \<longleftrightarrow>
      (\<forall>k. prefix k q \<longrightarrow> r_Get alist_radix t k = None)"
    by (auto simp: alist_radix_def alist_longest_None prefix_take)
  show "r_LongestPrefix alist_radix t q = Some (k, v) \<Longrightarrow>
      prefix k q \<and> r_Get alist_radix t k = Some v \<and>
      (\<forall>k'. prefix k' q \<and> r_Get alist_radix t k' \<noteq> None \<longrightarrow> length k' \<le> length k)"
    using alist_longest_prefix by (simp add: alist_radix_def)
qed (simp_all add: alist_radix_def)

section \<open>Data\<close>

record ZoneConfig =
  zc_DomainId :: string
  zc_SOA :: "SOA_RRSet option"
  zc_DnsSec :: bool
  zc_CnameFlattening :: bool

record ZoneKeys =
  KSKPrivate :: string
  KSKPublic :: string
  ZSKPrivate :: string
  ZSKPublic :: string
  ZoneKeys_DS :: string

record 't Zone =
  z_Name :: string
  z_Config :: ZoneConfig
  z_LocationsTree :: 't
  z_LocationsList :: "string list"
  z_ZSK :: "ZoneKey option"
  z_KSK :: "ZoneKey option"
  z_DnsKeySig :: "RR option"
  z_CacheTimeout :: int

section \<open>Operations\<close>

text \<open>
  \<open>unmarshal\<close> is \<open>jsoniter.Unmarshal\<close> into an existing \<open>ZoneConfig\<close>: the struct it
  leaves behind, which an error may have left partly written.  \<open>now\<close> is
  \<open>time.Now().Unix()\<close>.  A JSON null for \<open>soa\<close> leaves a nil pointer, and the
  assignment to \<open>config.SOA.Ns\<close> panics on it.
\<close>

definition default_config :: "int \<Rightarrow> string \<Rightarrow> ZoneConfig" where
  "default_config now zone =
     \<lparr>zc_DomainId = [],
      zc_SOA = Some \<lparr>TtlValue = 3600, soa_Ns = ''ns1.'' @ zone, soa_MBox = ''hostmaster.'' @ zone,
                     soa_Data = None, soa_Refresh = 86400, soa_Retry = 7200, soa_Expire = 3600,
                     soa_MinTtl = 300, soa_Serial = word_of_int now\<rparr>,
      zc_DnsSec = False, zc_CnameFlattening = False\<rparr>"

definition ZoneConfigFromJson ::
  "(string \<Rightarrow> string) \<Rightarrow> (string \<Rightarrow> ZoneConfig \<Rightarrow> ZoneConfig) \<Rightarrow> int \<Rightarrow> string \<Rightarrow> string \<Rightarrow>
   go_error + ZoneConfig" where
  "ZoneConfigFromJson fqdn unmarshal now zone configStr =
     (let config = default_config now zone;
          config = (if length configStr > 0 then unmarshal configStr config else config)
      in case zc_SOA config of
           None \<Rightarrow> Inl (Panic ''nil pointer dereference'')
         | Some soa \<Rightarrow>
             let soa = soa\<lparr>soa_Ns := fqdn (soa_Ns soa)\<rparr>;
                 soa = soa\<lparr>soa_Data :=
                   Some (RR_SOA (inet_hdr zone TypeSOA (Ttl soa)) (soa_Ns soa) (soa_MBox soa)
                     (soa_Serial soa) (soa_Refresh soa) (soa_Retry soa) (soa_Expire soa)
                     (soa_MinTtl soa))\<rparr>
             in Inr (config\<lparr>zc_SOA := Some soa\<rparr>))"

text \<open>On ASCII names a rune is a byte, so the reversal is that of the byte string.\<close>

definition ReverseName :: "string \<Rightarrow> string" where
  "ReverseName zone = rev (CHR ''.'' # zone)"

text \<open>The inner loop of \<open>NewZone\<close>: one nil entry per prefix that ends in a dot.\<close>

definition insert_nonterminals :: "'t radix \<Rightarrow> string \<Rightarrow> 't \<Rightarrow> 't" where
  "insert_nonterminals R rvalue t =
     fold (\<lambda>i t.
       if rvalue ! i = CHR ''.''
       then (case r_Get R t (take (Suc i) rvalue) of
               None \<Rightarrow> r_Insert R t (take (Suc i) rvalue) None
             | Some _ \<Rightarrow> t)
       else t) [0..<length rvalue] t"

definition locations_tree :: "'t radix \<Rightarrow> string list \<Rightarrow> 't" where
  "locations_tree R locations =
     (let rvalues = map ReverseName locations;
          t = fold (insert_nonterminals R) rvalues (r_New R)
      in fold (\<lambda>i t. r_Insert R t (rvalues ! i) (Some (locations ! i))) [0..<length rvalues] t)"

definition NewZone ::
  "'t radix \<Rightarrow> (string \<Rightarrow> string) \<Rightarrow> (string \<Rightarrow> ZoneConfig \<Rightarrow> ZoneConfig) \<Rightarrow> int \<Rightarrow>
   string \<Rightarrow> string list \<Rightarrow> string \<Rightarrow> go_error + 't Zone" where
  "NewZone R fqdn unmarshal now zone locations configStr =
     (case ZoneConfigFromJson fqdn unmarshal now zone configStr of
        Inl e \<Rightarrow> Inl e
      | Inr config \<Rightarrow>
          Inr \<lparr>z_Name = zone, z_Config = config, z_LocationsTree = locations_tree R locations,
               z_LocationsList = locations, z_ZSK = None, z_KSK = None, z_DnsKeySig = None,
               z_CacheTimeout = 0\<rparr>)"

datatype Match = ExactMatch | WildCardMatch | EmptyNonterminalMatch | CEMatch | NoMatch

definition FindLocation :: "'t radix \<Rightarrow> 't Zone \<Rightarrow> string \<Rightarrow> string \<times> Match" where
  "FindLocation R z query =
     (if query = z_Name z then (''@'', ExactMatch)
      else let query = TrimSuffix query (''.'' @ z_Name z);
               rquery = ReverseName query
           in case r_LongestPrefix R (z_LocationsTree z) rquery of
                None \<Rightarrow>
                  (case r_Get R (z_LocationsTree z) ''*.'' of
                     Some (Some _) \<Rightarrow> (''*'', WildCardMatch)
                   | _ \<Rightarrow> ([], NoMatch))
              | Some (key, Some ce) \<Rightarrow>
                  if key = rquery then (query, ExactMatch)
                  else (case r_Get R (z_LocationsTree z) (key @ ''*.'') of
                          Some (Some value) \<Rightarrow> (value, WildCardMatch)
                        | _ \<Rightarrow> (ce, CEMatch))
              | Some (key, None) \<Rightarrow>
                  if key = rquery then ([], EmptyNonterminalMatch)
                  else (case r_Get R (z_LocationsTree z) (key @ ''*.'') of
                          Some (Some value) \<Rightarrow> (value, WildCardMatch)
                        | _ \<Rightarrow> ([], NoMatch)))"

section \<open>Names and their enclosers\<close>

text \<open>
  The reference semantics works on the list of locations alone.  \<open>enclosers q\<close> lists
  \<open>q\<close> and the names above it, longest first; a name is a node of the zone when it is a
  location or lies above one; the closest encloser of a name is its first encloser that
  is a node.
\<close>

definition parent :: "string \<Rightarrow> string" where
  "parent q = tl (dropWhile (\<lambda>c. c \<noteq> CHR ''.'') q)"

lemma length_parent: "CHR ''.'' \<in> set q \<Longrightarrow> length (parent q) < length q"
  by (induction q) (auto simp: parent_def less_Suc_eq)

function enclosers :: "string \<Rightarrow> string list" where
  "enclosers q = q # (if CHR ''.'' \<in> set q then enclosers (parent q) else [])"
  by pat_completeness auto
termination
  by (relation "measure length") (auto simp: length_parent)

declare enclosers.simps [simp del]

definition zone_node :: "string list \<Rightarrow> string \<Rightarrow> bool" where
  "zone_node locs a \<longleftrightarrow> list_ex (\<lambda>l. a \<in> set (enclosers l)) locs"

definition closest_encloser :: "string list \<Rightarrow> string \<Rightarrow> string option" where
  "closest_encloser locs q = find (zone_node locs) (enclosers q)"

definition find_location_spec :: "string list \<Rightarrow> string \<Rightarrow> string \<times> Match" where
  "find_location_spec locs q =
     (if q \<in> set locs then (q, ExactMatch)
      else if zone_node locs q then ([], EmptyNonterminalMatch)
      else case closest_encloser locs q of
             None \<Rightarrow> if ''*'' \<in> set locs then (''*'', WildCardMatch) else ([], NoMatch)
           | Some a \<Rightarrow>
               if ''*.'' @ a \<in> set locs then (''*.'' @ a, WildCardMatch)
               else if a \<in> set locs then (a, CEMatch)
               else ([], NoMatch))"

section \<open>The enclosers of a name\<close>

lemma parent_append:
  "CHR ''.'' \<notin> set p \<Longrightarrow> parent (p @ CHR ''.'' # a) = a"
  "CHR ''.'' \<in> set p \<Longrightarrow> parent (p @ b) = parent p @ b"
  by (induction p) (auto simp: parent_def)

lemma parent_split: "CHR ''.'' \<in> set q \<Longrightarrow> \<exists>p. q = p @ CHR ''.'' # parent q"
  using takeWhile_dropWhile_sep [of "CHR ''.''" q] by (auto simp: parent_def)

lemma mem_enclosers: "a \<in> set (enclosers q) \<longleftrightarrow> a = q \<or> (\<exists>p. q = p @ CHR ''.'' # a)"
proof (induction q rule: enclosers.induct)
  case (1 q)
  show ?case
  proof (cases "CHR ''.'' \<in> set q")
    case True
    have "a \<in> set (enclosers q) \<longleftrightarrow> a = q \<or> a = parent q \<or> (\<exists>p. parent q = p @ CHR ''.'' # a)"
      using 1 True by (subst enclosers.simps) auto
    also have "\<dots> \<longleftrightarrow> a = q \<or> (\<exists>p. q = p @ CHR ''.'' # a)" (is "_ \<longleftrightarrow> _ \<or> ?R")
    proof -
      obtain p0 where p0: "q = p0 @ CHR ''.'' # parent q"
        using parent_split [OF True] by blast
      have "a = parent q \<Longrightarrow> ?R"
        using p0 by blast
      moreover have "(\<exists>p. parent q = p @ CHR ''.'' # a) \<Longrightarrow> ?R"
        using p0 by (metis append.assoc append_Cons)
      moreover have "a = parent q \<or> (\<exists>p. parent q = p @ CHR ''.'' # a)" if "q = p @ CHR ''.'' # a" for p
        using that parent_append [of p] by (cases "CHR ''.'' \<in> set p") auto
      ultimately show ?thesis by blast
    qed
    finally show ?thesis .
  next
    case False
    then show ?thesis by (subst enclosers.simps) auto
  qed
qed

lemma enclosers_self [simp]: "q \<in> set (enclosers q)"
  by (simp add: mem_enclosers)

lemma enclosers_length: "a \<in> set (enclosers q) \<Longrightarrow> length a \<le> length q"
  by (auto simp: mem_enclosers)

lemma enclosers_drop: "a \<in> set (enclosers q) \<Longrightarrow> a = drop (length q - length a) q"
  by (auto simp: mem_enclosers)

lemma enclosers_same_length:
  "a \<in> set (enclosers q) \<Longrightarrow> b \<in> set (enclosers q) \<Longrightarrow> length a = length b \<Longrightarrow> a = b"
  by (metis enclosers_drop)

lemma enclosers_sorted: "sorted_wrt (\<lambda>a b. length b < length a) (enclosers q)"
proof (induction q rule: enclosers.induct)
  case (1 q)
  have "length b < length q" if "CHR ''.'' \<in> set q" "b \<in> set (enclosers (parent q))" for b
    using enclosers_length [OF that(2)] length_parent [OF that(1)] by simp
  with 1 show ?case by (subst enclosers.simps) simp
qed

lemma find_first_longest:
  assumes "sorted_wrt (\<lambda>a b. length b < length a) xs" and "find P xs = Some a" and "b \<in> set xs" and "P b"
  shows "length b \<le> length a"
  using assms by (induction xs) (auto split: if_splits)

lemma closest_encloser_Some:
  assumes "closest_encloser locs q = Some a"
  shows "a \<in> set (enclosers q) \<and> zone_node locs a \<and>
     (\<forall>b \<in> set (enclosers q). zone_node locs b \<longrightarrow> length b \<le> length a)"
proof -
  have f: "find (zone_node locs) (enclosers q) = Some a"
    using assms by (simp add: closest_encloser_def)
  show ?thesis
    using find_Some_in [OF f] find_first_longest [OF enclosers_sorted f] by auto
qed

lemma closest_encloser_None:
  "closest_encloser locs q = None \<longleftrightarrow> (\<forall>a \<in> set (enclosers q). \<not> zone_node locs a)"
  by (auto simp: closest_encloser_def find_None_iff)

lemma closest_encloser_unique:
  assumes "a \<in> set (enclosers q)" "zone_node locs a"
    and "\<And>b. b \<in> set (enclosers q) \<Longrightarrow> zone_node locs b \<Longrightarrow> length b \<le> length a"
  shows "closest_encloser locs q = Some a"
proof (cases "closest_encloser locs q")
  case None
  with assms show ?thesis by (simp add: closest_encloser_None)
next
  case (Some c)
  then have "c \<in> set (enclosers q)" "zone_node locs c" "length a \<le> length c"
    using closest_encloser_Some [OF Some] assms by auto
  then have "c = a"
    using assms by (intro enclosers_same_length [of c q a]) (auto intro: antisym)
  with Some show ?thesis by simp
qed

lemma location_is_node: "l \<in> set locs \<Longrightarrow> zone_node locs l"
  unfolding zone_node_def list_ex_iff by (blast intro: enclosers_self)

section \<open>Reversed names as keys\<close>

lemma ReverseName_eq: "ReverseName a = rev a @ ''.''"
  by (simp add: ReverseName_def)

lemma ReverseName_inject [simp]: "ReverseName a = ReverseName b \<longleftrightarrow> a = b"
  by (simp add: ReverseName_eq)

lemma ReverseName_length [simp]: "length (ReverseName a) = Suc (length a)"
  by (simp add: ReverseName_eq)

lemma prefix_ReverseName: "prefix (ReverseName a) (ReverseName q) \<longleftrightarrow> a \<in> set (enclosers q)"
proof -
  have "prefix (ReverseName a) (ReverseName q) \<longleftrightarrow> suffix (CHR ''.'' # a) (CHR ''.'' # q)"
    by (simp add: ReverseName_def suffix_to_prefix)
  also have "\<dots> \<longleftrightarrow> a = q \<or> (\<exists>p. q = p @ CHR ''.'' # a)"
    by (auto simp: suffix_def Cons_eq_append_conv)
  finally show ?thesis by (simp add: mem_enclosers)
qed

lemma dotted_prefix_ReverseName:
  "prefix k (ReverseName l) \<and> k \<noteq> [] \<and> last k = CHR ''.'' \<longleftrightarrow>
   (\<exists>a \<in> set (enclosers l). k = ReverseName a)"
proof
  assume k: "prefix k (ReverseName l) \<and> k \<noteq> [] \<and> last k = CHR ''.''"
  then have "k = ReverseName (rev (butlast k))"
    using append_butlast_last_id [of k] by (simp add: ReverseName_eq)
  with k show "\<exists>a \<in> set (enclosers l). k = ReverseName a"
    using prefix_ReverseName by metis
next
  assume "\<exists>a \<in> set (enclosers l). k = ReverseName a"
  then obtain a where a: "a \<in> set (enclosers l)" "k = ReverseName a" by blast
  then show "prefix k (ReverseName l) \<and> k \<noteq> [] \<and> last k = CHR ''.''"
    using prefix_ReverseName [of a l] by (simp only: a ReverseName_eq) simp
qed

lemma wildcard_key: "ReverseName a @ ''*.'' = ReverseName (''*.'' @ a)"
  by (simp add: ReverseName_eq)

section \<open>The tree that NewZone builds\<close>

context radix_tree
begin

lemma get_nonterminal_fold:
  "n \<le> length rv \<Longrightarrow>
   r_Get R (fold (\<lambda>i t.
       if rv ! i = CHR ''.''
       then (case r_Get R t (take (Suc i) rv) of
               None \<Rightarrow> r_Insert R t (take (Suc i) rv) None
             | Some _ \<Rightarrow> t)
       else t) [0..<n] t) k =
   (if r_Get R t k \<noteq> None then r_Get R t k
    else if \<exists>i < n. rv ! i = CHR ''.'' \<and> k = take (Suc i) rv then Some None else None)"
proof (induction n)
  case (Suc n)
  then have n: "n \<le> length rv" by simp
  note IH = Suc.IH [OF n]
  show ?case
    using IH by (auto simp: get_insert less_Suc_eq split: option.splits if_splits)
qed simp

lemma dotted_prefix_index:
  "(\<exists>i < length rv. rv ! i = CHR ''.'' \<and> k = take (Suc i) rv) \<longleftrightarrow>
   prefix k rv \<and> k \<noteq> [] \<and> last k = CHR ''.''"
proof
  assume "prefix k rv \<and> k \<noteq> [] \<and> last k = CHR ''.''"
  then obtain ks zs where "k = ks @ ''.''" "rv = (ks @ ''.'') @ zs"
    by (metis append_butlast_last_id prefixE)
  then show "\<exists>i < length rv. rv ! i = CHR ''.'' \<and> k = take (Suc i) rv"
    by (intro exI [of _ "length ks"]) simp
next
  assume "\<exists>i < length rv. rv ! i = CHR ''.'' \<and> k = take (Suc i) rv"
  then obtain i where "i < length rv" "rv ! i = CHR ''.''" "k = take (Suc i) rv" by blast
  moreover from this have "k = take i rv @ ''.''"
    by (simp add: take_Suc_conv_app_nth)
  ultimately show "prefix k rv \<and> k \<noteq> [] \<and> last k = CHR ''.''"
    by (metis append_is_Nil_conv last_snoc not_Cons_self2 take_is_prefix)
qed

lemma get_insert_nonterminals:
  "r_Get R (insert_nonterminals R rv t) k =
   (if r_Get R t k \<noteq> None then r_Get R t k
    else if prefix k rv \<and> k \<noteq> [] \<and> last k = CHR ''.'' then Some None else None)"
  using get_nonterminal_fold [of "length rv" rv t k]
  by (simp add: insert_nonterminals_def dotted_prefix_index)

lemma get_all_nonterminals:
  "r_Get R (fold (insert_nonterminals R) rvs t) k =
   (if r_Get R t k \<noteq> None then r_Get R t k
    else if \<exists>rv \<in> set rvs. prefix k rv \<and> k \<noteq> [] \<and> last k = CHR ''.'' then Some None else None)"
  by (induction rvs arbitrary: t) (auto simp: get_insert_nonterminals)

lemma get_all_inserts:
  "r_Get R (fold (\<lambda>l t. r_Insert R t (ReverseName l) (Some l)) ls t) k =
   (if \<exists>l \<in> set ls. k = ReverseName l then Some (Some (THE l. k = ReverseName l)) else r_Get R t k)"
  by (induction ls arbitrary: t) (auto simp: get_insert)

lemma locations_tree_fold:
  "locations_tree R locs =
   fold (\<lambda>l t. r_Insert R t (ReverseName l) (Some l)) locs
     (fold (insert_nonterminals R) (map ReverseName locs) (r_New R))"
proof -
  let ?ins = "\<lambda>l t. r_Insert R t (ReverseName l) (Some l)"
  have "fold (\<lambda>i t. r_Insert R t (map ReverseName locs ! i) (Some (locs ! i))) [0..<length locs] t =
        fold (\<lambda>i. ?ins (locs ! i)) [0..<length locs] t" for t
    by (rule fold_cong) auto
  also have "fold (\<lambda>i. ?ins (locs ! i)) [0..<length locs] t =
        fold ?ins (map ((!) locs) [0..<length locs]) t" for t
    by (simp add: fold_map comp_def)
  finally show ?thesis
    by (simp add: locations_tree_def Let_def map_nth)
qed

lemma get_nodes:
  "r_Get R (fold (insert_nonterminals R) (map ReverseName locs) (r_New R)) k =
   (if \<exists>a. zone_node locs a \<and> k = ReverseName a then Some None else None)"
proof -
  have "(\<exists>rv \<in> set (map ReverseName locs). prefix k rv \<and> k \<noteq> [] \<and> last k = CHR ''.'') \<longleftrightarrow>
        (\<exists>l \<in> set locs. prefix k (ReverseName l) \<and> k \<noteq> [] \<and> last k = CHR ''.'')"
    by simp
  also have "\<dots> \<longleftrightarrow> (\<exists>l \<in> set locs. \<exists>a \<in> set (enclosers l). k = ReverseName a)"
    unfolding dotted_prefix_ReverseName ..
  also have "\<dots> \<longleftrightarrow> (\<exists>a. zone_node locs a \<and> k = ReverseName a)"
    unfolding zone_node_def list_ex_iff by blast
  finally have "(\<exists>rv \<in> set (map ReverseName locs). prefix k rv \<and> k \<noteq> [] \<and> last k = CHR ''.'') \<longleftrightarrow>
        (\<exists>a. zone_node locs a \<and> k = ReverseName a)" .
  then show ?thesis
    by (simp only: get_all_nonterminals get_new) simp
qed

lemma get_locations_tree:
  "r_Get R (locations_tree R locs) (ReverseName a) =
   (if a \<in> set locs then Some (Some a) else if zone_node locs a then Some None else None)"
  by (auto simp: locations_tree_fold get_all_inserts get_nodes)

lemma locations_tree_keys:
  assumes "r_Get R (locations_tree R locs) k \<noteq> None"
  shows "\<exists>a. k = ReverseName a \<and> zone_node locs a"
  using assms location_is_node
  by (auto simp: locations_tree_fold get_all_inserts get_nodes split: if_splits)

lemma longest_prefix_ce:
  "r_LongestPrefix R (locations_tree R locs) (ReverseName q) =
   (case closest_encloser locs q of
      None \<Rightarrow> None
    | Some a \<Rightarrow> Some (ReverseName a, if a \<in> set locs then Some a else None))"
proof (cases "r_LongestPrefix R (locations_tree R locs) (ReverseName q)")
  case None
  then have "\<not> zone_node locs a" if "a \<in> set (enclosers q)" for a
    using that longest_none [of "locations_tree R locs" "ReverseName q"] prefix_ReverseName [of a q]
    by (metis get_locations_tree option.distinct(1))
  with None show ?thesis by (simp add: closest_encloser_None [THEN iffD2])
next
  case (Some kv)
  obtain k v where kv: "kv = (k, v)" by force
  note longest = longest_some [OF Some [unfolded kv]]
  obtain a where a: "k = ReverseName a" "zone_node locs a"
    using locations_tree_keys longest by (metis option.distinct(1))
  have "length b \<le> length a" if "b \<in> set (enclosers q)" "zone_node locs b" for b
    using longest that prefix_ReverseName [of b q] a
    by (metis Suc_le_mono ReverseName_length get_locations_tree option.distinct(1))
  then have "closest_encloser locs q = Some a"
    using longest a prefix_ReverseName by (intro closest_encloser_unique) auto
  moreover have "v = (if a \<in> set locs then Some a else None)"
    using longest a get_locations_tree [of locs a] by (auto split: if_splits)
  ultimately show ?thesis
    using Some kv a by simp
qed

lemma find_location_tree:
  assumes "z_LocationsTree z = locations_tree R locs"
  shows "FindLocation R z query =
    (if query = z_Name z then (''@'', ExactMatch)
     else find_location_spec locs (TrimSuffix query (''.'' @ z_Name z)))"
proof -
  define q where "q = TrimSuffix query (''.'' @ z_Name z)"
  have star: "r_Get R (locations_tree R locs) ''*.'' =
      (if ''*'' \<in> set locs then Some (Some ''*'') else if zone_node locs ''*'' then Some None else None)"
    using get_locations_tree [of locs "''*''"] by (simp add: ReverseName_eq)
  have "closest_encloser locs q = Some q" if "zone_node locs q"
    using that enclosers_length by (intro closest_encloser_unique) auto
  then show ?thesis
    unfolding FindLocation_def find_location_spec_def assms longest_prefix_ce q_def [symmetric] Let_def
    using location_is_node [of q locs] closest_encloser_Some [of locs q] star
    by (auto simp: wildcard_key get_locations_tree split: option.splits)
qed

end

text \<open>
  C8: location lookup implements the closest-encloser and wildcard rules.  For every zone
  that \<open>NewZone\<close> builds, \<open>FindLocation\<close> on a name below the zone returns exactly what
  the reference semantics computes from the list of locations: an existing location
  matches exactly, a name that only lies above locations is an empty non-terminal,
  otherwise the wildcard at the closest encloser is used, then the closest encloser
  itself, then nothing.  The zone's own name is the location \<open>@\<close>.
\<close>

theorem find_location_refines:
  assumes "radix_tree R" and "NewZone R fqdn unmarshal now zone locations configStr = Inr z"
  shows "FindLocation R z query =
    (if query = zone then (''@'', ExactMatch)
     else find_location_spec locations (TrimSuffix query (''.'' @ zone)))"
proof -
  have "z_Name z = zone" "z_LocationsTree z = locations_tree R locations"
    using assms(2) by (auto simp: NewZone_def split: sum.splits)
  with radix_tree.find_location_tree [OF assms(1), of z locations query] show ?thesis
    by simp
qed

theorem find_location_refines_witness:
  "\<exists>z. NewZone alist_radix append_dot (\<lambda>_ c. c) 0 ''z.'' [''@'', ''a.b'', ''*.d''] [] = Inr z \<and>
       FindLocation alist_radix z ''a.b.z.'' = (''a.b'', ExactMatch) \<and>
       FindLocation alist_radix z ''b.z.'' = ([], EmptyNonterminalMatch) \<and>
       FindLocation alist_radix z ''x.d.z.'' = (''*.d'', WildCardMatch) \<and>
       FindLocation alist_radix z ''x.a.b.z.'' = (''a.b'', CEMatch)"
proof -
  obtain z where z: "NewZone alist_radix append_dot (\<lambda>_ c. c) 0 ''z.'' [''@'', ''a.b'', ''*.d''] [] = Inr z"
    by (simp add: NewZone_def ZoneConfigFromJson_def default_config_def Let_def)
  note ref = find_location_refines [OF alist.radix_tree_axioms z]
  have "find_location_spec [''@'', ''a.b'', ''*.d''] ''a.b'' = (''a.b'', ExactMatch)"
       "find_location_spec [''@'', ''a.b'', ''*.d''] ''b'' = ([], EmptyNonterminalMatch)"
       "find_location_spec [''@'', ''a.b'', ''*.d''] ''x.d'' = (''*.d'', WildCardMatch)"
       "find_location_spec [''@'', ''a.b'', ''*.d''] ''x.a.b'' = (''a.b'', CEMatch)"
    by code_simp+
  then show ?thesis
    using z ref by (intro exI [of _ z]) (simp add: TrimSuffix_def HasSuffix_def)
qed

end
