(* ===== verification/Dnssec.thy ===== *)
theory Dnssec
  imports Zones
begin

text \<open>
  Online signing: \<open>src/internal/dnssec/dnssec.go\<close>.

  The cryptographic operations of the dns package are parameters (\<open>dns_crypto\<close>): the
  key tag, signing, key generation, the DS digest and the text forms.  Go leaves the
  iteration order of a map open, so \<open>SignResponse\<close> takes the order as a parameter
  \<open>ord\<close>, a function that reorders the entries of the map.
\<close>

section \<open>Bitmaps of NSEC records\<close>

definition NsecBitmapZone :: "uint16 list" where
  "NsecBitmapZone = [TypeA, TypeCNAME, TypePTR, TypeMX, TypeTXT, TypeAAAA, TypeSRV, TypeRRSIG,
     TypeNSEC, TypeTLSA, TypeCAA]"

definition NsecBitmapAppex :: "uint16 list" where
  "NsecBitmapAppex = [TypeA, TypeNS, TypeSOA, TypePTR, TypeMX, TypeTXT, TypeAAAA, TypeSRV,
     TypeRRSIG, TypeNSEC, TypeTLSA, TypeCAA]"

definition NsecBitmapSubDelegation :: "uint16 list" where
  "NsecBitmapSubDelegation = [TypeNS, TypeDS, TypeRRSIG, TypeNSEC]"

definition NsecBitmapNameError :: "uint16 list" where
  "NsecBitmapNameError = [TypeRRSIG, TypeNSEC]"

definition FilterNsecBitmap :: "uint16 \<Rightarrow> uint16 list \<Rightarrow> uint16 list" where
  "FilterNsecBitmap qtype bitmap = filter (\<lambda>t. t \<noteq> qtype) bitmap"

lemmas bitmap_defs =
  NsecBitmapZone_def NsecBitmapAppex_def NsecBitmapSubDelegation_def NsecBitmapNameError_def

section \<open>Signing\<close>

record dns_crypto =
  cr_KeyTag :: "DNSKEY \<Rightarrow> uint16"
  cr_Sign :: "PrivateKey \<Rightarrow> RRSIG \<Rightarrow> RR list \<Rightarrow> go_error + RRSIG"
  cr_Generate :: "DNSKEY \<Rightarrow> go_error + (PrivateKey \<times> DNSKEY)"
  cr_ToDS :: "DNSKEY \<Rightarrow> RR option"
  cr_PrivateKeyString :: "DNSKEY \<Rightarrow> PrivateKey \<Rightarrow> string"
  cr_String :: "RR \<Rightarrow> string"

definition rrsig_template :: "dns_crypto \<Rightarrow> string \<Rightarrow> ZoneKey \<Rightarrow> uint32 \<Rightarrow> RRSIG" where
  "rrsig_template K name key ttl =
     \<lparr>sig_Hdr = inet_hdr name TypeRRSIG ttl,
      sig_Inception = zk_KeyInception key,
      sig_Expiration = zk_KeyExpiration key,
      sig_KeyTag = cr_KeyTag K (zk_DnsKey key),
      sig_SignerName = hdr_Name (key_Hdr (zk_DnsKey key)),
      sig_Algorithm = key_Algorithm (zk_DnsKey key),
      sig_TypeCovered = 0,
      sig_Signature = []\<rparr>"

text \<open>
  The algorithm numbers of the dns package: RSAMD5 1, RSASHA1 5, RSASHA1NSEC3SHA1 7,
  RSASHA256 8, RSASHA512 10, ECDSAP256SHA256 13, ECDSAP384SHA384 14.  A nil result is
  the nil \<open>*dns.RRSIG\<close>, which an answer then carries as a record.
\<close>

definition rsa_algorithms :: "uint8 list" where "rsa_algorithms = [1, 5, 7, 8, 10]"
definition ecdsa_algorithms :: "uint8 list" where "ecdsa_algorithms = [13, 14]"

fun is_rsa :: "PrivateKey \<Rightarrow> bool" where
  "is_rsa (RSA_Key _) = True"
| "is_rsa _ = False"

fun is_ecdsa :: "PrivateKey \<Rightarrow> bool" where
  "is_ecdsa (ECDSA_Key _) = True"
| "is_ecdsa _ = False"

definition sign_or_nil :: "dns_crypto \<Rightarrow> bool \<Rightarrow> ZoneKey \<Rightarrow> RRSIG \<Rightarrow> RR list \<Rightarrow> go_error + RR" where
  "sign_or_nil K asserted key rrsig rrs =
     (if \<not> asserted then Inl (Panic ''interface conversion'')
      else case cr_Sign K (zk_PrivateKey key) rrsig rrs of
             Inl e \<Rightarrow> Inr RR_NilRRSIG
           | Inr s \<Rightarrow> Inr (RR_RRSIG s))"

definition SignRRSet :: "dns_crypto \<Rightarrow> RR list \<Rightarrow> string \<Rightarrow> ZoneKey option \<Rightarrow> uint32 \<Rightarrow> go_error + RR" where
  "SignRRSet K rrs name zkey ttl =
     (case zkey of
        None \<Rightarrow> Inl (Panic ''nil pointer dereference'')
      | Some key \<Rightarrow>
          let rrsig = rrsig_template K name key ttl in
          if sig_Algorithm rrsig \<in> set rsa_algorithms
          then sign_or_nil K (is_rsa (zk_PrivateKey key)) key rrsig rrs
          else if sig_Algorithm rrsig \<in> set ecdsa_algorithms
          then sign_or_nil K (is_ecdsa (zk_PrivateKey key)) key rrsig rrs
          else Inr RR_NilRRSIG)"

definition sign_set :: "dns_crypto \<Rightarrow> string \<Rightarrow> 't Zone \<Rightarrow> RR list \<Rightarrow> go_error + RR list" where
  "sign_set K qname z rs =
     (let h = Header (hd rs); t = hdr_Rrtype h in
      if t = TypeRRSIG \<or> t = TypeOPT then Inr rs
      else if t = TypeDNSKEY
      then Inr (rs @ [case z_DnsKeySig z of None \<Rightarrow> RR_Nil | Some s \<Rightarrow> s])
      else if t = TypeNS
      then (if qname = z_Name z
            then map_sum id (\<lambda>s. rs @ [s]) (SignRRSet K rs (hdr_Name h) (z_ZSK z) (hdr_Ttl h))
            else Inr rs)
      else map_sum id (\<lambda>s. rs @ [s]) (SignRRSet K rs (hdr_Name h) (z_ZSK z) (hdr_Ttl h)))"

definition SignResponse ::
  "dns_crypto \<Rightarrow> ((RRSetKey \<times> RR list) list \<Rightarrow> (RRSetKey \<times> RR list) list) \<Rightarrow>
   RR list \<Rightarrow> string \<Rightarrow> 't Zone \<Rightarrow> go_error + RR list" where
  "SignResponse K ord rrs qname z =
     map_sum id concat (traverse (sign_set K qname z) (map snd (ord (SplitSets rrs))))"

section \<open>Keys\<close>

definition new_dnskey :: "string \<Rightarrow> uint16 \<Rightarrow> DNSKEY" where
  "new_dnskey zoneName flags =
     \<lparr>key_Hdr = inet_hdr zoneName TypeDNSKEY 14400, key_Flags = flags, key_Protocol = 3,
      key_Algorithm = 13, key_PublicKey = []\<rparr>"

definition GenerateKeys :: "dns_crypto \<Rightarrow> string \<Rightarrow> go_error + ZoneKeys" where
  "GenerateKeys K zoneName =
     (case cr_Generate K (new_dnskey zoneName 256) of
        Inl e \<Rightarrow> Inl e
      | Inr (zskPrivateKey, zsk) \<Rightarrow>
          (case cr_Generate K (new_dnskey zoneName 257) of
             Inl e \<Rightarrow> Inl e
           | Inr (kskPrivateKey, ksk) \<Rightarrow>
               (case cr_ToDS K ksk of
                  None \<Rightarrow> Inl (Err ''cannot create DS record'')
                | Some ds \<Rightarrow>
                    Inr \<lparr>KSKPrivate = cr_PrivateKeyString K ksk kskPrivateKey,
                         KSKPublic = cr_String K (RR_DNSKEY ksk),
                         ZSKPrivate = cr_PrivateKeyString K zsk zskPrivateKey,
                         ZSKPublic = cr_String K (RR_DNSKEY zsk),
                         ZoneKeys_DS = cr_String K ds\<rparr>)))"

section \<open>Bitmaps deny the type asked for\<close>

lemma FilterNsecBitmap_denies: "qtype \<notin> set (FilterNsecBitmap qtype bitmap)"
  by (simp add: FilterNsecBitmap_def)

lemma FilterNsecBitmap_sorted:
  "sorted_wrt (<) bitmap \<Longrightarrow> sorted_wrt (<) (FilterNsecBitmap qtype bitmap)"
  by (simp add: FilterNsecBitmap_def sorted_wrt_filter)

lemma bitmaps_sorted:
  "bitmap \<in> {NsecBitmapZone, NsecBitmapAppex, NsecBitmapSubDelegation, NsecBitmapNameError} \<Longrightarrow>
   sorted_wrt (<) bitmap"
  by (auto simp: bitmap_defs type_codes)

section \<open>Signing an answer\<close>

text \<open>
  What is relied on of the key and of \<open>RRSIG.Sign\<close>: the private key is of the type of its
  algorithm, and signing a set that is not empty fills in an RRSIG record that covers
  the type of the set.
\<close>

definition usable_key :: "ZoneKey \<Rightarrow> bool" where
  "usable_key key \<longleftrightarrow>
     key_Algorithm (zk_DnsKey key) \<in> set rsa_algorithms \<and> is_rsa (zk_PrivateKey key) \<or>
     key_Algorithm (zk_DnsKey key) \<in> set ecdsa_algorithms \<and> is_ecdsa (zk_PrivateKey key)"

definition signs_with :: "dns_crypto \<Rightarrow> ZoneKey \<Rightarrow> bool" where
  "signs_with K key \<longleftrightarrow> usable_key key \<and>
     (\<forall>t rs. rs \<noteq> [] \<longrightarrow> (\<exists>s. cr_Sign K (zk_PrivateKey key) t rs = Inr s \<and>
        hdr_Rrtype (sig_Hdr s) = TypeRRSIG \<and> sig_TypeCovered s = hdr_Rrtype (Header (hd rs))))"

definition rrset_of :: "RR list \<Rightarrow> RR \<Rightarrow> RR list" where
  "rrset_of rrs r = filter (\<lambda>x. signable x \<and> rr_key x = rr_key r) rrs"

text \<open>\<open>s\<close> is a signature of the set \<open>rs\<close> by \<open>key\<close>, under the name and the TTL of the set.\<close>

definition signature_of :: "dns_crypto \<Rightarrow> ZoneKey \<Rightarrow> RR list \<Rightarrow> RRSIG \<Rightarrow> bool" where
  "signature_of K key rs s \<longleftrightarrow>
     cr_Sign K (zk_PrivateKey key)
       (rrsig_template K (hdr_Name (Header (hd rs))) key (hdr_Ttl (Header (hd rs)))) rs = Inr s"

lemma SignRRSet_signs:
  assumes "signs_with K key" and "rs \<noteq> []"
  shows "\<exists>s. SignRRSet K rs (hdr_Name (Header (hd rs))) (Some key) (hdr_Ttl (Header (hd rs))) =
      Inr (RR_RRSIG s) \<and> signature_of K key rs s \<and> hdr_Rrtype (sig_Hdr s) = TypeRRSIG"
proof -
  let ?t = "rrsig_template K (hdr_Name (Header (hd rs))) key (hdr_Ttl (Header (hd rs)))"
  obtain s where s: "cr_Sign K (zk_PrivateKey key) ?t rs = Inr s" "hdr_Rrtype (sig_Hdr s) = TypeRRSIG"
    using assms unfolding signs_with_def by blast
  have alg: "sig_Algorithm ?t = key_Algorithm (zk_DnsKey key)" by (simp add: rrsig_template_def)
  have disj: "set rsa_algorithms \<inter> set ecdsa_algorithms = {}"
    by (simp add: rsa_algorithms_def ecdsa_algorithms_def)
  have "SignRRSet K rs (hdr_Name (Header (hd rs))) (Some key) (hdr_Ttl (Header (hd rs))) = Inr (RR_RRSIG s)"
    using assms(1) disj s
    by (auto simp: SignRRSet_def Let_def alg sign_or_nil_def signs_with_def usable_key_def)
  then show ?thesis using s by (simp add: signature_of_def)
qed

text \<open>The kinds of set that get a fresh signature.\<close>

definition freshly_signed :: "string \<Rightarrow> 't Zone \<Rightarrow> RR \<Rightarrow> bool" where
  "freshly_signed qname z r \<longleftrightarrow> signable r \<and> hdr_Rrtype (Header r) \<noteq> TypeDNSKEY \<and>
     (hdr_Rrtype (Header r) = TypeNS \<longrightarrow> qname = z_Name z)"

lemma sign_set_eq:
  assumes "signs_with K key" "z_ZSK z = Some key" "z_DnsKeySig z = Some ksig" "rs \<noteq> []" "signable (hd rs)"
  shows "\<exists>sigs. sign_set K qname z rs = Inr (rs @ sigs) \<and>
    (if freshly_signed qname z (hd rs)
     then \<exists>s. sigs = [RR_RRSIG s] \<and> signature_of K key rs s \<and> hdr_Rrtype (sig_Hdr s) = TypeRRSIG
     else sigs = (if hdr_Rrtype (Header (hd rs)) = TypeDNSKEY then [ksig] else []))"
  using SignRRSet_signs [OF assms(1,4)] assms(2,3,5)
  by (auto simp: sign_set_def Let_def freshly_signed_def signable_def)

lemma SplitSets_sets:
  "(\<exists>x \<in> set (SplitSets rrs). rs = snd x) \<longleftrightarrow>
   (\<exists>r \<in> set rrs. signable r \<and> rs = filter (\<lambda>x. signable x \<and> rr_key x = rr_key r) rrs)"
proof
  assume "\<exists>x \<in> set (SplitSets rrs). rs = snd x"
  then obtain k where "(k, rs) \<in> set (SplitSets rrs)" by auto
  note rs = SplitSets_member [OF this]
  have "hd rs \<in> set (filter (\<lambda>r. signable r \<and> rr_key r = k) rrs)" using rs by (metis hd_in_set)
  with rs show "\<exists>r \<in> set rrs. signable r \<and> rs = filter (\<lambda>x. signable x \<and> rr_key x = rr_key r) rrs"
    by (intro bexI [of _ "hd rs"]) auto
next
  assume "\<exists>r \<in> set rrs. signable r \<and> rs = filter (\<lambda>x. signable x \<and> rr_key x = rr_key r) rrs"
  then obtain r where r: "r \<in> set rrs" "signable r"
    and rs: "rs = filter (\<lambda>x. signable x \<and> rr_key x = rr_key r) rrs" by blast
  then have "filter (\<lambda>x. signable x \<and> rr_key x = rr_key r) rrs \<noteq> []" by (auto simp: filter_empty_conv)
  then have "map_of (SplitSets rrs) (rr_key r) = Some rs"
    using rs by (simp add: SplitSets_lookup Let_def)
  then show "\<exists>x \<in> set (SplitSets rrs). rs = snd x" by (force dest: map_of_SomeD)
qed

lemma mset_concat_cong:
  "mset xs = mset ys \<Longrightarrow> mset (concat (map f xs)) = mset (concat (map f ys))"
  by (simp add: mset_concat sum_mset_sum_list [symmetric])

lemma sign_response_sets:
  assumes perm: "mset (ord (SplitSets rrs)) = mset (SplitSets rrs)"
    and key: "signs_with K key" "z_ZSK z = Some key" "z_DnsKeySig z = Some ksig"
  shows "\<exists>sets sigs. SignResponse K ord rrs qname z = Inr (concat (map (\<lambda>rs. rs @ sigs rs) sets)) \<and>
    mset (concat sets) = mset (filter signable rrs) \<and>
    (\<forall>rs. rs \<in> set sets \<longleftrightarrow> (\<exists>r \<in> set rrs. signable r \<and> rs = rrset_of rrs r)) \<and>
    (\<forall>rs \<in> set sets. if freshly_signed qname z (hd rs)
       then \<exists>s. sigs rs = [RR_RRSIG s] \<and> signature_of K key rs s \<and> hdr_Rrtype (sig_Hdr s) = TypeRRSIG
       else sigs rs = (if hdr_Rrtype (Header (hd rs)) = TypeDNSKEY then [ksig] else []))"
proof -
  let ?sets = "map snd (ord (SplitSets rrs))"
  have elem: "set (ord (SplitSets rrs)) = set (SplitSets rrs)"
    using perm by (metis set_mset_mset)
  have ok: "rs \<noteq> [] \<and> signable (hd rs)" if "rs \<in> set ?sets" for rs
  proof -
    obtain k where "(k, rs) \<in> set (SplitSets rrs)" using \<open>rs \<in> set ?sets\<close> elem by auto
    note rs = SplitSets_member [OF this]
    then have "hd rs \<in> set (filter (\<lambda>r. signable r \<and> rr_key r = k) rrs)" by (metis hd_in_set)
    with rs show ?thesis by simp
  qed
  have "\<forall>rs \<in> set ?sets. \<exists>sigs. sign_set K qname z rs = Inr (rs @ sigs) \<and>
    (if freshly_signed qname z (hd rs)
     then \<exists>s. sigs = [RR_RRSIG s] \<and> signature_of K key rs s \<and> hdr_Rrtype (sig_Hdr s) = TypeRRSIG
     else sigs = (if hdr_Rrtype (Header (hd rs)) = TypeDNSKEY then [ksig] else []))"
    using ok sign_set_eq [OF key] by blast
  then obtain sigs where sigs: "\<forall>rs \<in> set ?sets. sign_set K qname z rs = Inr (rs @ sigs rs) \<and>
    (if freshly_signed qname z (hd rs)
     then \<exists>s. sigs rs = [RR_RRSIG s] \<and> signature_of K key rs s \<and> hdr_Rrtype (sig_Hdr s) = TypeRRSIG
     else sigs rs = (if hdr_Rrtype (Header (hd rs)) = TypeDNSKEY then [ksig] else []))"
    by metis
  have "traverse (sign_set K qname z) ?sets = Inr (map (\<lambda>rs. rs @ sigs rs) ?sets)"
    using sigs by (intro traverse_total) auto
  then have "SignResponse K ord rrs qname z = Inr (concat (map (\<lambda>rs. rs @ sigs rs) ?sets))"
    by (simp only: SignResponse_def map_sum.simps)
  moreover have "mset (concat ?sets) = mset (filter signable rrs)"
    using mset_concat_cong [OF perm, of snd] SplitSets_loop_mset [of "[]" rrs] by (simp add: SplitSets_def)
  moreover have "\<forall>rs. rs \<in> set ?sets \<longleftrightarrow> (\<exists>r \<in> set rrs. signable r \<and> rs = rrset_of rrs r)"
    using SplitSets_sets elem by (simp add: image_iff rrset_of_def)
  ultimately show ?thesis using sigs by blast
qed

lemma freshly_signed_rrset:
  assumes "r \<in> set rrs" and "signable r"
  shows "freshly_signed qname z (hd (rrset_of rrs r)) \<longleftrightarrow> freshly_signed qname z r"
proof -
  have "rrset_of rrs r \<noteq> []" using assms by (auto simp: rrset_of_def filter_empty_conv)
  then have "hd (rrset_of rrs r) \<in> set (rrset_of rrs r)" by simp
  then have "signable (hd (rrset_of rrs r))" "rr_key (hd (rrset_of rrs r)) = rr_key r"
    by (auto simp: rrset_of_def)
  then show ?thesis using assms(2) by (simp add: freshly_signed_def rr_key_def)
qed

lemma filter_concat_sigs:
  assumes "\<forall>rs \<in> set sets. filter P rs = rs \<and> filter P (sigs rs) = []"
  shows "filter P (concat (map (\<lambda>rs. rs @ sigs rs) sets)) = concat sets"
  using assms by (induction sets) auto


text \<open>An instance: a key whose signatures are the text ``sig''.\<close>

definition toy_crypto :: dns_crypto where
  "toy_crypto = \<lparr>cr_KeyTag = (\<lambda>_. 7),
     cr_Sign = (\<lambda>_ t rs. if rs = [] then Inl (Err ''bad rrset'')
        else Inr (t\<lparr>sig_TypeCovered := hdr_Rrtype (Header (hd rs)),
                    sig_Hdr := (sig_Hdr t)\<lparr>hdr_Rrtype := TypeRRSIG\<rparr>, sig_Signature := ''sig''\<rparr>)),
     cr_Generate = (\<lambda>k. Inr (ECDSA_Key ''k'', k\<lparr>key_PublicKey := ''p''\<rparr>)),
     cr_ToDS = (\<lambda>k. Some (RR_DS (key_Hdr k) 7 13 2 ''d'')),
     cr_PrivateKeyString = (\<lambda>_ _. ''k''), cr_String = (\<lambda>_. ''r'')\<rparr>"

definition toy_key :: ZoneKey where
  "toy_key = \<lparr>zk_DnsKey = new_dnskey ''z.'' 256, zk_PrivateKey = ECDSA_Key ''k'',
     zk_KeyInception = 0, zk_KeyExpiration = 100\<rparr>"

definition toy_sig :: RR where
  "toy_sig = RR_RRSIG (rrsig_template toy_crypto ''z.'' toy_key 60)"

definition signed_zone :: "alist_tree Zone" where
  "signed_zone = \<lparr>z_Name = ''z.'', z_Config = default_config 0 ''z.'',
      z_LocationsTree = locations_tree alist_radix [''@''], z_LocationsList = [''@''],
      z_ZSK = Some toy_key, z_KSK = Some toy_key, z_DnsKeySig = Some toy_sig, z_CacheTimeout = 0\<rparr>"

lemma toy_signs: "signs_with toy_crypto toy_key"
  by (simp add: signs_with_def usable_key_def toy_key_def toy_crypto_def new_dnskey_def
      ecdsa_algorithms_def)


end
