(* ===== verification/Request.thy ===== *)
theory Request
  imports Zones
begin

text \<open>
  The context of a request and DNS cookies: \<open>src/internal/resolver/request.go\<close> and
  \<open>src/internal/resolver/cookie.go\<close>.

  What the dns and coredns packages do with a message is a parameter (\<open>msg_api\<close>).  Time
  is a number of nanoseconds since the epoch; the calls of \<open>time.Now\<close> within one step of
  the handler see the same instant.  \<open>siphash\<close> is the keyed hash of the siphash package.
\<close>

section \<open>Messages and contexts\<close>

record Question =
  qn_Name :: string
  qn_Qtype :: uint16
  qn_Qclass :: uint16

record Msg =
  msg_Id :: uint16
  msg_Rcode :: int
  msg_Authoritative :: bool
  msg_RecursionAvailable :: bool
  msg_Compress :: bool
  msg_Question :: "Question list"
  msg_Answer :: "RR list"
  msg_Ns :: "RR list"
  msg_Extra :: "RR list"

definition new_Msg :: Msg where
  "new_Msg = \<lparr>msg_Id = 0, msg_Rcode = 0, msg_Authoritative = False, msg_RecursionAvailable = False,
     msg_Compress = False, msg_Question = [], msg_Answer = [], msg_Ns = [], msg_Extra = []\<rparr>"

text \<open>
  \<open>IsEdns0\<close> and \<open>SetRcode\<close> are methods of \<open>dns.Msg\<close>; \<open>QType\<close>, \<open>Do\<close>, \<open>SizeAndDo\<close> and
  \<open>Scrub\<close> those of the request of coredns, and \<open>subnet_String\<close> prints a client subnet.
  The writer records what it is given; \<open>w_Fails\<close> tells for which messages the transport
  reports an error.
\<close>

record msg_api =
  IsEdns0 :: "Msg \<Rightarrow> OPT option"
  SetRcode :: "Msg \<Rightarrow> Msg \<Rightarrow> int \<Rightarrow> Msg"
  QType :: "Msg \<Rightarrow> uint16"
  Do :: "Msg \<Rightarrow> bool"
  SizeAndDo :: "Msg \<Rightarrow> Msg \<Rightarrow> Msg"
  Scrub :: "Msg \<Rightarrow> Msg \<Rightarrow> Msg"
  subnet_String :: "IP \<Rightarrow> string"

record ResponseWriter =
  w_Remote :: IP
  w_Written :: "Msg list"
  w_Closed :: bool
  w_Fails :: "Msg \<Rightarrow> bool"

record 't RequestContext =
  rc_Req :: Msg
  rc_W :: ResponseWriter
  rc_StartTime :: int
  rc_Auth :: bool
  rc_Res :: int
  rc_dnssec :: bool
  rc_Answer :: "RR list"
  rc_Authority :: "RR list"
  rc_Additional :: "RR list"
  rc_DomainUid :: string
  rc_SourceIp :: IP
  rc_SourceSubnet :: string
  rc_SourceCountry :: string
  rc_SourceASN :: uint64
  rc_name :: string
  rc_zone :: "'t Zone option"

text \<open>Response codes of the dns package.\<close>

definition RcodeSuccess :: int where "RcodeSuccess = 0"
definition RcodeFormatError :: int where "RcodeFormatError = 1"
definition RcodeServerFailure :: int where "RcodeServerFailure = 2"
definition RcodeNameError :: int where "RcodeNameError = 3"
definition RcodeNotAuth :: int where "RcodeNotAuth = 9"
definition RcodeBadCookie :: int where "RcodeBadCookie = 23"

lemmas rcodes =
  RcodeSuccess_def RcodeFormatError_def RcodeServerFailure_def RcodeNameError_def
  RcodeNotAuth_def RcodeBadCookie_def

fun subnet_option :: "EDNS0 list \<Rightarrow> IP option" where
  "subnet_option [] = None"
| "subnet_option (EDNS0_SUBNET a # os) = Some a"
| "subnet_option (_ # os) = subnet_option os"

text \<open>\<open>w_Remote\<close> is \<open>net.ParseIP(context.IP())\<close>, the address of the peer.\<close>

definition sourceIp :: "msg_api \<Rightarrow> Msg \<Rightarrow> ResponseWriter \<Rightarrow> IP" where
  "sourceIp A r w =
     (case IsEdns0 A r of
        None \<Rightarrow> w_Remote w
      | Some opt \<Rightarrow>
          (case subnet_option (opt_Option opt) of Some a \<Rightarrow> a | None \<Rightarrow> w_Remote w))"

definition sourceSubnet :: "msg_api \<Rightarrow> Msg \<Rightarrow> string" where
  "sourceSubnet A r =
     (case IsEdns0 A r of
        None \<Rightarrow> []
      | Some opt \<Rightarrow>
          (case subnet_option (opt_Option opt) of Some a \<Rightarrow> subnet_String A a | None \<Rightarrow> []))"

definition NewRequestContext :: "msg_api \<Rightarrow> int \<Rightarrow> ResponseWriter \<Rightarrow> Msg \<Rightarrow> 't RequestContext" where
  "NewRequestContext A now w r =
     \<lparr>rc_Req = r, rc_W = w, rc_StartTime = now, rc_Auth = True, rc_Res = RcodeSuccess, rc_dnssec = False,
      rc_Answer = [], rc_Authority = [], rc_Additional = [], rc_DomainUid = [],
      rc_SourceIp = sourceIp A r w, rc_SourceSubnet = sourceSubnet A r,
      rc_SourceCountry = [], rc_SourceASN = 0, rc_name = [], rc_zone = None\<rparr>"

text \<open>\<open>RawName\<close> keeps its result in the field \<open>name\<close>.\<close>

definition RawName :: "'t RequestContext \<Rightarrow> string \<times> 't RequestContext" where
  "RawName c =
     (if rc_name c \<noteq> [] then (rc_name c, c)
      else if msg_Question (rc_Req c) = [] then (''.'', c\<lparr>rc_name := ''.''\<rparr>)
      else let n = ToLower (qn_Name (hd (msg_Question (rc_Req c)))) in (n, c\<lparr>rc_name := n\<rparr>))"

definition raw_name :: "'t RequestContext \<Rightarrow> string" where
  "raw_name c = fst (RawName c)"

definition WriteMsg :: "ResponseWriter \<Rightarrow> Msg \<Rightarrow> ResponseWriter" where
  "WriteMsg w m =
     (let w = w\<lparr>w_Written := w_Written w @ [m]\<rparr>
      in if w_Fails w m then w\<lparr>w_Closed := True\<rparr> else w)"

definition Response :: "msg_api \<Rightarrow> 't RequestContext \<Rightarrow> 't RequestContext" where
  "Response A c =
     (let m = new_Msg\<lparr>msg_Authoritative := rc_Auth c, msg_RecursionAvailable := False, msg_Compress := True\<rparr>;
          m = SetRcode A m (rc_Req c) (rc_Res c);
          m = m\<lparr>msg_Answer := msg_Answer m @ rc_Answer c\<rparr>;
          m = m\<lparr>msg_Ns := msg_Ns m @ rc_Authority c\<rparr>;
          m = m\<lparr>msg_Extra := msg_Extra m @ rc_Additional c\<rparr>;
          m = SizeAndDo A (rc_Req c) m;
          m = Scrub A (rc_Req c) m
      in c\<lparr>rc_W := WriteMsg (rc_W c) m\<rparr>)"

lemma raw_name_stable [simp]: "raw_name (snd (RawName c)) = raw_name c"
  by (auto simp: raw_name_def RawName_def Let_def)

section \<open>Cookies\<close>

text \<open>Big-endian encodings of \<open>encoding/binary\<close>.\<close>

definition be32 :: "uint32 \<Rightarrow> uint8 list" where
  "be32 x = [ucast (drop_bit 24 x), ucast (drop_bit 16 x), ucast (drop_bit 8 x), ucast x]"

definition from_be32 :: "uint8 list \<Rightarrow> uint32" where
  "from_be32 bs = word_of_nat (foldl (\<lambda>n b. 256 * n + unat b) 0 bs)"

type_synonym ClientCookie = "uint8 list"

record ServerCookie =
  sc_raw :: "uint8 list"
  sc_Version :: uint8
  sc_Timestamp :: uint32
  sc_Hash :: "uint8 list"

definition CookieErrorNoCookie :: go_error where "CookieErrorNoCookie = Err ''no cookie''"
definition CookieErrorBadFormat :: go_error where "CookieErrorBadFormat = Err ''bad format''"

text \<open>
  The reads consume the buffer from the left; a read past its end is an error, and
  \<open>Next\<close> skips at most what is left.
\<close>

definition read_bytes :: "nat \<Rightarrow> uint8 list \<Rightarrow> (uint8 list \<times> uint8 list) option" where
  "read_bytes n p = (if n \<le> length p then Some (take n p, drop n p) else None)"

definition UnpackServerCookie :: "string \<Rightarrow> ServerCookie option" where
  "UnpackServerCookie input =
     (case hex_DecodeString input of
        None \<Rightarrow> None
      | Some buf \<Rightarrow>
          (case read_bytes 1 buf of
             None \<Rightarrow> None
           | Some (v, p) \<Rightarrow>
               (case read_bytes 4 (drop 3 p) of
                  None \<Rightarrow> None
                | Some (t, p) \<Rightarrow>
                    (case read_bytes 8 p of
                       None \<Rightarrow> None
                     | Some (h, p) \<Rightarrow>
                         Some \<lparr>sc_raw = buf, sc_Version = hd v, sc_Timestamp = from_be32 t, sc_Hash = h\<rparr>))))"

definition cookie_bytes :: "ServerCookie \<Rightarrow> uint8 list" where
  "cookie_bytes s = sc_Version s # [0, 0, 0] @ be32 (sc_Timestamp s) @ sc_Hash s"

definition Pack :: "ServerCookie \<Rightarrow> string" where
  "Pack s = hex_EncodeToString (cookie_bytes s)"

definition cookie_hash ::
  "(uint8 list \<Rightarrow> uint8 list \<Rightarrow> uint8 list) \<Rightarrow> ServerCookie \<Rightarrow> ClientCookie \<Rightarrow> IP \<Rightarrow> uint8 list \<Rightarrow> uint8 list" where
  "cookie_hash siphash s cCookie sourceAddress secret =
     (let ip = (case To4 sourceAddress of
                  Some b \<Rightarrow> b
                | None \<Rightarrow> (case To16 sourceAddress of Some b \<Rightarrow> b | None \<Rightarrow> []))
      in siphash secret (cCookie @ [sc_Version s] @ [0, 0, 0] @ be32 (sc_Timestamp s) @ ip))"

fun edns_code :: "EDNS0 \<Rightarrow> uint16" where
  "edns_code (EDNS0_COOKIE _) = 10"
| "edns_code (EDNS0_SUBNET _) = 8"
| "edns_code (EDNS0_OTHER c) = c"

text \<open>The three results of \<open>GetCookie\<close>; an outer \<open>Inl\<close> is a panic of the type assertion.\<close>

definition parse_cookie :: "string \<Rightarrow> ClientCookie option \<times> ServerCookie option \<times> go_error option" where
  "parse_cookie c =
     (if length c = 16
      then (case hex_DecodeString (take 16 c) of
              None \<Rightarrow> (None, None, Some CookieErrorBadFormat)
            | Some cCookie \<Rightarrow> (Some cCookie, None, None))
      else if length c = 48
      then (case hex_DecodeString (take 16 c) of
              None \<Rightarrow> (None, None, Some CookieErrorBadFormat)
            | Some cCookie \<Rightarrow>
                (case UnpackServerCookie (drop 16 c) of
                   None \<Rightarrow> (None, None, Some CookieErrorBadFormat)
                 | Some sCookie \<Rightarrow> (Some cCookie, Some sCookie, None)))
      else (None, None, Some CookieErrorBadFormat))"

fun find_cookie ::
  "EDNS0 list \<Rightarrow> go_error + (ClientCookie option \<times> ServerCookie option \<times> go_error option)" where
  "find_cookie [] = Inr (None, None, Some CookieErrorNoCookie)"
| "find_cookie (option # rest) =
     (if edns_code option = 10
      then (case option of
              EDNS0_COOKIE c \<Rightarrow> Inr (parse_cookie c)
            | _ \<Rightarrow> Inl (Panic ''interface conversion''))
      else find_cookie rest)"

definition GetCookie ::
  "msg_api \<Rightarrow> Msg \<Rightarrow> go_error + (ClientCookie option \<times> ServerCookie option \<times> go_error option)" where
  "GetCookie A r =
     (case IsEdns0 A r of
        None \<Rightarrow> Inr (None, None, Some CookieErrorNoCookie)
      | Some opt \<Rightarrow> find_cookie (opt_Option opt))"

definition second :: int where "second = 1000000000"

definition CheckCookie ::
  "(uint8 list \<Rightarrow> uint8 list \<Rightarrow> uint8 list) \<Rightarrow> int \<Rightarrow> 't RequestContext \<Rightarrow> ClientCookie \<Rightarrow> ServerCookie \<Rightarrow>
   uint8 list \<Rightarrow> bool" where
  "CheckCookie siphash now context cCookie sCookie secret =
     (if cookie_hash siphash sCookie cCookie (rc_SourceIp context) secret \<noteq> sc_Hash sCookie then False
      else let cookieTime = uint (sc_Timestamp sCookie) * second;
               before = now - 3600 * second;
               after = now + 300 * second
           in \<not> (cookieTime < before \<or> after < cookieTime))"

text \<open>
  \<open>setCookie\<close> looks from the end of the additional section for an OPT record and keeps
  the last one found, the first of the section.  The record is shared by reference, so the
  new option shows both there and in the copy that is appended.  The handler calls it at
  most once for a request, on a section without OPT records.
\<close>

fun first_opt :: "RR list \<Rightarrow> (nat \<times> OPT) option" where
  "first_opt [] = None"
| "first_opt (RR_OPT e # rs) = Some (0, e)"
| "first_opt (_ # rs) = map_option (\<lambda>(i, e). (Suc i, e)) (first_opt rs)"

definition new_opt :: OPT where
  "new_opt = \<lparr>opt_Hdr = \<lparr>hdr_Name = ''.'', hdr_Rrtype = TypeOPT, hdr_Class = 4096, hdr_Ttl = 32768\<rparr>,
     opt_UDPSize = 4096, opt_Do = True, opt_Option = []\<rparr>"

definition setCookie :: "'t RequestContext \<Rightarrow> string \<Rightarrow> 't RequestContext" where
  "setCookie context cookie =
     (case first_opt (rc_Additional context) of
        None \<Rightarrow>
          let e = new_opt\<lparr>opt_Option := [EDNS0_COOKIE cookie]\<rparr>
          in context\<lparr>rc_Additional := rc_Additional context @ [RR_OPT e]\<rparr>
      | Some (i, e) \<Rightarrow>
          let e = e\<lparr>opt_Option := opt_Option e @ [EDNS0_COOKIE cookie]\<rparr>
          in context\<lparr>rc_Additional := (rc_Additional context)[i := RR_OPT e] @ [RR_OPT e]\<rparr>)"

definition new_server_cookie ::
  "(uint8 list \<Rightarrow> uint8 list \<Rightarrow> uint8 list) \<Rightarrow> int \<Rightarrow> ClientCookie \<Rightarrow> IP \<Rightarrow> uint8 list \<Rightarrow> ServerCookie" where
  "new_server_cookie siphash now cCookie ip secret =
     (let s = \<lparr>sc_raw = [], sc_Version = 1, sc_Timestamp = word_of_int (now div second),
               sc_Hash = replicate 8 0\<rparr>;
          h = cookie_hash siphash s cCookie ip secret
      in s\<lparr>sc_Hash := take 8 h @ drop (length h) (replicate 8 0)\<rparr>)"

definition SetNewCookie ::
  "(uint8 list \<Rightarrow> uint8 list \<Rightarrow> uint8 list) \<Rightarrow> int \<Rightarrow> 't RequestContext \<Rightarrow> ClientCookie \<Rightarrow> uint8 list \<Rightarrow>
   't RequestContext" where
  "SetNewCookie siphash now context cCookie secret =
     setCookie context (hex_EncodeToString cCookie @
       Pack (new_server_cookie siphash now cCookie (rc_SourceIp context) secret))"

definition CopyCookie ::
  "(uint8 list \<Rightarrow> uint8 list \<Rightarrow> uint8 list) \<Rightarrow> int \<Rightarrow> 't RequestContext \<Rightarrow> ClientCookie \<Rightarrow> ServerCookie \<Rightarrow>
   uint8 list \<Rightarrow> 't RequestContext" where
  "CopyCookie siphash now context cCookie sCookie secret =
     (if uint (sc_Timestamp sCookie) * second < now - 1800 * second
      then SetNewCookie siphash now context cCookie secret
      else setCookie context (hex_EncodeToString (cCookie @ sc_raw sCookie)))"

section \<open>Cookies that the server accepts\<close>

lemma length_be32 [simp]: "length (be32 x) = 4"
  by (simp add: be32_def)

lemma unat_byte: "unat (ucast (drop_bit k x) :: uint8) = unat x div 2 ^ k mod 256" for x :: uint32
proof -
  have "unat (drop_bit k x) = unat x div 2 ^ k"
    unfolding unat_drop_bit_eq by (rule drop_bit_eq_div)
  then show ?thesis by (simp add: unsigned_ucast_eq take_bit_eq_mod)
qed

lemma base256:
  assumes "n < 256 * 256 * 256 * (256 :: nat)"
  shows "256 * (256 * (256 * (n div 2 ^ 24 mod 256) + n div 2 ^ 16 mod 256) + n div 2 ^ 8 mod 256) +
     n mod 256 = n"
proof -
  define a b c where "a = n div 256" and "b = a div 256" and "c = b div 256"
  have "n div 2 ^ 8 = a" "n div 2 ^ 16 = b" "n div 2 ^ 24 = c"
    by (simp_all add: a_def b_def c_def flip: div_mult2_eq)
  moreover have "c < 256"
    using assms by (simp add: a_def b_def c_def div_less_iff_less_mult flip: div_mult2_eq)
  ultimately show ?thesis
    using mult_div_mod_eq [of 256 b] mult_div_mod_eq [of 256 a] mult_div_mod_eq [of 256 n]
    by (simp add: a_def [symmetric] b_def [symmetric] c_def [symmetric])
qed

lemma from_be32_be32 [simp]: "from_be32 (be32 x) = x"
proof -
  have "unat x < 256 * 256 * 256 * 256" using unsigned_less [of x] by simp
  from base256 [OF this] show ?thesis
    using unat_byte [of 24 x] unat_byte [of 16 x] unat_byte [of 8 x] unat_byte [of 0 x]
    by (simp add: from_be32_def be32_def)
qed

lemma unpack_pack:
  assumes "length (sc_Hash s) = 8"
  shows "UnpackServerCookie (Pack s) = Some (s\<lparr>sc_raw := cookie_bytes s\<rparr>)"
proof -
  have "hex_DecodeString (Pack s) = Some (cookie_bytes s)" by (simp add: Pack_def)
  then show ?thesis
    using assms by (simp add: UnpackServerCookie_def read_bytes_def cookie_bytes_def)
qed

text \<open>What the server relies on of the hash: a digest has 8 bytes.\<close>

definition sip_law :: "(uint8 list \<Rightarrow> uint8 list \<Rightarrow> uint8 list) \<Rightarrow> bool" where
  "sip_law siphash \<longleftrightarrow> (\<forall>k d. length (siphash k d) = 8)"

lemma new_server_cookie_hash:
  assumes "sip_law siphash"
  shows "sc_Hash (new_server_cookie siphash now c ip secret) =
      cookie_hash siphash (new_server_cookie siphash now c ip secret) c ip secret"
    and "length (sc_Hash (new_server_cookie siphash now c ip secret)) = 8"
  using assms by (simp_all add: new_server_cookie_def cookie_hash_def Let_def sip_law_def)

lemma parse_new_cookie:
  assumes "sip_law siphash" and "length c = 8"
  shows "parse_cookie (hex_EncodeToString c @ Pack (new_server_cookie siphash now c ip secret)) =
    (Some c, Some ((new_server_cookie siphash now c ip secret)
       \<lparr>sc_raw := cookie_bytes (new_server_cookie siphash now c ip secret)\<rparr>), None)"
proof -
  let ?s = "new_server_cookie siphash now c ip secret"
  have "length (Pack ?s) = 32"
    using new_server_cookie_hash(2) [OF assms(1)] by (simp add: Pack_def cookie_bytes_def)
  then show ?thesis
    using assms(2) unpack_pack [OF new_server_cookie_hash(2) [OF assms(1)], of now c ip secret]
    by (simp add: parse_cookie_def)
qed

text \<open>The cookie that the last OPT record of the additional section carries.\<close>

definition sent_cookie :: "'t RequestContext \<Rightarrow> string option" where
  "sent_cookie context =
     (case rev (rc_Additional context) of
        RR_OPT e # _ \<Rightarrow> (case rev (opt_Option e) of EDNS0_COOKIE s # _ \<Rightarrow> Some s | _ \<Rightarrow> None)
      | _ \<Rightarrow> None)"

lemma sent_cookie_setCookie [simp]: "sent_cookie (setCookie context s) = Some s"
  by (auto simp: sent_cookie_def setCookie_def Let_def split: option.splits)

text \<open>
  C21: cookies.  The cookie that \<open>SetNewCookie\<close> puts into a response, sent back in a later
  request, is parsed by \<open>GetCookie\<close> to the same client cookie and a server cookie, and
  \<open>CheckCookie\<close> accepts it from the same address exactly from five minutes before to one hour
  after the (whole) second in which it was made.
\<close>

theorem cookie_accepted_within_hour:
  assumes "sip_law siphash" and "length c = 8"
    and "0 \<le> now div second" "now div second < 2 ^ 32"
    and "sent_cookie (SetNewCookie siphash now context c secret) = Some s"
    and "IsEdns0 A r = Some opt" "opt_Option opt = EDNS0_COOKIE s # rest"
    and "rc_SourceIp context' = rc_SourceIp context"
  shows "\<exists>sc. GetCookie A r = Inr (Some c, Some sc, None) \<and>
    (CheckCookie siphash later context' c sc secret \<longleftrightarrow>
       later - 3600 * second \<le> now div second * second \<and>
       now div second * second \<le> later + 300 * second)"
proof -
  let ?s = "new_server_cookie siphash now c (rc_SourceIp context) secret"
  let ?sc = "?s\<lparr>sc_raw := cookie_bytes ?s\<rparr>"
  have s: "s = hex_EncodeToString c @ Pack ?s"
    using assms(5) by (simp add: SetNewCookie_def)
  have "GetCookie A r = Inr (Some c, Some ?sc, None)"
    using assms(6,7) s parse_new_cookie [OF assms(1,2)] by (simp add: GetCookie_def)
  moreover have "uint (sc_Timestamp ?s) = now div second"
    using assms(3,4) by (simp add: new_server_cookie_def Let_def uint_word_of_int_eq take_bit_eq_mod)
  moreover have "cookie_hash siphash ?sc c (rc_SourceIp context) secret = sc_Hash ?s"
    using new_server_cookie_hash(1) [OF assms(1)] by (simp add: cookie_hash_def)
  ultimately show ?thesis
    using assms(8) by (intro exI [of _ ?sc]) (auto simp: CheckCookie_def Let_def)
qed

definition toy_sip :: "uint8 list \<Rightarrow> uint8 list \<Rightarrow> uint8 list" where
  "toy_sip k d = take 8 (d @ replicate 8 0)"

definition plain_api :: msg_api where
  "plain_api = \<lparr>IsEdns0 = (\<lambda>m. map_option snd (first_opt (msg_Extra m))),
     SetRcode = (\<lambda>m r c. m\<lparr>msg_Id := msg_Id r, msg_Rcode := c, msg_Question := msg_Question r\<rparr>),
     QType = (\<lambda>m. case msg_Question m of [] \<Rightarrow> 0 | q # _ \<Rightarrow> qn_Qtype q),
     Do = (\<lambda>m. case first_opt (msg_Extra m) of None \<Rightarrow> False | Some (_, e) \<Rightarrow> opt_Do e),
     SizeAndDo = (\<lambda>r m. m), Scrub = (\<lambda>r m. m), subnet_String = IP_String\<rparr>"

definition plain_writer :: ResponseWriter where
  "plain_writer = \<lparr>w_Remote = Some [192, 0, 2, 1], w_Written = [], w_Closed = False, w_Fails = (\<lambda>_. False)\<rparr>"

theorem cookie_accepted_within_hour_witness:
  "\<exists>s sc. sent_cookie (SetNewCookie toy_sip (100 * second)
       (NewRequestContext plain_api 0 plain_writer new_Msg :: alist_tree RequestContext)
       [1, 2, 3, 4, 5, 6, 7, 8] []) = Some s \<and>
     GetCookie plain_api (new_Msg\<lparr>msg_Extra := [RR_OPT (new_opt\<lparr>opt_Option := [EDNS0_COOKIE s]\<rparr>)]\<rparr>) =
       Inr (Some [1, 2, 3, 4, 5, 6, 7, 8], Some sc, None) \<and>
     CheckCookie toy_sip (200 * second)
       (NewRequestContext plain_api 0 plain_writer new_Msg :: alist_tree RequestContext)
       [1, 2, 3, 4, 5, 6, 7, 8] sc []"
proof -
  let ?x = "NewRequestContext plain_api 0 plain_writer new_Msg :: alist_tree RequestContext"
  let ?c = "[1, 2, 3, 4, 5, 6, 7, 8] :: uint8 list"
  obtain s where s: "sent_cookie (SetNewCookie toy_sip (100 * second) ?x ?c []) = Some s"
    by (simp add: SetNewCookie_def)
  let ?o = "new_opt\<lparr>opt_Option := [EDNS0_COOKIE s]\<rparr>"
  have "sip_law toy_sip" by (auto simp: sip_law_def toy_sip_def)
  moreover have "100 * second div second = 100" by (simp add: second_def)
  moreover have "IsEdns0 plain_api (new_Msg\<lparr>msg_Extra := [RR_OPT ?o]\<rparr>) = Some ?o"
    by (simp add: plain_api_def)
  ultimately show ?thesis
    using cookie_accepted_within_hour [of toy_sip ?c "100 * second" ?x "[]" s plain_api _ ?o "[]" ?x "200 * second"] s
    by (auto simp: second_def)
qed

text \<open>
  A cookie is copied into the response for half an hour, and replaced by a fresh one
  afterwards.  The copy is the cookie of the request unchanged.
\<close>

lemma copy_cookie_refresh:
  assumes "UnpackServerCookie str = Some sc"
  shows "sent_cookie (CopyCookie siphash now context c sc secret) =
    (if now - 1800 * second \<le> uint (sc_Timestamp sc) * second
     then map_option (\<lambda>b. hex_EncodeToString c @ hex_EncodeToString b) (hex_DecodeString str)
     else sent_cookie (SetNewCookie siphash now context c secret))"
  using assms
  by (auto simp: CopyCookie_def UnpackServerCookie_def SetNewCookie_def hex_encode_append
      split: option.splits)

end
