(* ===== verification/Handler.thy ===== *)
theory Handler
  imports IpSelect Dnssec Request
begin

text \<open>
  The request handler: \<open>src/internal/resolver/handler.go\<close>.

  The handler reads the database through \<open>data_view\<close>, the functions of
  \<open>storage.DataHandler\<close> that it calls, on the state of the database during the request;
  \<open>h_upstream\<close> is \<open>Upstream.Query\<close>.  An \<open>Inl\<close> of a record lookup is an error that the
  handler tests for; an \<open>Inl\<close> of the handler's own functions is a panic or a call that does
  not return.  Logging is left out.
\<close>

section \<open>Handler and environment\<close>

record 't data_view =
  dv_FindZone :: "string \<Rightarrow> string"
  dv_GetZone :: "string \<Rightarrow> go_error + 't Zone option"
  dv_A :: "string \<Rightarrow> string \<Rightarrow> go_error + IP_RRSet"
  dv_AAAA :: "string \<Rightarrow> string \<Rightarrow> go_error + IP_RRSet"
  dv_CNAME :: "string \<Rightarrow> string \<Rightarrow> go_error + CNAME_RRSet"
  dv_TXT :: "string \<Rightarrow> string \<Rightarrow> go_error + TXT_RRSet"
  dv_NS :: "string \<Rightarrow> string \<Rightarrow> go_error + NS_RRSet"
  dv_MX :: "string \<Rightarrow> string \<Rightarrow> go_error + MX_RRSet"
  dv_SRV :: "string \<Rightarrow> string \<Rightarrow> go_error + SRV_RRSet"
  dv_CAA :: "string \<Rightarrow> string \<Rightarrow> go_error + CAA_RRSet"
  dv_PTR :: "string \<Rightarrow> string \<Rightarrow> go_error + PTR_RRSet"
  dv_TLSA :: "string \<Rightarrow> string \<Rightarrow> go_error + TLSA_RRSet"
  dv_DS :: "string \<Rightarrow> string \<Rightarrow> go_error + DS_RRSet"
  dv_ANAME :: "string \<Rightarrow> string \<Rightarrow> go_error + ANAME_RRSet"

record 't libs =
  lib_radix :: "'t radix"
  lib_fqdn :: "string \<Rightarrow> string"
  lib_msg :: msg_api
  lib_crypto :: dns_crypto
  lib_ord :: "(RRSetKey \<times> RR list) list \<Rightarrow> (RRSetKey \<times> RR list) list"
  lib_siphash :: "uint8 list \<Rightarrow> uint8 list \<Rightarrow> uint8 list"

record 't DnsRequestHandler =
  h_LogSourceLocation :: bool
  h_RedisData :: "'t data_view"
  h_geoip :: GeoIp
  h_upstream :: "string \<Rightarrow> uint16 \<Rightarrow> RR list \<times> int"
  h_cookieSecret :: "uint8 list"

text \<open>
  \<open>NewHandler\<close> drops the error of \<open>hex.DecodeString\<close>, which returns the bytes it decoded
  before an invalid digit.
\<close>

fun hex_prefix :: "string \<Rightarrow> uint8 list" where
  "hex_prefix (a # b # rest) =
     (case (hex_value a, hex_value b) of
        (Some h, Some l) \<Rightarrow> word_of_nat (16 * h + l) # hex_prefix rest
      | _ \<Rightarrow> [])"
| "hex_prefix _ = []"

definition NewHandler ::
  "(string \<Rightarrow> country_reader option) \<Rightarrow> (string \<Rightarrow> (IP \<Rightarrow> go_error + uint64) option) \<Rightarrow>
   bool \<Rightarrow> GeoIpConfig \<Rightarrow> string \<Rightarrow>
   (string \<Rightarrow> uint16 \<Rightarrow> RR list \<times> int) \<Rightarrow> 't data_view \<Rightarrow> 't DnsRequestHandler" where
  "NewHandler open_country open_asn logSource geo secret upstream redisData =
     \<lparr>h_LogSourceLocation = logSource, h_RedisData = redisData,
      h_geoip = NewGeoIp open_country open_asn geo, h_upstream = upstream,
      h_cookieSecret = hex_prefix secret\<rparr>"

definition ctx_zone :: "'t RequestContext \<Rightarrow> go_error + 't Zone" where
  "ctx_zone c =
     (case rc_zone c of None \<Rightarrow> Inl (Panic ''nil pointer dereference'') | Some z \<Rightarrow> Inr z)"

definition ctx_soa :: "'t RequestContext \<Rightarrow> go_error + SOA_RRSet" where
  "ctx_soa c =
     andThen (ctx_zone c) (\<lambda>z.
       case zc_SOA (z_Config z) of
         None \<Rightarrow> Inl (Panic ''nil pointer dereference'')
       | Some soa \<Rightarrow> Inr soa)"

definition soa_record :: "SOA_RRSet \<Rightarrow> RR" where
  "soa_record soa = (case soa_Data soa of None \<Rightarrow> RR_Nil | Some r \<Rightarrow> r)"

section \<open>Denial of existence and signing\<close>

definition nsec_bitmap :: "'t RequestContext \<Rightarrow> 't Zone \<Rightarrow> string \<Rightarrow> uint16 \<Rightarrow> uint16 list" where
  "nsec_bitmap c z name qtype =
     (if name = z_Name z then FilterNsecBitmap qtype NsecBitmapAppex
      else if rc_Res c = RcodeNameError then NsecBitmapNameError
      else if qtype = TypeDS then FilterNsecBitmap qtype NsecBitmapSubDelegation
      else FilterNsecBitmap qtype NsecBitmapZone)"

definition addNSec :: "'t RequestContext \<Rightarrow> string \<Rightarrow> uint16 \<Rightarrow> go_error + 't RequestContext" where
  "addNSec c name qtype =
     (if \<not> rc_dnssec c then Inr c
      else andThen (ctx_zone c) (\<lambda>z. andThen (ctx_soa c) (\<lambda>soa.
        let bitmap = nsec_bitmap c z name qtype;
            c = (if name = z_Name z \<or> rc_Res c = RcodeNameError then c\<lparr>rc_Res := RcodeSuccess\<rparr> else c);
            nsec = RR_NSEC (inet_hdr name TypeNSEC (soa_MinTtl soa)) (CHR 0x5C # ''000.'' @ name) bitmap
        in Inr (c\<lparr>rc_Authority := rc_Authority c @ [nsec]\<rparr>))))"

definition applyDnssec :: "'t libs \<Rightarrow> 't RequestContext \<Rightarrow> go_error + 't RequestContext" where
  "applyDnssec L c =
     (if \<not> rc_dnssec c then Inr c
      else andThen (ctx_zone c) (\<lambda>z.
        andThen (SignResponse (lib_crypto L) (lib_ord L) (rc_Answer c) (raw_name c) z) (\<lambda>answer.
        andThen (SignResponse (lib_crypto L) (lib_ord L) (rc_Authority c) (raw_name c) z) (\<lambda>authority.
          Inr (c\<lparr>rc_Answer := answer, rc_Authority := authority\<rparr>)))))"

section \<open>CAA and ANAME lookups\<close>

partial_function (option) findCAA_loop ::
  "'t radix \<Rightarrow> 't data_view \<Rightarrow> 't Zone \<Rightarrow> string \<Rightarrow> CAA_RRSet option option" where
  "findCAA_loop R dv z currentLocation =
     (case SplitAfter2 currentLocation (CHR ''.'') of
        [_, rest] \<Rightarrow>
          (case FindLocation R z rest of (location, match) \<Rightarrow>
             if match \<noteq> ExactMatch \<and> match \<noteq> WildCardMatch then findCAA_loop R dv z rest
             else (case dv_CAA dv (z_Name z) location of
                     Inl _ \<Rightarrow> findCAA_loop R dv z rest
                   | Inr currentCAA \<Rightarrow>
                       if \<not> CAA_Empty currentCAA then Some (Some currentCAA)
                       else findCAA_loop R dv z location))
      | _ \<Rightarrow> Some None)"

definition findCAA ::
  "'t radix \<Rightarrow> 't data_view \<Rightarrow> 't Zone \<Rightarrow> string \<Rightarrow> go_error + CAA_RRSet option" where
  "findCAA R dv z query =
     (let currentLocation = fst (FindLocation R z query);
          above =
            (case findCAA_loop R dv z currentLocation of
               None \<Rightarrow> Inl Diverge
             | Some (Some caa) \<Rightarrow> Inr (Some caa)
             | Some None \<Rightarrow>
                 (case dv_CAA dv (z_Name z) ''@'' of
                    Inl _ \<Rightarrow> Inr None
                  | Inr currentCAA \<Rightarrow> Inr (Some currentCAA)))
      in case dv_CAA dv (z_Name z) currentLocation of
           Inr currentCAA \<Rightarrow> if \<not> CAA_Empty currentCAA then Inr (Some currentCAA) else above
         | Inl _ \<Rightarrow> above)"

text \<open>The addresses of an upstream answer, by the type asked for.\<close>

fun upstream_ip :: "uint16 \<Rightarrow> RR \<Rightarrow> IP list" where
  "upstream_ip qtype (RR_A _ ip) = (if qtype = TypeA then [ip] else [])"
| "upstream_ip qtype (RR_AAAA _ ip) = (if qtype = TypeA then [] else [ip])"
| "upstream_ip qtype _ = []"

definition upstream_ips :: "uint16 \<Rightarrow> RR list \<times> int \<Rightarrow> IP list \<times> int \<times> uint32" where
  "upstream_ips qtype = (\<lambda>(answers, res).
     if res = RcodeSuccess
     then (concat (map (upstream_ip qtype) answers), res,
           case answers of [] \<Rightarrow> 0 | r # _ \<Rightarrow> hdr_Ttl (Header r))
     else ([], RcodeServerFailure, 0))"

text \<open>
  The first argument counts the iterations that are left: the loop runs while its counter
  is at most 10, eleven times.
\<close>

fun findANAME_loop ::
  "nat \<Rightarrow> 't libs \<Rightarrow> 't DnsRequestHandler \<Rightarrow> nat \<Rightarrow> 't Zone \<Rightarrow> IP \<Rightarrow> string \<Rightarrow> uint16 \<Rightarrow>
   go_error + (IP list \<times> int \<times> uint32)" where
  "findANAME_loop 0 L h ns z src currentQName qtype = Inr ([], RcodeServerFailure, 0)"
| "findANAME_loop (Suc n) L h ns z src currentQName qtype =
     (let dv = h_RedisData h;
          zoneName = dv_FindZone dv currentQName;
          fail = Inr ([], RcodeServerFailure, 0)
      in
      if zoneName = [] \<or> zoneName \<noteq> z_Name z
      then Inr (upstream_ips qtype (h_upstream h currentQName qtype))
      else (case FindLocation (lib_radix L) z currentQName of (location, matchType) \<Rightarrow>
        if matchType = NoMatch then fail
        else (case dv_CNAME dv (z_Name z) location of
          Inl _ \<Rightarrow> fail
        | Inr cname \<Rightarrow>
          if \<not> CNAME_Empty cname then findANAME_loop n L h ns z src (cname_Host cname) qtype
          else
            let follow = (case dv_ANAME dv (z_Name z) location of
                            Inl _ \<Rightarrow> fail
                          | Inr aname \<Rightarrow>
                              if \<not> ANAME_Empty aname
                              then findANAME_loop n L h ns z src (aname_Location aname) qtype
                              else Inr ([], RcodeSuccess, 0));
                found = (\<lambda>r. case r of
                           Inl _ \<Rightarrow> fail
                         | Inr a \<Rightarrow>
                             if \<not> IP_Empty a
                             then andThen (filterIps (h_geoip h) ns src a) (\<lambda>ips. Inr (ips, RcodeSuccess, TtlValue a))
                             else follow)
            in if qtype = TypeA then found (dv_A dv (z_Name z) location)
               else if qtype = TypeAAAA then found (dv_AAAA dv (z_Name z) location)
               else follow)))"

definition findANAME ::
  "'t libs \<Rightarrow> 't DnsRequestHandler \<Rightarrow> nat \<Rightarrow> 't Zone \<Rightarrow> IP \<Rightarrow> string \<Rightarrow> uint16 \<Rightarrow>
   go_error + (IP list \<times> int \<times> uint32)" where
  "findANAME L h ns z src aname qtype = findANAME_loop 11 L h ns z src aname qtype"

section \<open>One step of the resolution loop\<close>

text \<open>\<open>break loop\<close> leaves the loop, \<open>continue\<close> goes on with another name.\<close>

datatype 't loop_step = Break "'t RequestContext" | Continue "'t RequestContext" string

definition server_failure :: "'t RequestContext \<Rightarrow> go_error + 't loop_step" where
  "server_failure c = Inr (Break (c\<lparr>rc_Res := RcodeServerFailure\<rparr>))"

text \<open>The addresses of the name servers of a delegation that lie in the zone.\<close>

definition glue_for ::
  "'t libs \<Rightarrow> 't DnsRequestHandler \<Rightarrow> nat \<Rightarrow> 't Zone \<Rightarrow> IP \<Rightarrow> string \<Rightarrow> go_error + RR list" where
  "glue_for L h ns z src host =
     (case FindLocation (lib_radix L) z host of (glueLocation, match) \<Rightarrow>
        if match = NoMatch then Inr []
        else
          andThen (case dv_A (h_RedisData h) (z_Name z) glueLocation of
                     Inl _ \<Rightarrow> Inr []
                   | Inr a \<Rightarrow> andThen (filterIps (h_geoip h) ns src a) (\<lambda>ips. Inr (generateA host (Ttl a) ips)))
            (\<lambda>glueA.
          andThen (case dv_AAAA (h_RedisData h) (z_Name z) glueLocation of
                     Inl _ \<Rightarrow> Inr []
                   | Inr a \<Rightarrow> andThen (filterIps (h_geoip h) ns src a) (\<lambda>ips. Inr (generateAAAA host (Ttl a) ips)))
            (\<lambda>glueAAAA. Inr (glueA @ glueAAAA))))"

definition add_glue ::
  "'t libs \<Rightarrow> 't DnsRequestHandler \<Rightarrow> nat \<Rightarrow> 't Zone \<Rightarrow> NS_RRSet \<Rightarrow> 't RequestContext \<Rightarrow>
   go_error + 't loop_step" where
  "add_glue L h ns z nsset c =
     andThen (traverse (glue_for L h ns z (rc_SourceIp c)) (ns_Data nsset)) (\<lambda>glue.
       Inr (Break (c\<lparr>rc_Additional := rc_Additional c @ concat glue, rc_Res := RcodeSuccess\<rparr>)))"

text \<open>\<open>case types.NoMatch\<close> and \<open>case types.EmptyNonterminalMatch\<close>.\<close>

definition no_match :: "'t RequestContext \<Rightarrow> string \<Rightarrow> go_error + 't loop_step" where
  "no_match c currentQName =
     andThen (ctx_soa c) (\<lambda>soa.
     andThen (addNSec (c\<lparr>rc_Authority := [soa_record soa], rc_Res := RcodeNameError\<rparr>) currentQName TypeNone)
       (\<lambda>c. Inr (Break c)))"

definition empty_nonterminal :: "'t RequestContext \<Rightarrow> string \<Rightarrow> go_error + 't loop_step" where
  "empty_nonterminal c currentQName =
     andThen (ctx_soa c) (\<lambda>soa.
     andThen (addNSec (c\<lparr>rc_Authority := [soa_record soa], rc_Res := RcodeSuccess\<rparr>) currentQName TypeNone)
       (\<lambda>c. Inr (Break c)))"

text \<open>\<open>case types.CEMatch\<close>: a delegation above the name, or a name error.\<close>

definition ce_match ::
  "'t libs \<Rightarrow> 't DnsRequestHandler \<Rightarrow> nat \<Rightarrow> 't Zone \<Rightarrow> 't RequestContext \<Rightarrow> string \<Rightarrow> string \<Rightarrow> string \<Rightarrow>
   go_error + 't loop_step" where
  "ce_match L h ns z c zoneName currentQName location =
     (case dv_NS (h_RedisData h) (z_Name z) location of
        Inl _ \<Rightarrow> server_failure c
      | Inr nsset \<Rightarrow>
          if \<not> NS_Empty nsset
          then (if length (ns_Data nsset) = 0 then server_failure c
                else
                  let cutPoint = location @ ''.'' @ zoneName;
                      c = c\<lparr>rc_Authority := rc_Authority c @ NS_Value (lib_fqdn L) nsset cutPoint\<rparr>
                  in case dv_DS (h_RedisData h) (z_Name z) location of
                       Inl _ \<Rightarrow> server_failure c
                     | Inr ds \<Rightarrow>
                         andThen (if DS_Empty ds then addNSec c cutPoint TypeDS else Inr c) (\<lambda>c.
                           add_glue L h ns z nsset
                             (c\<lparr>rc_Authority := rc_Authority c @ DS_Value ds cutPoint\<rparr>)))
          else
            andThen (ctx_soa c) (\<lambda>soa.
            andThen (addNSec (c\<lparr>rc_Authority := [soa_record soa], rc_Res := RcodeNameError\<rparr>) currentQName
                       (QType (lib_msg L) (rc_Req c)))
              (\<lambda>c. Inr (Break c))))"

text \<open>The delegation of an exact or wildcard match that is not the zone itself.\<close>

definition delegation ::
  "'t libs \<Rightarrow> 't DnsRequestHandler \<Rightarrow> nat \<Rightarrow> 't Zone \<Rightarrow> 't RequestContext \<Rightarrow> string \<Rightarrow> string \<Rightarrow> NS_RRSet \<Rightarrow>
   go_error + 't loop_step" where
  "delegation L h ns z c currentQName location nsset =
     (case dv_DS (h_RedisData h) (z_Name z) location of
        Inl _ \<Rightarrow> server_failure c
      | Inr ds \<Rightarrow>
          let finish = (\<lambda>c. add_glue L h ns z nsset
                (c\<lparr>rc_Authority := rc_Authority c @ NS_Value (lib_fqdn L) nsset currentQName\<rparr>))
          in if DS_Empty ds then andThen (addNSec c currentQName TypeDS) finish
             else if QType (lib_msg L) (rc_Req c) = TypeDS
             then Inr (Break (c\<lparr>rc_Answer := rc_Answer c @ DS_Value ds currentQName, rc_Res := RcodeSuccess\<rparr>))
             else finish (c\<lparr>rc_Authority := rc_Authority c @ DS_Value ds currentQName\<rparr>))"

text \<open>
  The answer to the type asked for, at the final location.  An inner \<open>Inl\<close> leaves the loop
  at once; otherwise the context and the records are returned.
\<close>

definition lookup_answer ::
  "go_error + 'r \<Rightarrow> ('r \<Rightarrow> RR list) \<Rightarrow> 't RequestContext \<Rightarrow>
   go_error + ('t loop_step + ('t RequestContext \<times> RR list))" where
  "lookup_answer found value c =
     (case found of
        Inl _ \<Rightarrow> Inr (Inl (Break (c\<lparr>rc_Res := RcodeServerFailure\<rparr>)))
      | Inr r \<Rightarrow> Inr (Inr (c, value r)))"

definition ip_answer ::
  "'t libs \<Rightarrow> 't DnsRequestHandler \<Rightarrow> nat \<Rightarrow> 't Zone \<Rightarrow> 't RequestContext \<Rightarrow> string \<Rightarrow> uint16 \<Rightarrow>
   go_error + IP_RRSet \<Rightarrow> (uint32 \<Rightarrow> IP list \<Rightarrow> RR list) \<Rightarrow>
   go_error + ('t loop_step + ('t RequestContext \<times> RR list))" where
  "ip_answer L h ns z c location qtype found generate =
     (case found of
        Inl _ \<Rightarrow> Inr (Inl (Break (c\<lparr>rc_Res := RcodeServerFailure\<rparr>)))
      | Inr a \<Rightarrow>
          (case dv_ANAME (h_RedisData h) (z_Name z) location of
             Inl _ \<Rightarrow> Inr (Inl (Break (c\<lparr>rc_Res := RcodeServerFailure\<rparr>)))
           | Inr aname \<Rightarrow>
               if IP_Empty a \<and> \<not> ANAME_Empty aname
               then andThen (findANAME L h ns z (rc_SourceIp c) (aname_Location aname) qtype)
                      (\<lambda>(ips, res, ttl). Inr (Inr (c\<lparr>rc_Res := res\<rparr>, generate ttl ips)))
               else andThen (filterIps (h_geoip h) ns (rc_SourceIp c) a)
                      (\<lambda>ips. Inr (Inr (c, generate (Ttl a) ips)))))"

definition dnskey_answer :: "'t Zone \<Rightarrow> go_error + RR list" where
  "dnskey_answer z =
     (if zc_DnsSec (z_Config z)
      then (case (z_ZSK z, z_KSK z) of
              (Some zsk, Some ksk) \<Rightarrow> Inr [RR_DNSKEY (zk_DnsKey zsk), RR_DNSKEY (zk_DnsKey ksk)]
            | _ \<Rightarrow> Inl (Panic ''nil pointer dereference''))
      else Inr [])"

definition final_answer ::
  "'t libs \<Rightarrow> 't DnsRequestHandler \<Rightarrow> nat \<Rightarrow> 't Zone \<Rightarrow> 't RequestContext \<Rightarrow> string \<Rightarrow> string \<Rightarrow>
   go_error + ('t loop_step + ('t RequestContext \<times> RR list))" where
  "final_answer L h ns z c qname location =
     (let q = QType (lib_msg L) (rc_Req c); dv = h_RedisData h; n = z_Name z; fqdn = lib_fqdn L in
      if q = TypeA
      then ip_answer L h ns z c location TypeA (dv_A dv n location) (generateA qname)
      else if q = TypeAAAA
      then ip_answer L h ns z c location TypeAAAA (dv_AAAA dv n location) (generateAAAA qname)
      else if q = TypeCNAME then lookup_answer (dv_CNAME dv n location) (\<lambda>r. CNAME_Value fqdn r qname) c
      else if q = TypeTXT then lookup_answer (dv_TXT dv n location) (\<lambda>r. TXT_Value r qname) c
      else if q = TypeNS then lookup_answer (dv_NS dv n location) (\<lambda>r. NS_Value fqdn r qname) c
      else if q = TypeMX then lookup_answer (dv_MX dv n location) (\<lambda>r. MX_Value fqdn r qname) c
      else if q = TypeSRV then lookup_answer (dv_SRV dv n location) (\<lambda>r. SRV_Value fqdn r qname) c
      else if q = TypeCAA
      then andThen (findCAA (lib_radix L) dv z qname) (\<lambda>caa.
             Inr (Inr (c, case caa of None \<Rightarrow> [] | Some r \<Rightarrow> CAA_Value r qname)))
      else if q = TypePTR then lookup_answer (dv_PTR dv n location) (\<lambda>r. PTR_Value fqdn r qname) c
      else if q = TypeTLSA then lookup_answer (dv_TLSA dv n location) (\<lambda>r. TLSA_Value r qname) c
      else if q = TypeSOA then andThen (ctx_soa c) (\<lambda>soa. Inr (Inr (c, [soa_record soa])))
      else if q = TypeDNSKEY then andThen (dnskey_answer z) (\<lambda>keys. Inr (Inr (c, keys)))
      else if q = TypeDS then Inr (Inr (c, []))
      else andThen (ctx_soa c) (\<lambda>soa.
             Inr (Inl (Break (c\<lparr>rc_Answer := [], rc_Authority := [soa_record soa], rc_Res := RcodeSuccess\<rparr>)))))"

text \<open>The end of an iteration: an empty answer is denied, with the SOA when the code is success.\<close>

definition finish_answer ::
  "'t libs \<Rightarrow> 't RequestContext \<Rightarrow> string \<Rightarrow> RR list \<Rightarrow> go_error + 't loop_step" where
  "finish_answer L c qname answer =
     (let c = c\<lparr>rc_Answer := rc_Answer c @ answer\<rparr> in
      if length answer = 0
      then andThen (addNSec c qname (QType (lib_msg L) (rc_Req c))) (\<lambda>c.
             if rc_Res c = RcodeSuccess
             then andThen (ctx_soa c) (\<lambda>soa.
                    Inr (Break (c\<lparr>rc_Authority := rc_Authority c @ [soa_record soa]\<rparr>)))
             else Inr (Break c))
      else Inr (Break c))"

text \<open>\<open>case types.WildCardMatch\<close> and \<open>case types.ExactMatch\<close>.\<close>

definition final_location ::
  "'t libs \<Rightarrow> 't DnsRequestHandler \<Rightarrow> nat \<Rightarrow> 't Zone \<Rightarrow> bool \<Rightarrow> 't RequestContext \<Rightarrow> string \<Rightarrow> string \<Rightarrow>
   go_error + 't loop_step" where
  "final_location L h ns z cnameFlattening c currentQName location =
     (let qname = (if cnameFlattening then raw_name c else currentQName)
      in andThen (final_answer L h ns z c qname location) (\<lambda>r.
           case r of Inl stp \<Rightarrow> Inr stp | Inr (c, answer) \<Rightarrow> finish_answer L c qname answer))"

definition exact_match ::
  "'t libs \<Rightarrow> 't DnsRequestHandler \<Rightarrow> nat \<Rightarrow> 't Zone \<Rightarrow> bool \<Rightarrow> string \<Rightarrow> 't RequestContext \<Rightarrow> string \<Rightarrow>
   string \<Rightarrow> go_error + 't loop_step" where
  "exact_match L h ns z cnameFlattening zoneName c currentQName location =
     (case dv_CNAME (h_RedisData h) (z_Name z) location of
        Inl _ \<Rightarrow> server_failure c
      | Inr cname \<Rightarrow>
          if \<not> CNAME_Empty cname \<and> QType (lib_msg L) (rc_Req c) \<noteq> TypeCNAME
          then (if \<not> cnameFlattening
                then Inr (Continue
                       (c\<lparr>rc_Answer := rc_Answer c @ CNAME_Value (lib_fqdn L) cname currentQName\<rparr>)
                       (lib_fqdn L (cname_Host cname)))
                else if dv_FindZone (h_RedisData h) (cname_Host cname) \<noteq> zoneName
                then Inr (Break (c\<lparr>rc_Answer := rc_Answer c @ CNAME_Value (lib_fqdn L) cname (raw_name c),
                                   rc_Res := RcodeSuccess\<rparr>))
                else Inr (Continue c (lib_fqdn L (cname_Host cname))))
          else if currentQName \<noteq> z_Name z
          then (case dv_NS (h_RedisData h) (z_Name z) location of
                  Inl _ \<Rightarrow> server_failure c
                | Inr nsset \<Rightarrow>
                    if \<not> NS_Empty nsset then delegation L h ns z c currentQName location nsset
                    else final_location L h ns z cnameFlattening c currentQName location)
          else final_location L h ns z cnameFlattening c currentQName location)"

definition resolve_step ::
  "'t libs \<Rightarrow> 't DnsRequestHandler \<Rightarrow> nat \<Rightarrow> 't Zone \<Rightarrow> bool \<Rightarrow> string \<Rightarrow> 't RequestContext \<Rightarrow> string \<Rightarrow>
   go_error + 't loop_step" where
  "resolve_step L h ns z cnameFlattening zoneName c currentQName =
     (if dv_FindZone (h_RedisData h) currentQName \<noteq> zoneName
      then let c = c\<lparr>rc_Res := RcodeSuccess\<rparr>
           in if length (rc_Answer c) = 0
              then andThen (addNSec c (raw_name c) (QType (lib_msg L) (rc_Req c))) (\<lambda>c. Inr (Break c))
              else Inr (Break c)
      else (case FindLocation (lib_radix L) z currentQName of (location, match) \<Rightarrow>
        (case match of
           NoMatch \<Rightarrow> no_match c currentQName
         | EmptyNonterminalMatch \<Rightarrow> empty_nonterminal c currentQName
         | CEMatch \<Rightarrow> ce_match L h ns z c zoneName currentQName location
         | WildCardMatch \<Rightarrow> exact_match L h ns z cnameFlattening zoneName c currentQName location
         | ExactMatch \<Rightarrow> exact_match L h ns z cnameFlattening zoneName c currentQName location)))"

section \<open>HandleRequest\<close>

text \<open>The loop \<open>for\<close>, with the number of iterations that its counter still allows.\<close>

fun resolve_loop ::
  "nat \<Rightarrow> 't libs \<Rightarrow> 't DnsRequestHandler \<Rightarrow> nat \<Rightarrow> 't Zone \<Rightarrow> bool \<Rightarrow> string \<Rightarrow> 't RequestContext \<Rightarrow>
   string \<Rightarrow> go_error + 't RequestContext" where
  "resolve_loop 0 L h ns z cnameFlattening zoneName c currentQName =
     Inr (c\<lparr>rc_Answer := [], rc_Res := RcodeServerFailure\<rparr>)"
| "resolve_loop (Suc n) L h ns z cnameFlattening zoneName c currentQName =
     andThen (resolve_step L h ns z cnameFlattening zoneName c currentQName) (\<lambda>stp.
       case stp of
         Break c \<Rightarrow> Inr c
       | Continue c qname \<Rightarrow> resolve_loop n L h ns z cnameFlattening zoneName c qname)"

definition log_source :: "'t DnsRequestHandler \<Rightarrow> 't RequestContext \<Rightarrow> 't RequestContext" where
  "log_source h c =
     (if h_LogSourceLocation h
      then c\<lparr>rc_SourceCountry := (case GetCountry (h_geoip h) (rc_SourceIp c) of Inl _ \<Rightarrow> [] | Inr x \<Rightarrow> x),
             rc_SourceASN := (case GetASN (h_geoip h) (rc_SourceIp c) of Inl _ \<Rightarrow> 0 | Inr x \<Rightarrow> x)\<rparr>
      else c)"

text \<open>
  The cookie \<open>switch\<close>: \<open>Inl\<close> is a context for which the handler has returned, \<open>Inr\<close> one
  with which it goes on.
\<close>

definition cookie_stage ::
  "'t libs \<Rightarrow> 't DnsRequestHandler \<Rightarrow> int \<Rightarrow> 't RequestContext \<Rightarrow>
   ClientCookie option \<times> ServerCookie option \<times> go_error option \<Rightarrow> 't RequestContext + 't RequestContext" where
  "cookie_stage L h now c = (\<lambda>(cCookie, sCookie, err).
     let client = (case cCookie of None \<Rightarrow> [] | Some x \<Rightarrow> x);
         bad = Inl (Response (lib_msg L)
                 (SetNewCookie (lib_siphash L) now (c\<lparr>rc_Res := RcodeBadCookie\<rparr>) client (h_cookieSecret h)))
     in if err = Some CookieErrorNoCookie then Inr c
        else if err = Some CookieErrorBadFormat
        then Inr (Response (lib_msg L) (c\<lparr>rc_Res := RcodeFormatError\<rparr>))
        else (case sCookie of
                Some s \<Rightarrow>
                  if CheckCookie (lib_siphash L) now c client s (h_cookieSecret h)
                  then Inr (CopyCookie (lib_siphash L) now c client s (h_cookieSecret h))
                  else bad
              | None \<Rightarrow> bad))"

definition resolve ::
  "'t libs \<Rightarrow> 't DnsRequestHandler \<Rightarrow> int \<Rightarrow> 't RequestContext \<Rightarrow> go_error + 't RequestContext" where
  "resolve L h now c =
     (let zoneName = dv_FindZone (h_RedisData h) (raw_name c) in
      if zoneName = [] then Inr (Response (lib_msg L) (c\<lparr>rc_Res := RcodeNotAuth\<rparr>))
      else andThen (dv_GetZone (h_RedisData h) zoneName) (\<lambda>found.
        case found of
          None \<Rightarrow> Inr (Response (lib_msg L) (c\<lparr>rc_zone := None, rc_Res := RcodeServerFailure\<rparr>))
        | Some z \<Rightarrow>
            let c = c\<lparr>rc_zone := Some z, rc_DomainUid := zc_DomainId (z_Config z),
                      rc_dnssec := Do (lib_msg L) (rc_Req c) \<and> rc_Auth c \<and> zc_DnsSec (z_Config z)\<rparr>;
                cnameFlattening = (rc_dnssec c \<or> zc_CnameFlattening (z_Config z))
            in andThen (resolve_loop 11 L h (nat (now mod second)) z cnameFlattening zoneName c (raw_name c))
                 (\<lambda>c. andThen (applyDnssec L c) (\<lambda>c. Inr (Response (lib_msg L) c)))))"

definition HandleRequest ::
  "'t libs \<Rightarrow> 't DnsRequestHandler \<Rightarrow> int \<Rightarrow> 't RequestContext \<Rightarrow> go_error + 't RequestContext" where
  "HandleRequest L h now c =
     (let c = log_source h (snd (RawName c)) in
      andThen (GetCookie (lib_msg L) (rc_Req c)) (\<lambda>cookie.
        case cookie_stage L h now c cookie of
          Inl c \<Rightarrow> Inr c
        | Inr c \<Rightarrow> resolve L h now c))"

end
