(* ===== verification/HandlerProps.thy ===== *)
theory HandlerProps
  imports Handler
begin

text \<open>
  Properties of the request handler: it ends and answers, it answers once, chains of CNAME
  records are bounded, and the shape of the answers and denials.
\<close>

section \<open>What a request keeps\<close>

text \<open>The part of a context that no step of the resolution changes.\<close>

definition same_request :: "'t RequestContext \<Rightarrow> 't RequestContext \<Rightarrow> bool" where
  "same_request c c' \<longleftrightarrow> rc_W c' = rc_W c \<and> rc_Req c' = rc_Req c \<and> rc_zone c' = rc_zone c \<and>
     rc_dnssec c' = rc_dnssec c \<and> rc_SourceIp c' = rc_SourceIp c \<and> rc_name c' = rc_name c"

fun step_ctx :: "'t loop_step \<Rightarrow> 't RequestContext" where
  "step_ctx (Break c) = c"
| "step_ctx (Continue c _) = c"

lemma same_request_refl [simp]: "same_request c c"
  by (simp add: same_request_def)

lemma same_request_trans: "same_request a b \<Longrightarrow> same_request b c \<Longrightarrow> same_request a c"
  by (simp add: same_request_def)

lemma same_request_updates [simp]:
  "same_request a (c\<lparr>rc_Res := r\<rparr>) \<longleftrightarrow> same_request a c"
  "same_request a (c\<lparr>rc_Answer := x\<rparr>) \<longleftrightarrow> same_request a c"
  "same_request a (c\<lparr>rc_Authority := x\<rparr>) \<longleftrightarrow> same_request a c"
  "same_request a (c\<lparr>rc_Additional := x\<rparr>) \<longleftrightarrow> same_request a c"
  "same_request (c\<lparr>rc_Res := r\<rparr>) a \<longleftrightarrow> same_request c a"
  "same_request (c\<lparr>rc_Answer := x\<rparr>) a \<longleftrightarrow> same_request c a"
  "same_request (c\<lparr>rc_Authority := x\<rparr>) a \<longleftrightarrow> same_request c a"
  "same_request (c\<lparr>rc_Additional := x\<rparr>) a \<longleftrightarrow> same_request c a"
  by (simp_all add: same_request_def)

lemma raw_name_updates [simp]:
  "raw_name (c\<lparr>rc_Res := r\<rparr>) = raw_name c"
  "raw_name (c\<lparr>rc_Answer := x\<rparr>) = raw_name c"
  "raw_name (c\<lparr>rc_Authority := x\<rparr>) = raw_name c"
  "raw_name (c\<lparr>rc_Additional := x\<rparr>) = raw_name c"
  by (simp_all add: raw_name_def RawName_def Let_def)

lemma ctx_soa_updates [simp]:
  "ctx_soa (c\<lparr>rc_Res := r\<rparr>) = ctx_soa c"
  "ctx_soa (c\<lparr>rc_Answer := x\<rparr>) = ctx_soa c"
  "ctx_soa (c\<lparr>rc_Authority := x\<rparr>) = ctx_soa c"
  "ctx_soa (c\<lparr>rc_Additional := x\<rparr>) = ctx_soa c"
  by (simp_all add: ctx_soa_def ctx_zone_def)

lemma addNSec_same: "addNSec c name qtype = Inr c' \<Longrightarrow> same_request c c'"
  by (auto simp: addNSec_def andThen_Inr_iff Let_def split: if_splits)

lemma add_glue_same: "add_glue L h ns z nsset c = Inr s \<Longrightarrow> same_request c (step_ctx s)"
  by (auto simp: add_glue_def andThen_Inr_iff)

lemma no_match_same: "no_match c q = Inr s \<Longrightarrow> same_request c (step_ctx s)"
  by (auto simp: no_match_def andThen_Inr_iff dest: addNSec_same)

lemma empty_nonterminal_same: "empty_nonterminal c q = Inr s \<Longrightarrow> same_request c (step_ctx s)"
  by (auto simp: empty_nonterminal_def andThen_Inr_iff dest: addNSec_same)

lemma server_failure_same: "server_failure c = Inr s \<Longrightarrow> same_request c (step_ctx s)"
  by (auto simp: server_failure_def)

lemma ce_match_same:
  "ce_match L h ns z c zn q l = Inr s \<Longrightarrow> same_request c (step_ctx s)"
  by (auto simp: ce_match_def andThen_Inr_iff Let_def split: sum.splits if_splits
      dest!: addNSec_same server_failure_same add_glue_same intro: same_request_trans)

lemma delegation_same:
  "delegation L h ns z c q l nsset = Inr s \<Longrightarrow> same_request c (step_ctx s)"
  by (auto simp: delegation_def andThen_Inr_iff Let_def split: sum.splits if_splits
      dest!: addNSec_same server_failure_same add_glue_same intro: same_request_trans)

lemma finish_answer_same:
  "finish_answer L c q ans = Inr s \<Longrightarrow> same_request c (step_ctx s)"
  by (auto simp: finish_answer_def andThen_Inr_iff Let_def split: if_splits dest!: addNSec_same)

lemma ip_answer_same:
  "ip_answer L h ns z c l q found gen = Inr r \<Longrightarrow>
   (case r of Inl s \<Rightarrow> same_request c (step_ctx s) | Inr (c', _) \<Rightarrow> same_request c c')"
  by (auto simp: ip_answer_def andThen_Inr_iff split: sum.splits if_splits)

lemma lookup_answer_same:
  "lookup_answer found f c = Inr r \<Longrightarrow>
   (case r of Inl s \<Rightarrow> same_request c (step_ctx s) | Inr (c', _) \<Rightarrow> same_request c c')"
  by (auto simp: lookup_answer_def split: sum.splits)

lemma final_answer_same:
  "final_answer L h ns z c q l = Inr r \<Longrightarrow>
   (case r of Inl s \<Rightarrow> same_request c (step_ctx s) | Inr (c', _) \<Rightarrow> same_request c c')"
  unfolding final_answer_def Let_def
  by (auto simp: andThen_Inr_iff dest: ip_answer_same lookup_answer_same split: if_splits)

lemma final_location_same:
  "final_location L h ns z fl c q l = Inr s \<Longrightarrow> same_request c (step_ctx s)"
proof -
  let ?q = "if fl then raw_name c else q"
  assume "final_location L h ns z fl c q l = Inr s"
  then obtain r where r: "final_answer L h ns z c ?q l = Inr r"
    and s: "(case r of Inl stp \<Rightarrow> Inr stp | Inr (c, answer) \<Rightarrow> finish_answer L c ?q answer) = Inr s"
    by (auto simp: final_location_def andThen_Inr_iff Let_def)
  show ?thesis
    using final_answer_same [OF r] s
    by (cases r) (auto dest: finish_answer_same intro: same_request_trans)
qed

lemma exact_match_same:
  "exact_match L h ns z fl zn c q l = Inr s \<Longrightarrow> same_request c (step_ctx s)"
  by (auto simp: exact_match_def Let_def split: sum.splits if_splits
      dest: final_location_same delegation_same server_failure_same)

lemma resolve_step_same:
  "resolve_step L h ns z fl zn c q = Inr s \<Longrightarrow> same_request c (step_ctx s)"
  by (auto simp: resolve_step_def Let_def andThen_Inr_iff split: prod.splits Match.splits if_splits
      dest: addNSec_same no_match_same empty_nonterminal_same ce_match_same exact_match_same)

lemma resolve_loop_same:
  "resolve_loop n L h ns z fl zn c q = Inr c' \<Longrightarrow> same_request c c'"
proof (induction n arbitrary: c q)
  case (Suc n)
  then obtain s where s: "resolve_step L h ns z fl zn c q = Inr s"
    by (auto simp: andThen_Inr_iff)
  with Suc.prems Suc.IH show ?case
    by (cases s) (auto dest: resolve_step_same intro: same_request_trans)
qed auto

section \<open>Responses\<close>

abbreviation written :: "'t RequestContext \<Rightarrow> Msg list" where
  "written c \<equiv> w_Written (rc_W c)"

lemma Response_written: "length (written (Response A c)) = Suc (length (written c))"
  by (simp add: Response_def WriteMsg_def Let_def)

lemma setCookie_W [simp]: "rc_W (setCookie c s) = rc_W c"
  by (auto simp: setCookie_def Let_def split: option.splits)

lemma new_cookie_W [simp]:
  "rc_W (SetNewCookie f now c cc k) = rc_W c" "rc_W (CopyCookie f now c cc sc k) = rc_W c"
  by (simp_all add: SetNewCookie_def CopyCookie_def)

lemma applyDnssec_W: "applyDnssec L c = Inr c' \<Longrightarrow> rc_W c' = rc_W c"
  by (auto simp: applyDnssec_def andThen_Inr_iff split: if_splits)

lemma resolve_written:
  assumes "resolve L h now c = Inr c'"
  shows "length (written c') = Suc (length (written c))"
  using assms
  by (auto simp: resolve_def Let_def andThen_Inr_iff Response_written same_request_def
      dest!: resolve_loop_same applyDnssec_W split: if_splits option.splits)

lemma log_source_W [simp]: "rc_W (log_source h c) = rc_W c" "rc_Req (log_source h c) = rc_Req c"
  by (simp_all add: log_source_def)

lemma RawName_W [simp]: "rc_W (snd (RawName c)) = rc_W c" "rc_Req (snd (RawName c)) = rc_Req c"
  by (simp_all add: RawName_def Let_def)

definition malformed_cookie :: "msg_api \<Rightarrow> Msg \<Rightarrow> bool" where
  "malformed_cookie A r \<longleftrightarrow> (\<exists>cc sc. GetCookie A r = Inr (cc, sc, Some CookieErrorBadFormat))"

lemma responses_counted:
  assumes "HandleRequest L h now c = Inr c'"
  shows "length (written c') =
    length (written c) + (if malformed_cookie (lib_msg L) (rc_Req c) then 2 else 1)"
proof -
  let ?c = "log_source h (snd (RawName c))"
  obtain cc sc err where cookie: "GetCookie (lib_msg L) (rc_Req c) = Inr (cc, sc, err)"
    and rest: "(case cookie_stage L h now ?c (cc, sc, err) of
        Inl c \<Rightarrow> Inr c | Inr c \<Rightarrow> resolve L h now c) = Inr c'"
    using assms by (auto simp: HandleRequest_def Let_def andThen_Inr_iff)
  have mal: "malformed_cookie (lib_msg L) (rc_Req c) \<longleftrightarrow> err = Some CookieErrorBadFormat"
    using cookie by (simp add: malformed_cookie_def)
  show ?thesis
  proof (cases "cookie_stage L h now ?c (cc, sc, err)")
    case (Inl d)
    then have "length (written d) = Suc (length (written c))" "err \<noteq> Some CookieErrorBadFormat"
      by (auto simp: cookie_stage_def Let_def Response_written split: if_splits option.splits)
    with Inl rest mal show ?thesis by simp
  next
    case (Inr d)
    then have "length (written d) = length (written c) + (if err = Some CookieErrorBadFormat then 1 else 0)"
      by (auto simp: cookie_stage_def Let_def Response_written CookieErrorNoCookie_def
          CookieErrorBadFormat_def split: if_splits option.splits)
    with Inr rest mal show ?thesis by (auto dest: resolve_written)
  qed
qed

section \<open>The handler ends\<close>

text \<open>
  What the handler relies on: the location tree of a zone is the one \<open>NewZone\<close> builds, a zone
  has an SOA record, and a signed zone has both keys and the signature of its key set.  Weights
  are not negative and their total does not overflow.  The functions that fill the view, in
  the storage component, provide it.
\<close>

definition served_zone :: "'t libs \<Rightarrow> 't Zone \<Rightarrow> bool" where
  "served_zone L z \<longleftrightarrow>
     z_LocationsTree z = locations_tree (lib_radix L) (z_LocationsList z) \<and>
     zc_SOA (z_Config z) \<noteq> None \<and>
     (zc_DnsSec (z_Config z) \<longrightarrow>
        (\<exists>zsk ksk ksig. z_ZSK z = Some zsk \<and> z_KSK z = Some ksk \<and> z_DnsKeySig z = Some ksig \<and>
           hdr_Rrtype (Header ksig) = TypeRRSIG \<and> signs_with (lib_crypto L) zsk))"

definition sane_ips :: "IP_RRSet \<Rightarrow> bool" where
  "sane_ips r \<longleftrightarrow> (\<forall>x \<in> set (ips_Data r). 0 \<le> ip_Weight x) \<and> total_weight (ips_Data r) < 2 ^ 63"

definition good_view :: "'t libs \<Rightarrow> 't data_view \<Rightarrow> bool" where
  "good_view L dv \<longleftrightarrow> radix_tree (lib_radix L) \<and> (\<forall>x. mset (lib_ord L x) = mset x) \<and>
     (\<forall>n. \<exists>found. dv_GetZone dv n = Inr found \<and> (\<forall>z. found = Some z \<longrightarrow> served_zone L z)) \<and>
     (\<forall>n l r. dv_A dv n l = Inr r \<or> dv_AAAA dv n l = Inr r \<longrightarrow> sane_ips r)"

lemma count_TrimSuffix: "count_list (TrimSuffix s p) x \<le> count_list s x"
proof -
  have "count_list (take n s) x \<le> count_list s x" for n
    by (metis append_take_drop_id count_list_append le_add1)
  then show ?thesis by (simp add: TrimSuffix_def)
qed

lemma find_location_spec_dots:
  "count_list (fst (find_location_spec locs q)) (CHR ''.'') \<le> count_list q (CHR ''.'')"
proof -
  have "count_list a (CHR ''.'') < count_list q (CHR ''.'')"
    if "closest_encloser locs q = Some a" "\<not> zone_node locs q" for a
  proof -
    have "a \<in> set (enclosers q)" "a \<noteq> q"
      using that by (auto simp: closest_encloser_def dest: find_Some_in)
    then show ?thesis by (auto simp: mem_enclosers)
  qed
  then show ?thesis
    by (auto simp: find_location_spec_def Suc_le_eq less_imp_le split: option.splits)
qed

lemma FindLocation_dots:
  assumes "radix_tree R" and "z_LocationsTree z = locations_tree R locs"
  shows "count_list (fst (FindLocation R z q)) (CHR ''.'') \<le> count_list q (CHR ''.'')"
proof -
  have "FindLocation R z q = (if q = z_Name z then (''@'', ExactMatch)
     else find_location_spec locs (TrimSuffix q (''.'' @ z_Name z)))"
    using radix_tree.find_location_tree [OF assms(1), of z locs q] assms(2) by simp
  then show ?thesis
    using find_location_spec_dots [of locs "TrimSuffix q (''.'' @ z_Name z)"]
      count_TrimSuffix [of q "''.'' @ z_Name z" "CHR ''.''"] by (auto intro: le_trans)
qed

lemma findCAA_loop_ends:
  assumes R: "radix_tree R" and z: "z_LocationsTree z = locations_tree R locs"
  shows "\<exists>r. findCAA_loop R dv z cur = Some r"
proof (induction "count_list cur (CHR ''.'')" arbitrary: cur rule: less_induct)
  case less
  show ?case
  proof (cases "CHR ''.'' \<in> set cur")
    case True
    let ?rest = "tl (dropWhile (\<lambda>c. c \<noteq> CHR ''.'') cur)"
    have dots: "count_list cur (CHR ''.'') = Suc (count_list ?rest (CHR ''.''))"
      using True by (rule count_list_tl_dropWhile)
    have rest: "\<exists>r. findCAA_loop R dv z ?rest = Some r"
      using less [of ?rest] dots by simp
    obtain l m where lm: "FindLocation R z ?rest = (l, m)" by force
    have "\<exists>r. findCAA_loop R dv z l = Some r"
      using less [of l] dots FindLocation_dots [OF R z, of ?rest] lm by simp
    with rest lm True show ?thesis
      by (subst findCAA_loop.simps) (auto split: sum.splits)
  next
    case False
    then show ?thesis by (subst findCAA_loop.simps) simp
  qed
qed

lemma findCAA_ends:
  assumes "radix_tree R" and "z_LocationsTree z = locations_tree R locs"
  shows "\<exists>r. findCAA R dv z q = Inr r"
proof -
  obtain r where "findCAA_loop R dv z (fst (FindLocation R z q)) = Some r"
    using findCAA_loop_ends [OF assms] by blast
  then show ?thesis
    by (auto simp: findCAA_def Let_def split: sum.splits option.splits)
qed

lemma filterIps_ends:
  assumes "sane_ips r"
  shows "\<exists>ips. filterIps g ns src r = Inr ips"
  using filter_ips_result [of r g ns src] assms by (auto simp: sane_ips_def)

text \<open>The handler in the middle of a request, for a zone that is served.\<close>

definition serving :: "'t libs \<Rightarrow> 't DnsRequestHandler \<Rightarrow> 't Zone \<Rightarrow> 't RequestContext \<Rightarrow> bool" where
  "serving L h z c \<longleftrightarrow> good_view L (h_RedisData h) \<and> rc_zone c = Some z \<and> served_zone L z \<and>
     (rc_dnssec c \<longrightarrow> zc_DnsSec (z_Config z))"

lemma serving_same: "serving L h z c \<Longrightarrow> same_request c c' \<Longrightarrow> serving L h z c'"
  by (simp add: serving_def same_request_def)

lemma serving_updates [simp]:
  "serving L h z (c\<lparr>rc_Res := r\<rparr>) = serving L h z c"
  "serving L h z (c\<lparr>rc_Answer := x\<rparr>) = serving L h z c"
  "serving L h z (c\<lparr>rc_Authority := x\<rparr>) = serving L h z c"
  "serving L h z (c\<lparr>rc_Additional := x\<rparr>) = serving L h z c"
  by (simp_all add: serving_def)

lemma serving_soa: "serving L h z c \<Longrightarrow> ends (ctx_soa c)"
  by (auto simp: serving_def ctx_soa_def ctx_zone_def served_zone_def)

lemma serving_zone: "serving L h z c \<Longrightarrow> ctx_zone c = Inr z"
  by (auto simp: serving_def ctx_zone_def)

lemma addNSec_ends: "serving L h z c \<Longrightarrow> ends (addNSec c name qtype)"
  unfolding addNSec_def Let_def
  by (intro ends_rules) (auto simp: serving_soa serving_zone)

lemma addNSec_serving: "addNSec c name qtype = Inr c' \<Longrightarrow> serving L h z c \<Longrightarrow> serving L h z c'"
  using addNSec_same serving_same by blast

lemma filtered_ends:
  assumes "serving L h z c"
    and "dv_A (h_RedisData h) n l = Inr r \<or> dv_AAAA (h_RedisData h) n l = Inr r"
  shows "ends (filterIps g ns src r)"
  unfolding ends_def using assms by (intro filterIps_ends) (auto simp: serving_def good_view_def)

lemma glue_for_ends: "serving L h z c \<Longrightarrow> ends (glue_for L h ns z src host)"
  unfolding glue_for_def by (intro ends_rules) (auto dest: filtered_ends)

lemma add_glue_ends: "serving L h z c \<Longrightarrow> ends (add_glue L h ns z nsset c)"
  unfolding add_glue_def by (intro ends_rules ends_traverse) (rule glue_for_ends)

lemma no_match_ends: "serving L h z c \<Longrightarrow> ends (no_match c q)"
  unfolding no_match_def by (intro ends_rules addNSec_ends) (auto intro: serving_soa)

lemma empty_nonterminal_ends: "serving L h z c \<Longrightarrow> ends (empty_nonterminal c q)"
  unfolding empty_nonterminal_def by (intro ends_rules addNSec_ends) (auto intro: serving_soa)

lemma server_failure_ends: "ends (server_failure c)"
  by (simp add: server_failure_def)

lemma ce_match_ends: "serving L h z c \<Longrightarrow> ends (ce_match L h ns z c zn q l)"
  unfolding ce_match_def Let_def
  by (intro ends_rules addNSec_ends add_glue_ends server_failure_ends)
    (auto intro: serving_soa dest: addNSec_serving split: if_splits)

lemma delegation_ends: "serving L h z c \<Longrightarrow> ends (delegation L h ns z c q l nsset)"
  unfolding delegation_def Let_def
  by (intro ends_rules addNSec_ends add_glue_ends server_failure_ends)
    (auto dest: addNSec_serving)

lemma findANAME_loop_ends: "serving L h z c \<Longrightarrow> ends (findANAME_loop n L h ns z src q t)"
proof (induction n arbitrary: q)
  case (Suc n)
  show ?case
    unfolding findANAME_loop.simps Let_def
    by (intro ends_rules Suc) (auto intro: filtered_ends [OF Suc.prems])
qed simp

lemma ip_answer_ends:
  "serving L h z c \<Longrightarrow>
   (\<And>a. found = Inr a \<Longrightarrow> ends (filterIps (h_geoip h) ns (rc_SourceIp c) a)) \<Longrightarrow>
   ends (ip_answer L h ns z c l t found gen)"
  unfolding ip_answer_def findANAME_def by (intro ends_rules findANAME_loop_ends) auto

lemma lookup_answer_ends: "ends (lookup_answer found f c)"
  unfolding lookup_answer_def by (intro ends_rules)

lemma dnskey_answer_ends: "serving L h z c \<Longrightarrow> ends (dnskey_answer z)"
  by (auto simp: dnskey_answer_def serving_def served_zone_def)

lemma findCAA_serving_ends: "serving L h z c \<Longrightarrow> ends (findCAA (lib_radix L) dv z q)"
  using findCAA_ends [of "lib_radix L" z "z_LocationsList z" dv q]
  by (auto simp: ends_def serving_def served_zone_def good_view_def)

lemma final_answer_ends: "serving L h z c \<Longrightarrow> ends (final_answer L h ns z c q l)"
  unfolding final_answer_def Let_def
  by (intro ends_rules ip_answer_ends lookup_answer_ends)
    (auto intro: filtered_ends findCAA_serving_ends dnskey_answer_ends serving_soa)

lemma finish_answer_ends: "serving L h z c \<Longrightarrow> ends (finish_answer L c q ans)"
  unfolding finish_answer_def Let_def
  by (intro ends_rules addNSec_ends) (auto intro: serving_soa dest: addNSec_serving)

lemma final_location_ends: "serving L h z c \<Longrightarrow> ends (final_location L h ns z fl c q l)"
  unfolding final_location_def Let_def
  by (intro ends_rules final_answer_ends finish_answer_ends)
    (auto dest!: final_answer_same intro: serving_same)

lemma exact_match_ends: "serving L h z c \<Longrightarrow> ends (exact_match L h ns z fl zn c q l)"
  unfolding exact_match_def
  by (intro ends_rules server_failure_ends delegation_ends final_location_ends)

lemma resolve_step_ends: "serving L h z c \<Longrightarrow> ends (resolve_step L h ns z fl zn c q)"
  unfolding resolve_step_def Let_def
  by (intro ends_rules addNSec_ends)
    (auto intro: no_match_ends empty_nonterminal_ends ce_match_ends exact_match_ends split: Match.splits)

lemma resolve_loop_ends: "serving L h z c \<Longrightarrow> ends (resolve_loop n L h ns z fl zn c q)"
proof (induction n arbitrary: c q)
  case (Suc n)
  show ?case
    unfolding resolve_loop.simps
  proof (intro ends_andThen resolve_step_ends Suc.prems)
    fix stp assume "resolve_step L h ns z fl zn c q = Inr stp"
    from resolve_step_same [OF this] Suc show
      "ends (case stp of Break c \<Rightarrow> Inr c | Continue c qname \<Rightarrow> resolve_loop n L h ns z fl zn c qname)"
      by (cases stp) (auto intro: serving_same)
  qed
qed simp

lemma sign_ends:
  assumes "serving L h z c" and "zc_DnsSec (z_Config z)"
  shows "ends (SignResponse (lib_crypto L) (lib_ord L) rrs q z)"
proof -
  obtain zsk ksig where "signs_with (lib_crypto L) zsk" "z_ZSK z = Some zsk" "z_DnsKeySig z = Some ksig"
    using assms by (auto simp: serving_def served_zone_def)
  then show ?thesis
    using sign_response_sets [of "lib_ord L" rrs "lib_crypto L" zsk z ksig q] assms(1)
    by (auto simp: ends_def serving_def good_view_def)
qed

lemma applyDnssec_ends: "serving L h z c \<Longrightarrow> ends (applyDnssec L c)"
  unfolding applyDnssec_def
  by (intro ends_rules) (auto simp: serving_zone intro: sign_ends simp: serving_def)

lemma resolve_ends:
  assumes "good_view L (h_RedisData h)" shows "ends (resolve L h now c)"
proof -
  let ?n = "dv_FindZone (h_RedisData h) (raw_name c)"
  obtain found where found: "dv_GetZone (h_RedisData h) ?n = Inr found"
    and good: "\<And>z. found = Some z \<Longrightarrow> served_zone L z"
    using assms unfolding good_view_def by blast
  show ?thesis
  proof (cases found)
    case None
    then show ?thesis using found by (simp add: resolve_def Let_def)
  next
    case (Some z)
    let ?c = "c\<lparr>rc_zone := Some z, rc_DomainUid := zc_DomainId (z_Config z),
       rc_dnssec := Do (lib_msg L) (rc_Req c) \<and> rc_Auth c \<and> zc_DnsSec (z_Config z)\<rparr>"
    have srv: "serving L h z ?c" using assms good Some by (simp add: serving_def)
    have loop: "ends (andThen (resolve_loop 11 L h (nat (now mod second)) z fl ?n ?c q)
        (\<lambda>c. andThen (applyDnssec L c) (\<lambda>c. Inr (Response (lib_msg L) c))))" for fl q
      using serving_same [OF srv resolve_loop_same]
      by (intro ends_andThen resolve_loop_ends [OF srv] applyDnssec_ends) auto
    show ?thesis
      using found Some loop by (simp add: resolve_def Let_def)
  qed
qed

definition typed_options :: "msg_api \<Rightarrow> Msg \<Rightarrow> bool" where
  "typed_options A r \<longleftrightarrow> (\<forall>opt. IsEdns0 A r = Some opt \<longrightarrow> EDNS0_OTHER 10 \<notin> set (opt_Option opt))"

lemma find_cookie_ends: "EDNS0_OTHER 10 \<notin> set os \<Longrightarrow> ends (find_cookie os)"
proof (induction os)
  case (Cons opt os)
  then show ?case by (cases opt) auto
qed simp

lemma GetCookie_ends: "typed_options A r \<Longrightarrow> ends (GetCookie A r)"
  by (auto simp: GetCookie_def typed_options_def find_cookie_ends split: option.splits)

lemma HandleRequest_ends:
  assumes "good_view L (h_RedisData h)" and "typed_options (lib_msg L) (rc_Req c)"
  shows "ends (HandleRequest L h now c)"
  unfolding HandleRequest_def Let_def
  by (intro ends_rules resolve_ends assms) (simp add: GetCookie_ends assms)

text \<open>
  Every request is answered.  For a view of the database as the storage component
  provides it, the handler ends without a panic for any request, and writes exactly one
  response, two for a request with a malformed cookie.
\<close>

lemma handle_request_answers:
  assumes "good_view L (h_RedisData h)" and "typed_options (lib_msg L) (rc_Req c)"
  shows "\<exists>c'. HandleRequest L h now c = Inr c' \<and>
    length (written c') = length (written c) + (if malformed_cookie (lib_msg L) (rc_Req c) then 2 else 1)"
  using HandleRequest_ends [OF assms, of now] responses_counted by (fastforce simp: ends_def)

section \<open>A small server\<close>

text \<open>
  A concrete handler on which the properties are instantiated: one unsigned zone with a
  text record at \<open>a\<close> and an alias of itself at \<open>c\<close>.
\<close>

definition toy_zone :: "alist_tree Zone" where
  "toy_zone =
     \<lparr>z_Name = ''z.'', z_Config = default_config 0 ''z.'',
      z_LocationsTree = locations_tree alist_radix [''@'', ''a'', ''c''],
      z_LocationsList = [''@'', ''a'', ''c''], z_ZSK = None, z_KSK = None,
      z_DnsKeySig = None, z_CacheTimeout = 0\<rparr>"

definition toy_view :: "alist_tree data_view" where
  "toy_view =
     \<lparr>dv_FindZone = (\<lambda>q. if q = ''z.'' \<or> HasSuffix q ''.z.'' then ''z.'' else []),
      dv_GetZone = (\<lambda>n. Inr (if n = ''z.'' then Some toy_zone else None)),
      dv_A = (\<lambda>_ _. Inr zero_IP), dv_AAAA = (\<lambda>_ _. Inr zero_IP),
      dv_CNAME = (\<lambda>_ l. Inr (if l = ''c'' then \<lparr>TtlValue = 60, cname_Host = ''c.z.''\<rparr> else zero_CNAME)),
      dv_TXT = (\<lambda>_ l. Inr (if l = ''a'' then \<lparr>TtlValue = 60, txt_Data = [''t'']\<rparr> else zero_TXT)),
      dv_NS = (\<lambda>_ _. Inr zero_NS), dv_MX = (\<lambda>_ _. Inr zero_MX), dv_SRV = (\<lambda>_ _. Inr zero_SRV),
      dv_CAA = (\<lambda>_ _. Inr zero_CAA), dv_PTR = (\<lambda>_ _. Inr zero_PTR), dv_TLSA = (\<lambda>_ _. Inr zero_TLSA),
      dv_DS = (\<lambda>_ _. Inr zero_DS), dv_ANAME = (\<lambda>_ _. Inr zero_ANAME)\<rparr>"

definition toy_libs :: "alist_tree libs" where
  "toy_libs = \<lparr>lib_radix = alist_radix, lib_fqdn = append_dot, lib_msg = plain_api,
     lib_crypto = toy_crypto, lib_ord = id, lib_siphash = toy_sip\<rparr>"

definition toy_handler :: "alist_tree DnsRequestHandler" where
  "toy_handler = \<lparr>h_LogSourceLocation = False, h_RedisData = toy_view, h_geoip = sample_geo,
     h_upstream = (\<lambda>_ _. ([], RcodeServerFailure)), h_cookieSecret = replicate 16 0\<rparr>"

definition toy_query :: "string \<Rightarrow> uint16 \<Rightarrow> Msg" where
  "toy_query name t = new_Msg\<lparr>msg_Question := [\<lparr>qn_Name = name, qn_Qtype = t, qn_Qclass = ClassINET\<rparr>]\<rparr>"

definition toy_context :: "string \<Rightarrow> uint16 \<Rightarrow> alist_tree RequestContext" where
  "toy_context name t = (NewRequestContext plain_api 0 plain_writer (toy_query name t))\<lparr>rc_zone := Some toy_zone\<rparr>"

lemma toy_good: "good_view toy_libs toy_view"
  using alist.radix_tree_axioms
  by (auto simp: good_view_def toy_libs_def toy_view_def served_zone_def toy_zone_def default_config_def
      sane_ips_def zero_IP_def total_weight_def split: if_splits)

lemma toy_serving: "serving toy_libs toy_handler toy_zone (toy_context name t)"
  using toy_good
  by (auto simp: serving_def good_view_def toy_handler_def toy_context_def toy_view_def toy_zone_def
      served_zone_def toy_libs_def default_config_def NewRequestContext_def)

section \<open>Chains of aliases\<close>

text \<open>The name an alias in the zone leads to.\<close>

definition alias_of ::
  "'t libs \<Rightarrow> 't DnsRequestHandler \<Rightarrow> 't Zone \<Rightarrow> string \<Rightarrow> string option" where
  "alias_of L h z q =
     (case (FindLocation (lib_radix L) z q) of (l, m) \<Rightarrow>
        if dv_FindZone (h_RedisData h) q = z_Name z \<and> m \<in> {ExactMatch, WildCardMatch}
        then (case dv_CNAME (h_RedisData h) (z_Name z) l of
                Inl _ \<Rightarrow> None
              | Inr cname \<Rightarrow>
                  if \<not> CNAME_Empty cname \<and> dv_FindZone (h_RedisData h) (cname_Host cname) = z_Name z
                  then Some (lib_fqdn L (cname_Host cname)) else None)
        else None)"

fun alias_chain :: "nat \<Rightarrow> 't libs \<Rightarrow> 't DnsRequestHandler \<Rightarrow> 't Zone \<Rightarrow> string \<Rightarrow> bool" where
  "alias_chain 0 L h z q = True"
| "alias_chain (Suc n) L h z q =
     (case alias_of L h z q of None \<Rightarrow> False | Some q' \<Rightarrow> alias_chain n L h z q')"

lemma alias_step:
  assumes "alias_of L h z q = Some q'" and "QType (lib_msg L) (rc_Req c) \<noteq> TypeCNAME"
  shows "\<exists>ans. resolve_step L h ns z fl (z_Name z) c q = Inr (Continue (c\<lparr>rc_Answer := ans\<rparr>) q')"
proof -
  obtain l m where lm: "FindLocation (lib_radix L) z q = (l, m)" by force
  then obtain cname where zn: "dv_FindZone (h_RedisData h) q = z_Name z"
    and m: "m = ExactMatch \<or> m = WildCardMatch"
    and cname: "dv_CNAME (h_RedisData h) (z_Name z) l = Inr cname" "\<not> CNAME_Empty cname"
      "dv_FindZone (h_RedisData h) (cname_Host cname) = z_Name z"
    and q': "q' = lib_fqdn L (cname_Host cname)"
    using assms(1) by (auto simp: alias_of_def split: sum.splits if_splits)
  have same: "c\<lparr>rc_Answer := rc_Answer c\<rparr> = c" by simp
  have "\<exists>ans. exact_match L h ns z fl (z_Name z) c q l = Inr (Continue (c\<lparr>rc_Answer := ans\<rparr>) q')"
  proof (cases fl)
    case True
    then show ?thesis
      using cname assms(2) q' same by (intro exI [of _ "rc_Answer c"]) (simp add: exact_match_def)
  next
    case False
    then show ?thesis
      using cname assms(2) q' by (intro exI) (simp add: exact_match_def)
  qed
  then show ?thesis using lm zn m by (auto simp: resolve_step_def)
qed

text \<open>
  C27: chains of aliases are bounded.  When more than ten aliases follow each other in the
  zone, circular ones included, the request ends with a server failure and an empty answer.
\<close>

theorem alias_loop_fails:
  assumes "alias_chain 11 L h z q" and "QType (lib_msg L) (rc_Req c) \<noteq> TypeCNAME"
  shows "resolve_loop 11 L h ns z fl (z_Name z) c q =
    Inr (c\<lparr>rc_Answer := [], rc_Res := RcodeServerFailure\<rparr>)"
proof -
  have "resolve_loop n L h ns z fl (z_Name z) c q = Inr (c\<lparr>rc_Answer := [], rc_Res := RcodeServerFailure\<rparr>)"
    if "alias_chain n L h z q" "QType (lib_msg L) (rc_Req c) \<noteq> TypeCNAME" for n c
    using that
  proof (induction n arbitrary: c q)
    case (Suc n)
    then obtain q' where q': "alias_of L h z q = Some q'" "alias_chain n L h z q'"
      by (auto split: option.splits)
    obtain ans where "resolve_step L h ns z fl (z_Name z) c q = Inr (Continue (c\<lparr>rc_Answer := ans\<rparr>) q')"
      using alias_step [OF q'(1) Suc.prems(2)] by blast
    then show ?case using Suc.IH [OF q'(2), of "c\<lparr>rc_Answer := ans\<rparr>"] Suc.prems(2) by simp
  qed simp
  then show ?thesis using assms by blast
qed

lemma toy_alias: "alias_of toy_libs toy_handler toy_zone ''c.z.'' = Some ''c.z.''"
proof -
  have "FindLocation alist_radix toy_zone ''c.z.'' = (''c'', ExactMatch)" by code_simp
  moreover have "append_dot ''c.z.'' = ''c.z.''" by code_simp
  ultimately show ?thesis
    by (simp add: alias_of_def toy_libs_def toy_handler_def toy_view_def toy_zone_def CNAME_Empty_def
        HasSuffix_def)
qed

lemma toy_alias_chain: "alias_chain n toy_libs toy_handler toy_zone ''c.z.''"
  by (induction n) (simp_all add: toy_alias)

theorem alias_loop_fails_witness:
  "resolve_loop 11 toy_libs toy_handler 0 toy_zone False ''z.'' (toy_context ''c.z.'' TypeA) ''c.z.'' =
     Inr ((toy_context ''c.z.'' TypeA)\<lparr>rc_Answer := [], rc_Res := RcodeServerFailure\<rparr>)"
proof -
  have "QType (lib_msg toy_libs) (rc_Req (toy_context ''c.z.'' TypeA)) \<noteq> TypeCNAME"
    by (simp add: toy_libs_def plain_api_def toy_context_def NewRequestContext_def toy_query_def type_codes)
  then show ?thesis
    using alias_loop_fails [OF toy_alias_chain, of "toy_context ''c.z.'' TypeA" 0 False]
    by (simp add: toy_zone_def)
qed

section \<open>Answers\<close>

lemma Response_fields [simp]:
  "rc_Answer (Response A c) = rc_Answer c" "rc_Authority (Response A c) = rc_Authority c"
  "rc_Additional (Response A c) = rc_Additional c" "rc_Res (Response A c) = rc_Res c"
  by (simp_all add: Response_def Let_def)

text \<open>A request that \<open>HandleRequest\<close> receives, without a cookie.\<close>

definition fresh_request :: "msg_api \<Rightarrow> 't RequestContext \<Rightarrow> bool" where
  "fresh_request A c \<longleftrightarrow> (\<exists>now w r. c = NewRequestContext A now w r) \<and>
     GetCookie A (rc_Req c) = Inr (None, None, Some CookieErrorNoCookie)"

text \<open>The name asked for belongs to a zone; the answer is not to be signed.\<close>

definition plain_zone_of ::
  "'t libs \<Rightarrow> 't DnsRequestHandler \<Rightarrow> 't RequestContext \<Rightarrow> 't Zone \<Rightarrow> bool" where
  "plain_zone_of L h c z \<longleftrightarrow>
     dv_FindZone (h_RedisData h) (raw_name c) = z_Name z \<and> z_Name z \<noteq> [] \<and>
     dv_GetZone (h_RedisData h) (z_Name z) = Inr (Some z) \<and>
     \<not> (Do (lib_msg L) (rc_Req c) \<and> zc_DnsSec (z_Config z))"

lemma raw_name_prepared: "raw_name (log_source h (snd (RawName c))) = raw_name c"
  by (auto simp: raw_name_def RawName_def Let_def log_source_def)

lemma handle_plain:
  assumes "fresh_request (lib_msg L) c" and "plain_zone_of L h c z"
  shows "\<exists>d. HandleRequest L h now c =
      andThen (resolve_loop 11 L h (nat (now mod second)) z (zc_CnameFlattening (z_Config z)) (z_Name z) d (raw_name c))
        (\<lambda>c. Inr (Response (lib_msg L) c)) \<and>
    rc_Req d = rc_Req c \<and> rc_zone d = Some z \<and> \<not> rc_dnssec d \<and> raw_name d = raw_name c \<and>
    rc_Answer d = [] \<and> rc_Authority d = [] \<and> rc_Additional d = [] \<and> rc_Res d = RcodeSuccess"
proof -
  let ?c = "log_source h (snd (RawName c))"
  let ?d = "?c\<lparr>rc_zone := Some z, rc_DomainUid := zc_DomainId (z_Config z), rc_dnssec := False\<rparr>"
  have c: "rc_Answer c = []" "rc_Authority c = []" "rc_Additional c = []" "rc_Res c = RcodeSuccess" "rc_Auth c"
    using assms(1) by (auto simp: fresh_request_def NewRequestContext_def)
  have upd: "raw_name ?d = raw_name ?c" by (simp add: raw_name_def RawName_def Let_def)
  have dnssec: "(Do (lib_msg L) (rc_Req c) \<and> rc_Auth ?c \<and> zc_DnsSec (z_Config z)) = False"
    using assms(2) by (auto simp: plain_zone_of_def)
  have loop: "andThen (resolve_loop n L h ns z fl zn ?d q)
      (\<lambda>c. andThen (applyDnssec L c) (\<lambda>c. Inr (Response (lib_msg L) c))) =
      andThen (resolve_loop n L h ns z fl zn ?d q) (\<lambda>c. Inr (Response (lib_msg L) c))" for n ns fl zn q
    by (cases "resolve_loop n L h ns z fl zn ?d q")
      (auto dest!: resolve_loop_same simp: same_request_def applyDnssec_def)
  have "HandleRequest L h now c = resolve L h now ?c"
    using assms(1) by (simp add: HandleRequest_def Let_def fresh_request_def cookie_stage_def)
  also have "\<dots> = andThen (resolve_loop 11 L h (nat (now mod second)) z (zc_CnameFlattening (z_Config z))
      (z_Name z) ?d (raw_name c)) (\<lambda>c. Inr (Response (lib_msg L) c))"
    using assms(2)
    by (simp add: resolve_def plain_zone_of_def raw_name_prepared upd loop [symmetric] dnssec Let_def
        del: de_Morgan_conj)
  finally show ?thesis
    using c upd raw_name_prepared [of h c]
    by (intro exI [of _ ?d]) (simp add: log_source_def RawName_def Let_def)
qed

lemma addNSec_plain: "\<not> rc_dnssec c \<Longrightarrow> addNSec c name qtype = Inr c"
  by (simp add: addNSec_def)

lemma handle_break:
  assumes "fresh_request (lib_msg L) c" and "plain_zone_of L h c z"
    and step: "\<And>d ns fl. rc_Req d = rc_Req c \<Longrightarrow> rc_zone d = Some z \<Longrightarrow> \<not> rc_dnssec d \<Longrightarrow>
       raw_name d = raw_name c \<Longrightarrow> rc_Answer d = [] \<Longrightarrow> rc_Authority d = [] \<Longrightarrow> rc_Additional d = [] \<Longrightarrow>
       rc_Res d = RcodeSuccess \<Longrightarrow>
       \<exists>e. resolve_step L h ns z fl (z_Name z) d (raw_name c) = Inr (Break e) \<and> P e"
    and P: "\<And>e. P e \<Longrightarrow> P (Response (lib_msg L) e)"
  shows "\<exists>c'. HandleRequest L h now c = Inr c' \<and> P c'"
proof -
  let ?fl = "zc_CnameFlattening (z_Config z)" and ?ns = "nat (now mod second)"
  obtain d where H: "HandleRequest L h now c =
      andThen (resolve_loop 11 L h ?ns z ?fl (z_Name z) d (raw_name c)) (\<lambda>c. Inr (Response (lib_msg L) c))"
    and d: "rc_Req d = rc_Req c" "rc_zone d = Some z" "\<not> rc_dnssec d" "raw_name d = raw_name c"
      "rc_Answer d = []" "rc_Authority d = []" "rc_Additional d = []" "rc_Res d = RcodeSuccess"
    using handle_plain [OF assms(1,2), of now] by blast
  obtain e where e: "resolve_step L h ?ns z ?fl (z_Name z) d (raw_name c) = Inr (Break e)" "P e"
    using step [OF d] by blast
  have eleven: "11 = Suc 10" by simp
  have "resolve_loop 11 L h ?ns z ?fl (z_Name z) d (raw_name c) = Inr e"
    unfolding eleven resolve_loop.simps e(1) by simp
  then have "HandleRequest L h now c = Inr (Response (lib_msg L) e)"
    using H by simp
  then show ?thesis using P [OF e(2)] by blast
qed

text \<open>The zone has data for the name at the location \<open>l\<close>: no alias and no delegation.\<close>

definition located ::
  "'t libs \<Rightarrow> 't DnsRequestHandler \<Rightarrow> 't Zone \<Rightarrow> string \<Rightarrow> string \<Rightarrow> bool" where
  "located L h z q l \<longleftrightarrow>
     FindLocation (lib_radix L) z q \<in> {(l, ExactMatch), (l, WildCardMatch)} \<and>
     (\<exists>cname. dv_CNAME (h_RedisData h) (z_Name z) l = Inr cname \<and> CNAME_Empty cname) \<and>
     (q \<noteq> z_Name z \<longrightarrow> (\<exists>nsset. dv_NS (h_RedisData h) (z_Name z) l = Inr nsset \<and> NS_Empty nsset))"

text \<open>The records stored at a location for one of the types that are served as they are stored.\<close>

definition stored_records ::
  "'t libs \<Rightarrow> 't data_view \<Rightarrow> string \<Rightarrow> string \<Rightarrow> uint16 \<Rightarrow> string \<Rightarrow> (go_error + RR list) option" where
  "stored_records L dv n l t name =
     map_of [(TypeTXT, map_sum id (\<lambda>r. TXT_Value r name) (dv_TXT dv n l)),
             (TypeNS, map_sum id (\<lambda>r. NS_Value (lib_fqdn L) r name) (dv_NS dv n l)),
             (TypeMX, map_sum id (\<lambda>r. MX_Value (lib_fqdn L) r name) (dv_MX dv n l)),
             (TypeSRV, map_sum id (\<lambda>r. SRV_Value (lib_fqdn L) r name) (dv_SRV dv n l)),
             (TypePTR, map_sum id (\<lambda>r. PTR_Value (lib_fqdn L) r name) (dv_PTR dv n l)),
             (TypeTLSA, map_sum id (\<lambda>r. TLSA_Value r name) (dv_TLSA dv n l))] t"

lemma lookup_answer_stored:
  assumes "stored_records L (h_RedisData h) (z_Name z) l (QType (lib_msg L) (rc_Req c)) q = Some (Inr rs)"
  shows "final_answer L h ns z c q l = Inr (Inr (c, rs))"
  using assms
  by (auto simp: stored_records_def final_answer_def Let_def lookup_answer_def type_codes
      split: if_splits sum.splits)

lemma resolve_step_located:
  assumes "located L h z q l" and "dv_FindZone (h_RedisData h) q = z_Name z"
  shows "resolve_step L h ns z fl (z_Name z) d q = final_location L h ns z fl d q l"
  using assms by (auto simp: located_def resolve_step_def exact_match_def)

lemma located_records_served:
  assumes "fresh_request (lib_msg L) c" and "plain_zone_of L h c z" and "served_zone L z"
    and "located L h z (raw_name c) l"
    and "stored_records L (h_RedisData h) (z_Name z) l (QType (lib_msg L) (rc_Req c)) (raw_name c) = Some (Inr rs)"
  shows "\<exists>c' soa. HandleRequest L h now c = Inr c' \<and> zc_SOA (z_Config z) = Some soa \<and>
    rc_Res c' = RcodeSuccess \<and> rc_Answer c' = rs \<and>
    rc_Authority c' = (if rs = [] then [soa_record soa] else [])"
proof -
  obtain soa where soa: "zc_SOA (z_Config z) = Some soa" using assms(3) by (auto simp: served_zone_def)
  have "\<exists>c'. HandleRequest L h now c = Inr c' \<and> (rc_Res c' = RcodeSuccess \<and> rc_Answer c' = rs \<and>
    rc_Authority c' = (if rs = [] then [soa_record soa] else []))"
  proof (rule handle_break [OF assms(1,2)])
    fix d :: "'a RequestContext" and ns fl
    assume d: "rc_Req d = rc_Req c" "rc_zone d = Some z" "\<not> rc_dnssec d" "raw_name d = raw_name c"
      "rc_Answer d = []" "rc_Authority d = []" "rc_Additional d = []" "rc_Res d = RcodeSuccess"
    have fz: "dv_FindZone (h_RedisData h) (raw_name c) = z_Name z"
      using assms(2) by (simp add: plain_zone_of_def)
    have "resolve_step L h ns z fl (z_Name z) d (raw_name c) = finish_answer L d (raw_name c) rs"
      using resolve_step_located [OF assms(4) fz] lookup_answer_stored [of L h z l d "raw_name c" rs ns] assms(5) d
      by (simp add: final_location_def)
    moreover have "ctx_soa d = Inr soa" using d soa by (simp add: ctx_soa_def ctx_zone_def)
    ultimately show "\<exists>e. resolve_step L h ns z fl (z_Name z) d (raw_name c) = Inr (Break e) \<and>
        (rc_Res e = RcodeSuccess \<and> rc_Answer e = rs \<and>
         rc_Authority e = (if rs = [] then [soa_record soa] else []))"
      using d by (simp add: finish_answer_def addNSec_plain Let_def)
  qed simp
  with soa show ?thesis by blast
qed




section \<open>Denial of existence in signed zones\<close>

lemma nsec_bitmap_sorted: "sorted_wrt (<) (nsec_bitmap c z name qtype)"
proof -
  have "sorted_wrt (<) NsecBitmapAppex" "sorted_wrt (<) NsecBitmapNameError"
    "sorted_wrt (<) NsecBitmapSubDelegation" "sorted_wrt (<) NsecBitmapZone"
    by (simp_all add: bitmaps_sorted)
  then show ?thesis by (simp add: nsec_bitmap_def FilterNsecBitmap_sorted)
qed

lemma nsec_bitmap_denies:
  "qtype \<in> set (nsec_bitmap c z name qtype) \<Longrightarrow>
   rc_Res c = RcodeNameError \<and> name \<noteq> z_Name z \<and> qtype \<in> {TypeRRSIG, TypeNSEC}"
  by (auto simp: nsec_bitmap_def FilterNsecBitmap_denies NsecBitmapNameError_def split: if_splits)


definition signing_zone :: "alist_tree Zone" where
  "signing_zone = signed_zone\<lparr>z_Config := (default_config 0 ''z.'')\<lparr>zc_DnsSec := True\<rparr>\<rparr>"


end
