(* ===== verification/HiRedis.thy ===== *)
theory HiRedis
  imports GoPrelude "HOL-Library.Multiset" "HOL-Library.AList"
begin

text \<open>
  The redis client: \<open>src/pkg/hiredis/hiredis.go\<close> and \<open>src/pkg/hiredis/transaction.go\<close>.

  The connection pool and the reply conversions of the redigo package, and the server behind
  them, are parameters (\<open>redis_server\<close>); a command is the list of its words.  \<open>map_order\<close>
  is the order in which Go iterates over the keys of a map.  A result is a value or an error
  together with the new state of the server; \<open>None\<close> stands for a call that does not return.
\<close>

section \<open>Pool, connection and replies\<close>

record ('s, 'r) redis_server =
  pool_Get :: "'s \<Rightarrow> bool"
  conn_Do :: "'s \<Rightarrow> string list \<Rightarrow> (go_error + 'r) \<times> 's"
  conn_Send :: "'s \<Rightarrow> string list \<Rightarrow> go_error option"
  conn_Exec :: "'s \<Rightarrow> string list list \<Rightarrow> go_error option \<times> 's"
  reply_String :: "'r \<Rightarrow> go_error + string"
  reply_Strings :: "'r \<Rightarrow> go_error + string list"
  reply_Values :: "'r \<Rightarrow> go_error + 'r list"
  reply_StringMap :: "'r \<Rightarrow> go_error + (string \<times> string) list"
  reply_Bool :: "'r \<Rightarrow> go_error + bool"
  map_order :: "string list \<Rightarrow> string list"

record ConnectionConfig =
  cc_MaxIdleConnections :: int
  cc_MaxActiveConnections :: int
  cc_ConnectTimeout :: int
  cc_ReadTimeout :: int
  cc_IdleKeepAlive :: int
  cc_MaxKeepAlive :: int
  cc_WaitForConnection :: bool

record RedisConfig =
  rcfg_Address :: string
  rcfg_Net :: string
  rcfg_DB :: int
  rcfg_Password :: string
  rcfg_Prefix :: string
  rcfg_Suffix :: string
  rcfg_Connection :: ConnectionConfig

definition DefaultConfig :: RedisConfig where
  "DefaultConfig =
     \<lparr>rcfg_Address = ''127.0.0.1:6379'', rcfg_Net = ''tcp'', rcfg_DB = 0, rcfg_Password = [],
      rcfg_Prefix = ''z42_'', rcfg_Suffix = ''_z42'',
      rcfg_Connection =
        \<lparr>cc_MaxIdleConnections = 10, cc_MaxActiveConnections = 10, cc_ConnectTimeout = 500,
         cc_ReadTimeout = 500, cc_IdleKeepAlive = 30, cc_MaxKeepAlive = 0, cc_WaitForConnection = False\<rparr>\<rparr>"

text \<open>The pool of connections, with the options of a new connection; durations are in nanoseconds.\<close>

datatype dial_option = DialPassword string | DialConnectTimeout int | DialReadTimeout int | DialDatabase int

record redis_Pool =
  pool_Dial :: "string \<times> string \<times> dial_option list"
  pool_MaxIdle :: int
  pool_MaxActive :: int
  pool_IdleTimeout :: int
  pool_Wait :: bool
  pool_MaxConnLifetime :: int

definition dial_options :: "RedisConfig \<Rightarrow> dial_option list" where
  "dial_options c =
     (if rcfg_Password c \<noteq> [] then [DialPassword (rcfg_Password c)] else []) @
     (if cc_ConnectTimeout (rcfg_Connection c) \<noteq> 0
      then [DialConnectTimeout (wrap64 (cc_ConnectTimeout (rcfg_Connection c) * 1000000))] else []) @
     (if cc_ReadTimeout (rcfg_Connection c) \<noteq> 0
      then [DialReadTimeout (wrap64 (cc_ReadTimeout (rcfg_Connection c) * 1000000))] else []) @
     [DialDatabase (rcfg_DB c)]"

definition NewRedis :: "RedisConfig \<Rightarrow> redis_Pool" where
  "NewRedis c =
     \<lparr>pool_Dial = (rcfg_Net c, rcfg_Address c, dial_options c),
      pool_MaxIdle = cc_MaxIdleConnections (rcfg_Connection c), pool_MaxActive = cc_MaxActiveConnections (rcfg_Connection c),
      pool_IdleTimeout = wrap64 (cc_IdleKeepAlive (rcfg_Connection c) * 1000000000),
      pool_Wait = cc_WaitForConnection (rcfg_Connection c),
      pool_MaxConnLifetime = wrap64 (cc_MaxKeepAlive (rcfg_Connection c) * 1000000000)\<rparr>"

definition noConnectionError :: go_error where
  "noConnectionError = Err ''no connection''"

definition ErrNil :: go_error where
  "ErrNil = Err ''redigo: nil returned''"

abbreviation rkey :: "RedisConfig \<Rightarrow> string \<Rightarrow> string" where
  "rkey cfg key \<equiv> rcfg_Prefix cfg @ key @ rcfg_Suffix cfg"

text \<open>A command whose reply is not looked at, and one whose reply is converted.\<close>

definition do_unit ::
  "('s, 'r) redis_server \<Rightarrow> 's \<Rightarrow> string list \<Rightarrow> go_error option \<times> 's" where
  "do_unit S s cmd =
     (if \<not> pool_Get S s then (Some noConnectionError, s)
      else (case conn_Do S s cmd of
              (Inl e, s) \<Rightarrow> (Some e, s)
            | (Inr _, s) \<Rightarrow> (None, s)))"

definition do_reply ::
  "('s, 'r) redis_server \<Rightarrow> ('r \<Rightarrow> go_error + 'a) \<Rightarrow> 's \<Rightarrow> string list \<Rightarrow> (go_error + 'a) \<times> 's" where
  "do_reply S conv s cmd =
     (if \<not> pool_Get S s then (Inl noConnectionError, s)
      else (case conn_Do S s cmd of
              (Inl e, s) \<Rightarrow> (Inl e, s)
            | (Inr reply, s) \<Rightarrow> (conv reply, s)))"

section \<open>Commands\<close>

text \<open>\<open>vals[1]\<close> panics for a shorter reply.\<close>

definition GetConfig ::
  "('s, 'r) redis_server \<Rightarrow> 's \<Rightarrow> string \<Rightarrow> ((go_error + string) \<times> 's) option" where
  "GetConfig S s config =
     (case do_reply S (reply_Strings S) s [''CONFIG'', ''GET'', config] of
        (Inl e, s) \<Rightarrow> Some (Inl e, s)
      | (Inr vals, s) \<Rightarrow> if length vals < 2 then None else Some (Inr (vals ! 1), s))"

definition SetConfig :: "('s, 'r) redis_server \<Rightarrow> 's \<Rightarrow> string \<Rightarrow> string \<Rightarrow> go_error option \<times> 's" where
  "SetConfig S s config value = do_unit S s [''CONFIG'', ''SET'', config, value]"

definition redis_Get ::
  "('s, 'r) redis_server \<Rightarrow> RedisConfig \<Rightarrow> 's \<Rightarrow> string \<Rightarrow> (go_error + string) \<times> 's" where
  "redis_Get S cfg s key = do_reply S (reply_String S) s [''GET'', rkey cfg key]"

definition redis_Set ::
  "('s, 'r) redis_server \<Rightarrow> RedisConfig \<Rightarrow> 's \<Rightarrow> string \<Rightarrow> string \<Rightarrow> go_error option \<times> 's" where
  "redis_Set S cfg s key value = do_unit S s [''SET'', rkey cfg key, value]"

definition HGet ::
  "('s, 'r) redis_server \<Rightarrow> RedisConfig \<Rightarrow> 's \<Rightarrow> string \<Rightarrow> string \<Rightarrow> (go_error + string) \<times> 's" where
  "HGet S cfg s key hkey = do_reply S (reply_String S) s [''HGET'', rkey cfg key, hkey]"

definition HSet ::
  "('s, 'r) redis_server \<Rightarrow> RedisConfig \<Rightarrow> 's \<Rightarrow> string \<Rightarrow> string \<Rightarrow> string \<Rightarrow> go_error option \<times> 's" where
  "HSet S cfg s key hkey value = do_unit S s [''HSET'', rkey cfg key, hkey, value]"

definition SAdd ::
  "('s, 'r) redis_server \<Rightarrow> RedisConfig \<Rightarrow> 's \<Rightarrow> string \<Rightarrow> string \<Rightarrow> go_error option \<times> 's" where
  "SAdd S cfg s key member = do_unit S s [''SADD'', rkey cfg key, member]"

definition SRem ::
  "('s, 'r) redis_server \<Rightarrow> RedisConfig \<Rightarrow> 's \<Rightarrow> string \<Rightarrow> string \<Rightarrow> go_error option \<times> 's" where
  "SRem S cfg s key member = do_unit S s [''SREM'', rkey cfg key, member]"

definition SIsMember ::
  "('s, 'r) redis_server \<Rightarrow> RedisConfig \<Rightarrow> 's \<Rightarrow> string \<Rightarrow> string \<Rightarrow> (go_error + bool) \<times> 's" where
  "SIsMember S cfg s key member = do_reply S (reply_Bool S) s [''SISMEMBER'', rkey cfg key, member]"

definition Expire ::
  "('s, 'r) redis_server \<Rightarrow> RedisConfig \<Rightarrow> 's \<Rightarrow> string \<Rightarrow> nat \<Rightarrow> go_error option \<times> 's" where
  "Expire S cfg s key nanoseconds =
     do_unit S s [''PEXPIRE'', rkey cfg key, Itoa_nat (nanoseconds div 1000000)]"

definition Persist ::
  "('s, 'r) redis_server \<Rightarrow> RedisConfig \<Rightarrow> 's \<Rightarrow> string \<Rightarrow> go_error option \<times> 's" where
  "Persist S cfg s key = do_unit S s [''PERSIST'', rkey cfg key]"

definition Ping :: "('s, 'r) redis_server \<Rightarrow> 's \<Rightarrow> go_error option \<times> 's" where
  "Ping S s =
     (case do_reply S (reply_String S) s [''PING''] of
        (Inl e, s) \<Rightarrow> (Some e, s)
      | (Inr val, s) \<Rightarrow> (if val \<noteq> ''PONG'' then Some (Err ''PING failed'') else None, s))"

record StreamItem =
  si_ID :: string
  si_Key :: string
  si_Value :: string

definition XAdd ::
  "('s, 'r) redis_server \<Rightarrow> RedisConfig \<Rightarrow> 's \<Rightarrow> string \<Rightarrow> StreamItem \<Rightarrow> (go_error + string) \<times> 's" where
  "XAdd S cfg s stream kv =
     do_reply S (reply_String S) s
       [''XADD'', rkey cfg stream, if si_ID kv = [] then ''*'' else si_ID kv, si_Key kv, si_Value kv]"

text \<open>
  \<open>XRead\<close> blocks until the stream has a new entry.  The index expressions on the nested
  replies panic on a shorter reply: an inner \<open>None\<close>.
\<close>

definition stream_item ::
  "('s, 'r) redis_server \<Rightarrow> 'r \<Rightarrow> go_error + StreamItem option" where
  "stream_item S value =
     andThen (reply_Values S value) (\<lambda>item.
       if length item < 1 then Inr None
       else andThen (reply_String S (item ! 0)) (\<lambda>id.
         if length item < 2 then Inr None
         else andThen (reply_Strings S (item ! 1)) (\<lambda>kv.
           if length kv < 2 then Inr None
           else Inr (Some \<lparr>si_ID = id, si_Key = kv ! 0, si_Value = kv ! 1\<rparr>))))"

fun stream_items ::
  "('s, 'r) redis_server \<Rightarrow> 'r list \<Rightarrow> go_error + StreamItem list option" where
  "stream_items S [] = Inr (Some [])"
| "stream_items S (v # vs) =
     andThen (stream_item S v) (\<lambda>i.
       case i of None \<Rightarrow> Inr None
       | Some item \<Rightarrow> andThen (stream_items S vs) (\<lambda>rest. Inr (map_option (\<lambda>xs. item # xs) rest)))"

definition XRead ::
  "('s, 'r) redis_server \<Rightarrow> RedisConfig \<Rightarrow> 's \<Rightarrow> string \<Rightarrow> string \<Rightarrow>
   (go_error + StreamItem list option) \<times> 's" where
  "XRead S cfg s streamID lastID =
     do_reply S (\<lambda>reply.
       andThen (reply_Values S reply) (\<lambda>streams.
       if length streams < 1 then Inr None
       else andThen (reply_Values S (streams ! 0)) (\<lambda>stream.
       if length stream < 2 then Inr None
       else andThen (reply_Values S (stream ! 1)) (\<lambda>values. stream_items S values)))) s
       [''XREAD'', ''BLOCK'', ''0'', ''STREAMS'', rkey cfg streamID, if lastID = [] then ''$'' else lastID]"

section \<open>Cursor loops\<close>

text \<open>
  \<open>SCAN\<close>, \<open>SSCAN\<close> and \<open>HSCAN\<close> return a cursor and a page of keys; the loops of \<open>GetKeys\<close>,
  \<open>SMembers\<close> and \<open>GetHKeys\<close> collect the keys in a map until the cursor is 0 again.  The map
  is the list of its keys.
\<close>

definition scan_page ::
  "('s, 'r) redis_server \<Rightarrow> ('r \<Rightarrow> go_error + string list) \<Rightarrow> 'r \<Rightarrow> (go_error + (string \<times> string list)) option" where
  "scan_page S conv reply =
     (case reply_Values S reply of
        Inl e \<Rightarrow> Some (Inl e)
      | Inr values \<Rightarrow>
          if length values < 1 then None
          else (case reply_String S (values ! 0) of
                  Inl e \<Rightarrow> Some (Inl e)
                | Inr cursor \<Rightarrow>
                    if length values < 2 then None
                    else Some (andThen (conv (values ! 1)) (\<lambda>keys. Inr (cursor, keys)))))"

partial_function (option) scan_loop ::
  "('s, 'r) redis_server \<Rightarrow> ('r \<Rightarrow> go_error + string list) \<Rightarrow> (string \<Rightarrow> string list) \<Rightarrow>
   string \<Rightarrow> string list \<Rightarrow> 's \<Rightarrow> ((go_error + string list) \<times> 's) option" where
  "scan_loop S conv command cursor keySet s =
     (case conn_Do S s (command cursor) of
        (Inl e, s) \<Rightarrow> Some (Inl e, s)
      | (Inr reply, s) \<Rightarrow>
          (case scan_page S conv reply of
             None \<Rightarrow> None
           | Some (Inl e) \<Rightarrow> Some (Inl e, s)
           | Some (Inr (cursor, keys)) \<Rightarrow>
               let keySet = fold List.insert keys keySet
               in if cursor = ''0'' then Some (Inr keySet, s)
                  else scan_loop S conv command cursor keySet s))"

definition SMembers ::
  "('s, 'r) redis_server \<Rightarrow> RedisConfig \<Rightarrow> 's \<Rightarrow> string \<Rightarrow> ((go_error + string list) \<times> 's) option" where
  "SMembers S cfg s key =
     (if \<not> pool_Get S s then Some (Inl noConnectionError, s)
      else map_option (\<lambda>(r, s). (map_sum id (map_order S) r, s))
             (scan_loop S (reply_Strings S) (\<lambda>cursor. [''SSCAN'', rkey cfg key, cursor, ''COUNT'', ''100''])
                ''0'' [] s))"

definition GetHKeys ::
  "('s, 'r) redis_server \<Rightarrow> RedisConfig \<Rightarrow> 's \<Rightarrow> string \<Rightarrow> ((go_error + string list) \<times> 's) option" where
  "GetHKeys S cfg s key =
     (if \<not> pool_Get S s then Some (Inl noConnectionError, s)
      else map_option (\<lambda>(r, s). (map_sum id (map_order S) r, s))
             (scan_loop S (\<lambda>r. map_sum id (map fst) (reply_StringMap S r))
                (\<lambda>cursor. [''HSCAN'', rkey cfg key, cursor, ''COUNT'', ''100'']) ''0'' [] s))"

definition GetKeys ::
  "('s, 'r) redis_server \<Rightarrow> RedisConfig \<Rightarrow> 's \<Rightarrow> string \<Rightarrow> ((go_error + string list) \<times> 's) option" where
  "GetKeys S cfg s pattern =
     (if \<not> pool_Get S s then Some (Inl noConnectionError, s)
      else map_option (\<lambda>(r, s). (map_sum id (\<lambda>keySet.
               map (\<lambda>key. TrimSuffix (TrimPrefix key (rcfg_Prefix cfg)) (rcfg_Suffix cfg)) (map_order S keySet)) r, s))
             (scan_loop S (reply_Strings S)
                (\<lambda>cursor. [''SCAN'', cursor, ''MATCH'', rkey cfg pattern, ''COUNT'', ''100'']) ''0'' [] s))"

definition redis_Del ::
  "('s, 'r) redis_server \<Rightarrow> RedisConfig \<Rightarrow> 's \<Rightarrow> string \<Rightarrow> (go_error option \<times> 's) option" where
  "redis_Del S cfg s pattern =
     (if \<not> pool_Get S s then Some (Some noConnectionError, s)
      else (case GetKeys S cfg s pattern of
              None \<Rightarrow> None
            | Some (Inl e, s) \<Rightarrow> Some (Some e, s)
            | Some (Inr keys, s) \<Rightarrow>
                if length keys = 0 then Some (None, s)
                else Some (case conn_Do S s (''DEL'' # map (rkey cfg) keys) of
                             (Inl e, s) \<Rightarrow> (Some e, s)
                           | (Inr _, s) \<Rightarrow> (None, s))))"

section \<open>Transactions\<close>

text \<open>
  A \<open>Transaction\<close> is passed by value, but its copies share the connection; \<open>t_buffer\<close> holds
  the commands sent on it so far.  A caller that drops the result of a method keeps its own
  copy of the error field (\<open>discard\<close>).
\<close>

record Transaction =
  t_connection :: bool
  t_buffer :: "string list list"
  t_error :: "go_error option"

definition Start :: "('s, 'r) redis_server \<Rightarrow> 's \<Rightarrow> Transaction" where
  "Start S s =
     (if \<not> pool_Get S s then \<lparr>t_connection = False, t_buffer = [], t_error = Some noConnectionError\<rparr>
      else (case conn_Send S s [''MULTI''] of
              None \<Rightarrow> \<lparr>t_connection = True, t_buffer = [[''MULTI'']], t_error = None\<rparr>
            | Some e \<Rightarrow> \<lparr>t_connection = True, t_buffer = [], t_error = Some e\<rparr>))"

definition Commit :: "('s, 'r) redis_server \<Rightarrow> 's \<Rightarrow> Transaction \<Rightarrow> go_error option \<times> 's" where
  "Commit S s t =
     (case t_error t of
        Some e \<Rightarrow> (Some e, s)
      | None \<Rightarrow> conn_Exec S s (t_buffer t))"

definition tx_send :: "('s, 'r) redis_server \<Rightarrow> 's \<Rightarrow> Transaction \<Rightarrow> string list \<Rightarrow> Transaction" where
  "tx_send S s t cmd =
     (if t_error t \<noteq> None then t
      else (case conn_Send S s cmd of
              None \<Rightarrow> t\<lparr>t_buffer := t_buffer t @ [cmd]\<rparr>
            | Some e \<Rightarrow> t\<lparr>t_error := Some e\<rparr>))"

definition Tx_Set ::
  "('s, 'r) redis_server \<Rightarrow> RedisConfig \<Rightarrow> 's \<Rightarrow> string \<Rightarrow> string \<Rightarrow> Transaction \<Rightarrow> Transaction" where
  "Tx_Set S cfg s key value t = tx_send S s t [''SET'', rkey cfg key, value]"

definition Tx_Del ::
  "('s, 'r) redis_server \<Rightarrow> RedisConfig \<Rightarrow> 's \<Rightarrow> string \<Rightarrow> Transaction \<Rightarrow> Transaction" where
  "Tx_Del S cfg s key t = tx_send S s t [''DEL'', rkey cfg key]"

definition Tx_HSet ::
  "('s, 'r) redis_server \<Rightarrow> RedisConfig \<Rightarrow> 's \<Rightarrow> string \<Rightarrow> string \<Rightarrow> string \<Rightarrow> Transaction \<Rightarrow> Transaction" where
  "Tx_HSet S cfg s key hkey value t = tx_send S s t [''HSET'', rkey cfg key, hkey, value]"

definition Tx_SAdd ::
  "('s, 'r) redis_server \<Rightarrow> RedisConfig \<Rightarrow> 's \<Rightarrow> string \<Rightarrow> string \<Rightarrow> Transaction \<Rightarrow> Transaction" where
  "Tx_SAdd S cfg s key member t = tx_send S s t [''SADD'', rkey cfg key, member]"

definition Tx_SRem ::
  "('s, 'r) redis_server \<Rightarrow> RedisConfig \<Rightarrow> 's \<Rightarrow> string \<Rightarrow> string \<Rightarrow> Transaction \<Rightarrow> Transaction" where
  "Tx_SRem S cfg s key member t = tx_send S s t [''SREM'', rkey cfg key, member]"

definition discard :: "Transaction \<Rightarrow> Transaction \<Rightarrow> Transaction" where
  "discard t t' = t'\<lparr>t_error := t_error t\<rparr>"

section \<open>What the client relies on of the server\<close>

text \<open>
  The keyspace of a server: strings and sets.  A set that loses its last member is removed,
  and \<open>set_at\<close> reads a missing key as the empty set, as the set commands do.
\<close>

datatype rvalue = RString string | RSet "string set"

type_synonym keyspace = "string \<Rightarrow> rvalue option"

definition set_at :: "keyspace \<Rightarrow> string \<Rightarrow> string set option" where
  "set_at ks k = (case ks k of None \<Rightarrow> Some {} | Some (RSet A) \<Rightarrow> Some A | Some (RString _) \<Rightarrow> None)"

definition put_set :: "keyspace \<Rightarrow> string \<Rightarrow> string set \<Rightarrow> keyspace" where
  "put_set ks k A = ks(k := if A = {} then None else Some (RSet A))"

text \<open>The pages that a cursor loop on an unchanging collection sees, from a cursor to the end.\<close>

inductive pages ::
  "('s, 'r) redis_server \<Rightarrow> ('r \<Rightarrow> go_error + string list) \<Rightarrow> (string \<Rightarrow> string list) \<Rightarrow> 's \<Rightarrow>
   string \<Rightarrow> string list \<Rightarrow> bool"
  for S conv command s where
  pages_last: "conn_Do S s (command cursor) = (Inr r, s) \<Longrightarrow>
     scan_page S conv r = Some (Inr (''0'', keys)) \<Longrightarrow> pages S conv command s cursor keys"
| pages_more: "conn_Do S s (command cursor) = (Inr r, s) \<Longrightarrow>
     scan_page S conv r = Some (Inr (cursor', keys)) \<Longrightarrow> cursor' \<noteq> ''0'' \<Longrightarrow>
     pages S conv command s cursor' rest \<Longrightarrow> pages S conv command s cursor (keys @ rest)"

text \<open>The state after a list of commands.\<close>

definition run_all :: "('s, 'r) redis_server \<Rightarrow> 's \<Rightarrow> string list list \<Rightarrow> 's" where
  "run_all S s cmds = foldl (\<lambda>s cmd. snd (conn_Do S s cmd)) s cmds"

locale redis_laws =
  fixes S :: "('s, 'r) redis_server"
    and up :: "'s \<Rightarrow> bool"
    and keys :: "'s \<Rightarrow> keyspace"
    and glob :: "string \<Rightarrow> string \<Rightarrow> bool"
  assumes pool: "up s \<Longrightarrow> pool_Get S s"
    and send: "up s \<Longrightarrow> conn_Send S s cmd = None"
    and stays_up: "up s \<Longrightarrow> up (snd (conn_Do S s cmd))"
    and order: "mset (map_order S xs) = mset xs"
    and get_string: "up s \<Longrightarrow> keys s k = Some (RString v) \<Longrightarrow>
          \<exists>r. conn_Do S s [''GET'', k] = (Inr r, s) \<and> reply_String S r = Inr v"
    and get_nil: "up s \<Longrightarrow> keys s k = None \<Longrightarrow>
          \<exists>r. conn_Do S s [''GET'', k] = (Inr r, s) \<and> reply_String S r = Inl ErrNil"
    and set_string: "up s \<Longrightarrow>
          \<exists>r s'. conn_Do S s [''SET'', k, v] = (Inr r, s') \<and> up s' \<and> keys s' = (keys s)(k \<mapsto> RString v)"
    and add_member: "up s \<Longrightarrow> set_at (keys s) k = Some A \<Longrightarrow>
          \<exists>r s'. conn_Do S s [''SADD'', k, m] = (Inr r, s') \<and> up s' \<and> keys s' = put_set (keys s) k (insert m A)"
    and rem_member: "up s \<Longrightarrow> set_at (keys s) k = Some A \<Longrightarrow>
          \<exists>r s'. conn_Do S s [''SREM'', k, m] = (Inr r, s') \<and> up s' \<and> keys s' = put_set (keys s) k (A - {m})"
    and delete: "up s \<Longrightarrow> ks \<noteq> [] \<Longrightarrow>
          \<exists>r s'. conn_Do S s (''DEL'' # ks) = (Inr r, s') \<and> up s' \<and>
            keys s' = (\<lambda>k. if k \<in> set ks then None else keys s k)"
    and sscan: "up s \<Longrightarrow> set_at (keys s) k = Some A \<Longrightarrow>
          \<exists>xs. pages S (reply_Strings S) (\<lambda>c. [''SSCAN'', k, c, ''COUNT'', ''100'']) s ''0'' xs \<and> set xs = A"
    and scan: "up s \<Longrightarrow>
          \<exists>xs. pages S (reply_Strings S) (\<lambda>c. [''SCAN'', c, ''MATCH'', p, ''COUNT'', ''100'']) s ''0'' xs \<and>
            set xs = {k \<in> dom (keys s). glob p k}"
    and exec: "up s \<Longrightarrow> conn_Exec S s ([''MULTI''] # cmds) = (None, run_all S s cmds)"
begin

lemma scan_loop_pages:
  "pages S conv command s cursor xs \<Longrightarrow>
   scan_loop S conv command cursor ks s = Some (Inr (fold List.insert xs ks), s)"
proof (induction arbitrary: ks rule: pages.induct)
  case (pages_last cursor r keys)
  then show ?case by (subst scan_loop.simps) (simp add: Let_def)
next
  case (pages_more cursor r cursor' keys rest)
  then show ?case by (subst scan_loop.simps) (simp add: Let_def)
qed

lemma fold_insert: "set (fold List.insert xs ks) = set ks \<union> set xs"
  by (induction xs arbitrary: ks) auto

lemma fold_insert_distinct: "distinct ks \<Longrightarrow> distinct (fold List.insert xs ks)"
  by (induction xs arbitrary: ks) auto

lemma order_set: "set (map_order S xs) = set xs" "distinct (map_order S xs) = distinct xs"
  using order [of xs] by (metis set_mset_mset, metis mset_eq_imp_distinct_iff)

lemma get_found:
  "up s \<Longrightarrow> keys s (rkey cfg k) = Some (RString v) \<Longrightarrow> redis_Get S cfg s k = (Inr v, s)"
  using get_string [of s "rkey cfg k" v] pool [of s] by (auto simp: redis_Get_def do_reply_def)

lemma get_missing:
  "up s \<Longrightarrow> keys s (rkey cfg k) = None \<Longrightarrow> redis_Get S cfg s k = (Inl ErrNil, s)"
  using get_nil [of s "rkey cfg k"] pool [of s] by (auto simp: redis_Get_def do_reply_def)

lemma set_stores:
  "up s \<Longrightarrow> \<exists>s'. redis_Set S cfg s k v = (None, s') \<and> up s' \<and>
     keys s' = (keys s)(rkey cfg k \<mapsto> RString v)"
  using set_string [of s "rkey cfg k" v] pool [of s] by (auto simp: redis_Set_def do_unit_def)

lemma sadd_adds:
  "up s \<Longrightarrow> set_at (keys s) (rkey cfg k) = Some A \<Longrightarrow> \<exists>s'. SAdd S cfg s k m = (None, s') \<and> up s' \<and>
     keys s' = put_set (keys s) (rkey cfg k) (insert m A)"
  using add_member [of s "rkey cfg k" A m] pool [of s] by (auto simp: SAdd_def do_unit_def)

lemma srem_removes:
  "up s \<Longrightarrow> set_at (keys s) (rkey cfg k) = Some A \<Longrightarrow> \<exists>s'. SRem S cfg s k m = (None, s') \<and> up s' \<and>
     keys s' = put_set (keys s) (rkey cfg k) (A - {m})"
  using rem_member [of s "rkey cfg k" A m] pool [of s] by (auto simp: SRem_def do_unit_def)

lemma smembers_complete:
  assumes "up s" and "set_at (keys s) (rkey cfg k) = Some A"
  shows "\<exists>xs. SMembers S cfg s k = Some (Inr xs, s) \<and> set xs = A \<and> distinct xs"
proof -
  obtain xs where "pages S (reply_Strings S) (\<lambda>c. [''SSCAN'', rkey cfg k, c, ''COUNT'', ''100'']) s ''0'' xs"
    and A: "set xs = A"
    using sscan [OF assms] by blast
  from scan_loop_pages [OF this(1), of "[]"] show ?thesis
    using assms(1) pool A
    by (auto simp: SMembers_def order_set fold_insert fold_insert_distinct)
qed

lemma getkeys_complete:
  assumes "up s"
  shows "\<exists>xs. GetKeys S cfg s p =
      Some (Inr (map (\<lambda>key. TrimSuffix (TrimPrefix key (rcfg_Prefix cfg)) (rcfg_Suffix cfg)) xs), s) \<and>
    set xs = {k \<in> dom (keys s). glob (rkey cfg p) k} \<and> distinct xs"
proof -
  obtain xs where "pages S (reply_Strings S) (\<lambda>c. [''SCAN'', c, ''MATCH'', rkey cfg p, ''COUNT'', ''100'']) s ''0'' xs"
    and A: "set xs = {k \<in> dom (keys s). glob (rkey cfg p) k}"
    using scan [OF assms, of "rkey cfg p"] by blast
  from scan_loop_pages [OF this(1), of "[]"] show ?thesis
    using assms(1) pool A
    by (intro exI [of _ "map_order S (fold List.insert xs [])"])
      (simp add: GetKeys_def order_set fold_insert fold_insert_distinct)
qed

lemma del_pattern:
  assumes "up s" and "\<And>k. k \<in> dom (keys s) \<Longrightarrow> glob (rkey cfg p) k \<Longrightarrow> \<exists>x. k = rkey cfg x"
  shows "\<exists>s'. redis_Del S cfg s p = Some (None, s') \<and> up s' \<and>
    keys s' = (\<lambda>k. if glob (rkey cfg p) k then None else keys s k)"
proof -
  let ?trim = "\<lambda>key. TrimSuffix (TrimPrefix key (rcfg_Prefix cfg)) (rcfg_Suffix cfg)"
  obtain xs where xs: "GetKeys S cfg s p = Some (Inr (map ?trim xs), s)"
    and sx: "set xs = {k \<in> dom (keys s). glob (rkey cfg p) k}"
    using getkeys_complete [OF assms(1)] by blast
  have restored: "map (rkey cfg) (map ?trim xs) = xs"
  proof (rule trans [OF map_map map_idI])
    fix k assume "k \<in> set xs"
    then obtain x where "k = rkey cfg x" using sx assms(2) by blast
    then show "(rkey cfg \<circ> ?trim) k = k" by simp
  qed
  show ?thesis
  proof (cases "xs = []")
    case True
    then have "keys s = (\<lambda>k. if glob (rkey cfg p) k then None else keys s k)"
      using sx by (auto simp: fun_eq_iff dom_def)
    then show ?thesis using xs True assms(1) pool by (simp add: redis_Del_def)
  next
    case False
    obtain r s' where "conn_Do S s (''DEL'' # xs) = (Inr r, s')" "up s'"
      "keys s' = (\<lambda>k. if k \<in> set xs then None else keys s k)"
      using delete [OF assms(1) False] by blast
    moreover have "(\<lambda>k. if k \<in> set xs then None else keys s k) =
        (\<lambda>k. if glob (rkey cfg p) k then None else keys s k)"
      using sx by (auto simp: fun_eq_iff dom_def)
    ultimately show ?thesis
      using xs False assms(1) pool restored by (simp add: redis_Del_def)
  qed
qed

lemma tx_sends:
  "up s \<Longrightarrow> t_error t = None \<Longrightarrow> tx_send S s t cmd = t\<lparr>t_buffer := t_buffer t @ [cmd]\<rparr>"
  by (simp add: tx_send_def send)

lemma tx_starts: "up s \<Longrightarrow> Start S s = \<lparr>t_connection = True, t_buffer = [[''MULTI'']], t_error = None\<rparr>"
  by (simp add: Start_def pool send)

lemma tx_commits:
  "up s \<Longrightarrow> Commit S s \<lparr>t_connection = True, t_buffer = [''MULTI''] # cmds, t_error = None\<rparr> =
     (None, run_all S s cmds)"
  by (simp add: Commit_def exec)

end

section \<open>A server in memory\<close>

text \<open>
  An instance of the laws: strings and sets in an association list, one page per scan, and
  patterns that are literal or end in a star.
\<close>

datatype mem_value = VString string | VSet "string list"
datatype mem_reply = MBulk string | MNil | MArray "mem_reply list"

type_synonym mem = "(string \<times> mem_value) list"

fun mem_glob :: "string \<Rightarrow> string \<Rightarrow> bool" where
  "mem_glob p k = (if p \<noteq> [] \<and> last p = CHR ''*'' then HasPrefix k (butlast p) else p = k)"

fun mem_string :: "mem_reply \<Rightarrow> go_error + string" where
  "mem_string (MBulk v) = Inr v"
| "mem_string MNil = Inl ErrNil"
| "mem_string (MArray _) = Inl (Err ''redigo: unexpected type for String'')"

fun mem_values :: "mem_reply \<Rightarrow> go_error + mem_reply list" where
  "mem_values (MArray rs) = Inr rs"
| "mem_values MNil = Inl ErrNil"
| "mem_values (MBulk _) = Inl (Err ''redigo: unexpected type for Values'')"

definition mem_strings :: "mem_reply \<Rightarrow> go_error + string list" where
  "mem_strings r = andThen (mem_values r) (traverse mem_string)"

definition mem_members :: "mem \<Rightarrow> string \<Rightarrow> go_error + string list" where
  "mem_members s k =
     (case map_of s k of
        None \<Rightarrow> Inr []
      | Some (VSet xs) \<Rightarrow> Inr xs
      | Some (VString _) \<Rightarrow> Inl (Err ''WRONGTYPE''))"

definition mem_put :: "string \<Rightarrow> string list \<Rightarrow> mem \<Rightarrow> mem" where
  "mem_put k xs s = (if xs = [] then AList.delete k s else AList.update k (VSet xs) s)"

definition mem_page :: "string list \<Rightarrow> mem_reply" where
  "mem_page xs = MArray [MBulk ''0'', MArray (map MBulk xs)]"

definition mem_get :: "mem \<Rightarrow> string \<Rightarrow> go_error + mem_reply" where
  "mem_get s k =
     (case map_of s k of
        None \<Rightarrow> Inr MNil
      | Some (VString v) \<Rightarrow> Inr (MBulk v)
      | Some (VSet _) \<Rightarrow> Inl (Err ''WRONGTYPE''))"

definition mem_Do :: "mem \<Rightarrow> string list \<Rightarrow> (go_error + mem_reply) \<times> mem" where
  "mem_Do s cmd =
     (let c = hd cmd; k = cmd ! 1 in
      if c = ''GET'' then (mem_get s k, s)
      else if c = ''SET'' then (Inr (MBulk ''OK''), AList.update k (VString (cmd ! 2)) s)
      else if c = ''DEL'' then (Inr (MBulk ''OK''), filter (\<lambda>(k, _). k \<notin> set (tl cmd)) s)
      else if c = ''SCAN'' then (Inr (mem_page (filter (mem_glob (cmd ! 3)) (map fst s))), s)
      else if c = ''PING'' then (Inr (MBulk ''PONG''), s)
      else if c = ''CONFIG'' then (Inr (MArray [MBulk (cmd ! 2), MBulk ''KA'']), s)
      else case mem_members s k of
             Inl e \<Rightarrow> (Inl e, s)
           | Inr xs \<Rightarrow>
               if c = ''SADD'' then (Inr (MBulk ''1''), mem_put k (List.insert (cmd ! 2) xs) s)
               else if c = ''SREM'' then (Inr (MBulk ''1''), mem_put k (removeAll (cmd ! 2) xs) s)
               else if c = ''SSCAN'' then (Inr (mem_page xs), s)
               else (Inl (Err ''ERR unknown command''), s))"

definition mem_server :: "(mem, mem_reply) redis_server" where
  "mem_server =
     \<lparr>pool_Get = (\<lambda>_. True), conn_Do = mem_Do, conn_Send = (\<lambda>_ _. None),
      conn_Exec = (\<lambda>s cmds. (None, foldl (\<lambda>s cmd. snd (mem_Do s cmd)) s (tl cmds))),
      reply_String = mem_string, reply_Strings = mem_strings, reply_Values = mem_values,
      reply_StringMap = (\<lambda>_. Inr []), reply_Bool = (\<lambda>r. map_sum id (\<lambda>v. v = ''1'') (mem_string r)),
      map_order = id\<rparr>"

fun mem_abs :: "mem_value \<Rightarrow> rvalue" where
  "mem_abs (VString v) = RString v"
| "mem_abs (VSet xs) = RSet (set xs)"

definition mem_keys :: "mem \<Rightarrow> keyspace" where
  "mem_keys s k = map_option mem_abs (map_of s k)"

lemma mem_set_at: "set_at (mem_keys s) k = Some A \<Longrightarrow> \<exists>xs. mem_members s k = Inr xs \<and> set xs = A"
  by (auto simp: set_at_def mem_keys_def mem_members_def split: option.splits mem_value.splits)

lemma mem_keys_put: "mem_keys (mem_put k xs s) = put_set (mem_keys s) k (set xs)"
  by (auto simp: mem_put_def mem_keys_def put_set_def fun_eq_iff map_of_delete update_conv' delete_conv')

lemma mem_strings_page: "mem_strings (MArray (map MBulk xs)) = Inr xs"
proof -
  have "traverse mem_string (map MBulk xs) = Inr xs" by (induction xs) auto
  then show ?thesis by (simp add: mem_strings_def)
qed

lemma mem_scan_page: "scan_page mem_server mem_strings (mem_page xs) = Some (Inr (''0'', xs))"
  by (simp add: scan_page_def mem_page_def mem_server_def mem_strings_page)

lemma mem_pages:
  "mem_Do s (command ''0'') = (Inr (mem_page xs), s) \<Longrightarrow>
   pages mem_server (reply_Strings mem_server) command s ''0'' xs"
  by (rule pages_last [of _ _ _ _ "mem_page xs"]) (simp_all add: mem_scan_page mem_server_def,
      simp add: mem_scan_page [unfolded mem_server_def])

lemma map_of_filter_keys:
  "map_of (filter (\<lambda>(k, _). P k) s) k = (if P k then map_of s k else None)"
  by (induction s) auto

interpretation memory: redis_laws mem_server "\<lambda>_. True" mem_keys mem_glob
proof unfold_locales
  fix s k v p cmds m A ks and xs :: "string list"
  show "mset (map_order mem_server xs) = mset xs" by (simp add: mem_server_def)
  show "mem_keys s k = Some (RString v) \<Longrightarrow>
      \<exists>r. conn_Do mem_server s [''GET'', k] = (Inr r, s) \<and> reply_String mem_server r = Inr v"
    by (auto simp: mem_server_def mem_Do_def mem_get_def mem_keys_def split: mem_value.splits option.splits
        elim!: mem_abs.elims)
  show "mem_keys s k = None \<Longrightarrow>
      \<exists>r. conn_Do mem_server s [''GET'', k] = (Inr r, s) \<and> reply_String mem_server r = Inl ErrNil"
    by (auto simp: mem_server_def mem_Do_def mem_get_def mem_keys_def)
  show "\<exists>r s'. conn_Do mem_server s [''SET'', k, v] = (Inr r, s') \<and> True \<and>
      mem_keys s' = (mem_keys s)(k \<mapsto> RString v)"
    by (auto simp: mem_server_def mem_Do_def mem_keys_def fun_eq_iff update_conv')
  show "set_at (mem_keys s) k = Some A \<Longrightarrow>
      \<exists>r s'. conn_Do mem_server s [''SADD'', k, m] = (Inr r, s') \<and> True \<and>
        mem_keys s' = put_set (mem_keys s) k (insert m A)"
    by (auto simp: mem_server_def mem_Do_def mem_keys_put dest!: mem_set_at)
  show "set_at (mem_keys s) k = Some A \<Longrightarrow>
      \<exists>r s'. conn_Do mem_server s [''SREM'', k, m] = (Inr r, s') \<and> True \<and>
        mem_keys s' = put_set (mem_keys s) k (A - {m})"
    by (auto simp: mem_server_def mem_Do_def mem_keys_put dest!: mem_set_at)
  show "\<exists>r s'. conn_Do mem_server s (''DEL'' # ks) = (Inr r, s') \<and> True \<and>
      mem_keys s' = (\<lambda>k. if k \<in> set ks then None else mem_keys s k)"
    by (auto simp: mem_server_def mem_Do_def mem_keys_def fun_eq_iff map_of_filter_keys)
  show "set_at (mem_keys s) k = Some A \<Longrightarrow>
      \<exists>xs. pages mem_server (reply_Strings mem_server) (\<lambda>c. [''SSCAN'', k, c, ''COUNT'', ''100'']) s ''0'' xs \<and>
        set xs = A"
    by (drule mem_set_at, elim exE conjE, intro exI conjI mem_pages) (auto simp: mem_Do_def)
  show "\<exists>xs. pages mem_server (reply_Strings mem_server)
        (\<lambda>c. [''SCAN'', c, ''MATCH'', p, ''COUNT'', ''100'']) s ''0'' xs \<and>
      set xs = {k \<in> dom (mem_keys s). mem_glob p k}"
    by (rule exI [of _ "filter (mem_glob p) (map fst s)"])
      (auto simp: mem_Do_def mem_keys_def dom_def map_of_eq_None_iff intro!: mem_pages)
  show "conn_Exec mem_server s ([''MULTI''] # cmds) = (None, run_all mem_server s cmds)"
    by (simp add: mem_server_def run_all_def)
qed (simp_all add: mem_server_def)

section \<open>Properties of the client\<close>

text \<open>
  What is set is read back.  With a server that follows the laws, \<open>Set\<close> succeeds, \<open>Get\<close>
  then returns the value under any key prefix and suffix, and the strings under other keys
  read as before.
\<close>

lemma redis_set_get:
  assumes "redis_laws S up ks glob" and "up s"
  shows "\<exists>s'. redis_Set S cfg s k v = (None, s') \<and> up s' \<and> redis_Get S cfg s' k = (Inr v, s') \<and>
    (\<forall>k'. k' \<noteq> k \<and> (\<forall>A. ks s (rkey cfg k') \<noteq> Some (RSet A)) \<longrightarrow>
       fst (redis_Get S cfg s' k') = fst (redis_Get S cfg s k'))"
proof -
  note L = assms(1)
  obtain s' where s': "redis_Set S cfg s k v = (None, s')" "up s'" "ks s' = (ks s)(rkey cfg k \<mapsto> RString v)"
    using redis_laws.set_stores [OF L assms(2)] by blast
  have "redis_Get S cfg s' k = (Inr v, s')"
    using redis_laws.get_found [OF L s'(2), of cfg k v] s'(3) by simp
  moreover have "fst (redis_Get S cfg s' k') = fst (redis_Get S cfg s k')"
    if other: "k' \<noteq> k" "\<forall>A. ks s (rkey cfg k') \<noteq> Some (RSet A)" for k'
  proof (cases "ks s (rkey cfg k')")
    case None
    then show ?thesis
      using other(1) s' assms(2) by (simp add: redis_laws.get_missing [OF L])
  next
    case (Some x)
    then obtain w where "ks s (rkey cfg k') = Some (RString w)" using other(2) by (cases x) auto
    then show ?thesis
      using other(1) s' assms(2) by (simp add: redis_laws.get_found [OF L])
  qed
  ultimately show ?thesis using s' by blast
qed

text \<open>
  C39: the cursor loop of \<open>SMembers\<close> ends, and returns every member of the set once.
\<close>

theorem smembers_returns_members:
  assumes "redis_laws S up ks glob" and "up s" and "set_at (ks s) (rkey cfg k) = Some A"
  shows "\<exists>xs. SMembers S cfg s k = Some (Inr xs, s) \<and> set xs = A \<and> distinct xs"
  using redis_laws.smembers_complete [OF assms] .

theorem smembers_returns_members_witness:
  "\<exists>xs. SMembers mem_server (DefaultConfig\<lparr>rcfg_Prefix := [], rcfg_Suffix := []\<rparr>) [(''k'', VSet [''a'', ''b''])] ''k'' =
     Some (Inr xs, [(''k'', VSet [''a'', ''b''])]) \<and> set xs = {''a'', ''b''} \<and> distinct xs"
  by (rule smembers_returns_members [OF memory.redis_laws_axioms])
    (simp_all add: set_at_def mem_keys_def)

text \<open>
  \<open>Del\<close> of a pattern removes exactly the keys that match it, provided that only keys of
  this client match.
\<close>

lemma del_removes_matches:
  assumes "redis_laws S up ks glob" and "up s"
    and "\<forall>k \<in> dom (ks s). glob (rkey cfg p) k \<longrightarrow> (\<exists>x. k = rkey cfg x)"
  shows "\<exists>s'. redis_Del S cfg s p = Some (None, s') \<and>
    ks s' = (\<lambda>k. if glob (rkey cfg p) k then None else ks s k)"
  using redis_laws.del_pattern [OF assms(1,2), of cfg p] assms(3) by blast

text \<open>The methods of a transaction called one after the other, each on the result of the last.\<close>

definition chain :: "('s, 'r) redis_server \<Rightarrow> 's \<Rightarrow> string list list \<Rightarrow> Transaction" where
  "chain S s cmds = foldl (tx_send S s) (Start S s) cmds"

lemma tx_send_error: "t_error t \<noteq> None \<Longrightarrow> foldl (tx_send S s) t cmds = t"
  by (induction cmds) (simp_all add: tx_send_def)

lemma chain_buffer:
  "t_error t = None \<Longrightarrow> t_error (foldl (tx_send S s) t cmds) = None \<Longrightarrow>
   t_buffer (foldl (tx_send S s) t cmds) = t_buffer t @ cmds"
proof (induction cmds arbitrary: t)
  case (Cons c cmds)
  show ?case
  proof (cases "conn_Send S s c")
    case None
    then show ?thesis using Cons by (simp add: tx_send_def)
  next
    case (Some e)
    then have "tx_send S s t c = t\<lparr>t_error := Some e\<rparr>" using Cons.prems by (simp add: tx_send_def)
    then show ?thesis using Cons.prems(2) tx_send_error [of "t\<lparr>t_error := Some e\<rparr>" S s cmds] by simp
  qed
qed simp

text \<open>
  C40: a transaction is all or nothing.  Committing a chain of commands either reports an error
  that occurred while they were sent and leaves the server untouched, or hands all of
  them, in order, to one \<open>EXEC\<close>.
\<close>

theorem transaction_all_or_nothing:
  "(\<exists>e. Commit S s (chain S s cmds) = (Some e, s)) \<or>
   Commit S s (chain S s cmds) = conn_Exec S s ([''MULTI''] # cmds)"
proof (cases "t_error (chain S s cmds)")
  case None
  have "t_error (Start S s) = None"
    using None tx_send_error [of "Start S s" S s cmds] by (cases "t_error (Start S s)") (auto simp: chain_def)
  then have "t_buffer (Start S s) = [[''MULTI'']]"
    by (auto simp: Start_def split: if_splits option.splits)
  then have "t_buffer (chain S s cmds) = [''MULTI''] # cmds"
    using chain_buffer [of "Start S s" S s cmds] None \<open>t_error (Start S s) = None\<close>
    by (simp add: chain_def)
  then show ?thesis using None by (simp add: Commit_def)
qed (simp add: Commit_def)

text \<open>
  An error is lost when the result of a method is dropped.  The command that could not
  be sent is missing from the transaction, and \<open>Commit\<close> does not report it.
\<close>

lemma discarded_error_lost:
  assumes "t_error t = None" and "conn_Send S s cmd = Some e"
  shows "Commit S s (discard t (tx_send S s t cmd)) = Commit S s t"
  using assms by (simp add: discard_def tx_send_def Commit_def)

definition flaky_server :: "(mem, mem_reply) redis_server" where
  "flaky_server = mem_server\<lparr>conn_Send := (\<lambda>_ cmd. if hd cmd = ''SADD'' then Some (Err ''timeout'') else None)\<rparr>"

end
