(* ===== verification/Events.thy ===== *)
theory Events
  imports Zones
begin

text \<open>
  Events of the control plane: the types of \<open>src/internal/api/database/types.go\<close> that travel
  from the API database to the resolvers, and their JSON decoding.

  \<open>json_api\<close> stands for the jsoniter package: decoding a plain struct, decoding into an
  existing record set, and encoding.
\<close>

type_synonym ObjectId = string

definition EmptyObjectId :: ObjectId where "EmptyObjectId = []"

record database_NewZone =
  nz_Name :: string
  nz_Enabled :: bool
  nz_Dnssec :: bool
  nz_CNameFlattening :: bool
  nz_SOA :: SOA_RRSet
  nz_Keys :: ZoneKeys
  nz_NS :: NS_RRSet

record ZoneUpdate =
  zu_Name :: string
  zu_Enabled :: bool
  zu_Dnssec :: bool
  zu_CNameFlattening :: bool
  zu_SOA :: SOA_RRSet

record ZoneDelete =
  zd_Name :: string

record ZoneImport =
  zi_Name :: string
  zi_Entries :: "(string \<times> (string \<times> RRSet) list) list"

record NewLocation =
  nl_ZoneName :: string
  nl_Location :: string
  nl_Enabled :: bool

record LocationUpdate =
  lu_ZoneName :: string
  lu_Location :: string
  lu_Enabled :: bool

record LocationDelete =
  ld_ZoneName :: string
  ld_Location :: string

text \<open>A nil \<open>Value\<close> is \<open>None\<close>.\<close>

record NewRecordSet =
  nr_ZoneName :: string
  nr_Location :: string
  nr_Type :: string
  nr_Value :: "RRSet option"
  nr_Enabled :: bool

record RecordSetUpdate =
  ru_ZoneName :: string
  ru_Location :: string
  ru_Type :: string
  ru_Value :: "RRSet option"
  ru_Enabled :: bool

record RecordSetDelete =
  rd_ZoneName :: string
  rd_Location :: string
  rd_Type :: string

record Event =
  ev_Revision :: int
  ev_ZoneId :: string
  ev_Type :: string
  ev_Value :: string

definition AddZone :: string where "AddZone = ''add_zone''"
definition UpdateZone :: string where "UpdateZone = ''update_zone''"
definition DeleteZone :: string where "DeleteZone = ''delete_zone''"
definition ImportZone :: string where "ImportZone = ''import_zone''"
definition AddLocation :: string where "AddLocation = ''add_location''"
definition UpdateLocation :: string where "UpdateLocation = ''update_location''"
definition DeleteLocation :: string where "DeleteLocation = ''delete_location''"
definition AddRecord :: string where "AddRecord = ''add_record''"
definition UpdateRecord :: string where "UpdateRecord = ''update_record''"
definition DeleteRecord :: string where "DeleteRecord = ''delete_record''"

lemmas event_types =
  AddZone_def UpdateZone_def DeleteZone_def ImportZone_def AddLocation_def UpdateLocation_def
  DeleteLocation_def AddRecord_def UpdateRecord_def DeleteRecord_def

section \<open>JSON\<close>

text \<open>The anonymous structs that the \<open>UnmarshalJSON\<close> methods decode first.\<close>

record RecordHead =
  rh_ZoneName :: string
  rh_Location :: string
  rh_Type :: string
  rh_Enabled :: bool

record ImportHead =
  ih_Name :: string
  ih_Entries :: "(string \<times> (string \<times> string) list) list"

text \<open>
  \<open>j_Value\<close> decodes the member ``value'' into the interface that holds a record set, and
  \<open>j_RRSet\<close> into a record set; \<open>j_NilError\<close> is the error for decoding into nil.
\<close>

record json_api =
  j_NewZone :: "string \<Rightarrow> go_error + database_NewZone"
  j_ZoneUpdate :: "string \<Rightarrow> go_error + ZoneUpdate"
  j_ZoneDelete :: "string \<Rightarrow> go_error + ZoneDelete"
  j_ImportHead :: "string \<Rightarrow> go_error + ImportHead"
  j_NewLocation :: "string \<Rightarrow> go_error + NewLocation"
  j_LocationUpdate :: "string \<Rightarrow> go_error + LocationUpdate"
  j_LocationDelete :: "string \<Rightarrow> go_error + LocationDelete"
  j_RecordHead :: "string \<Rightarrow> go_error + RecordHead"
  j_RecordSetDelete :: "string \<Rightarrow> go_error + RecordSetDelete"
  j_Value :: "string \<Rightarrow> RRSet \<Rightarrow> go_error + RRSet option"
  j_RRSet :: "string \<Rightarrow> RRSet \<Rightarrow> go_error + RRSet"
  j_NilError :: go_error
  j_Config :: "string \<Rightarrow> ZoneConfig \<Rightarrow> ZoneConfig"
  j_MarshalRRSet :: "RRSet option \<Rightarrow> go_error + string"
  j_MarshalConfig :: "ZoneConfig \<Rightarrow> go_error + string"

section \<open>UnmarshalJSON\<close>

definition record_value ::
  "json_api \<Rightarrow> dns_tables \<Rightarrow> string \<Rightarrow> go_error + (RecordHead \<times> RRSet option)" where
  "record_value J T data =
     andThen (j_RecordHead J data) (\<lambda>dat.
       case TypeStrToRRSet T (rh_Type dat) of
         None \<Rightarrow> Inl (Err ''invalid record type'')
       | Some value \<Rightarrow> andThen (j_Value J data value) (\<lambda>v. Inr (dat, v)))"

definition NewRecordSet_UnmarshalJSON ::
  "json_api \<Rightarrow> dns_tables \<Rightarrow> string \<Rightarrow> go_error + NewRecordSet" where
  "NewRecordSet_UnmarshalJSON J T data =
     andThen (record_value J T data) (\<lambda>(dat, v).
       Inr \<lparr>nr_ZoneName = rh_ZoneName dat, nr_Location = rh_Location dat, nr_Type = rh_Type dat,
            nr_Value = v, nr_Enabled = rh_Enabled dat\<rparr>)"

definition RecordSetUpdate_UnmarshalJSON ::
  "json_api \<Rightarrow> dns_tables \<Rightarrow> string \<Rightarrow> go_error + RecordSetUpdate" where
  "RecordSetUpdate_UnmarshalJSON J T data =
     andThen (record_value J T data) (\<lambda>(dat, v).
       Inr \<lparr>ru_ZoneName = rh_ZoneName dat, ru_Location = rh_Location dat, ru_Type = rh_Type dat,
            ru_Value = v, ru_Enabled = rh_Enabled dat\<rparr>)"

definition import_entry ::
  "json_api \<Rightarrow> dns_tables \<Rightarrow> string \<times> string \<Rightarrow> go_error + (string \<times> RRSet)" where
  "import_entry J T = (\<lambda>(rtype, rvalue).
     case TypeStrToRRSet T rtype of
       None \<Rightarrow> Inl (j_NilError J)
     | Some rrset \<Rightarrow> andThen (j_RRSet J rvalue rrset) (\<lambda>rrset. Inr (rtype, rrset)))"

definition ZoneImport_UnmarshalJSON ::
  "json_api \<Rightarrow> dns_tables \<Rightarrow> string \<Rightarrow> go_error + ZoneImport" where
  "ZoneImport_UnmarshalJSON J T data =
     andThen (j_ImportHead J data) (\<lambda>zi.
     andThen (traverse (\<lambda>(label, location).
                andThen (traverse (import_entry J T) location) (\<lambda>entries. Inr (label, entries)))
              (ih_Entries zi))
       (\<lambda>entries. Inr \<lparr>zi_Name = ih_Name zi, zi_Entries = entries\<rparr>))"

end
