(* ===== verification/DataHandler.thy ===== *)
theory DataHandler
  imports Dnssec HiRedis Events
begin

text \<open>
  The storage layer of a resolver: \<open>src/internal/storage/data_handler.go\<close>.

  A \<open>DataHandler\<close> reads zones and record sets from redis through two caches and applies the
  events of the control plane.  The caches are those of the ristretto package (\<open>cache_api\<close>);
  a \<open>singleflight\<close> call runs its function.  Time is in seconds.
\<close>

section \<open>State and environment\<close>

record ('c, 'v) cache_api =
  c_Get :: "'c \<Rightarrow> string \<Rightarrow> 'v option"
  c_Set :: "'c \<Rightarrow> string \<Rightarrow> 'v \<Rightarrow> 'c"
  c_Del :: "'c \<Rightarrow> string \<Rightarrow> 'c"

text \<open>
  What may be relied on of a cache: it returns only what was stored last under the key, and
  nothing after a removal.  It may drop any entry.
\<close>

locale lossy_cache =
  fixes C :: "('c, 'v) cache_api"
  assumes get_set: "c_Get C (c_Set C c k v) k' = Some w \<Longrightarrow> (k' = k \<and> w = v) \<or> (k' \<noteq> k \<and> c_Get C c k' = Some w)"
    and get_del: "c_Get C (c_Del C c k) k' = Some w \<Longrightarrow> k' \<noteq> k \<and> c_Get C c k' = Some w"

record DataHandlerConfig =
  dc_ZoneCacheSize :: int
  dc_ZoneCacheTimeout :: int
  dc_ZoneReload :: int
  dc_RecordCacheSize :: int
  dc_RecordCacheTimeout :: int
  dc_Redis :: RedisConfig
  dc_MinTTL :: uint32
  dc_MaxTTL :: uint32

definition DefaultDataHandlerConfig :: DataHandlerConfig where
  "DefaultDataHandlerConfig =
     \<lparr>dc_ZoneCacheSize = 10000, dc_ZoneCacheTimeout = 60, dc_ZoneReload = 60, dc_RecordCacheSize = 1000000,
      dc_RecordCacheTimeout = 60, dc_Redis = DefaultConfig, dc_MinTTL = 5, dc_MaxTTL = 300\<rparr>"

record ('s, 'r, 't, 'zc, 'rc) storage_env =
  e_config :: DataHandlerConfig
  e_server :: "('s, 'r) redis_server"
  e_radix :: "'t radix"
  e_fqdn :: "string \<Rightarrow> string"
  e_tables :: dns_tables
  e_crypto :: dns_crypto
  e_json :: json_api
  e_NewRR :: "string \<Rightarrow> go_error + RR"
  e_NewPrivateKey :: "DNSKEY \<Rightarrow> string \<Rightarrow> go_error + PrivateKey"
  e_zoneCache :: "('zc, 't Zone) cache_api"
  e_recordCache :: "('rc, RRSet) cache_api"

record ('s, 't, 'zc, 'rc) DataHandler =
  dh_redis :: 's
  dh_zones :: 't
  dh_lastZoneUpdate :: int
  dh_zoneCache :: 'zc
  dh_recordCache :: 'rc

section \<open>Keys\<close>

definition keyPrefix :: string where "keyPrefix = ''z42:zones:''"
definition zonesKey :: string where "zonesKey = ''z42:zones''"
definition revisionKey :: string where "revisionKey = ''z42:revision''"

definition isRRSetEntry :: "string list \<Rightarrow> bool" where
  "isRRSetEntry parts \<longleftrightarrow> length parts = 4 \<and> parts ! 1 = ''labels''"

definition splitDbKey :: "string \<Rightarrow> string list" where
  "splitDbKey key = Split (TrimPrefix key keyPrefix) (CHR '':'')"

definition zoneLocationsKey :: "string \<Rightarrow> string" where
  "zoneLocationsKey zone = keyPrefix @ zone @ '':labels''"

definition zoneConfigKey :: "string \<Rightarrow> string" where
  "zoneConfigKey zone = keyPrefix @ zone @ '':config''"

definition zoneLocationRRSetKey :: "string \<Rightarrow> string \<Rightarrow> string \<Rightarrow> string" where
  "zoneLocationRRSetKey zone label rtype = keyPrefix @ zone @ '':labels:'' @ label @ '':'' @ rtype"

definition zonePubKey :: "string \<Rightarrow> string \<Rightarrow> string" where
  "zonePubKey zone keyType = keyPrefix @ zone @ '':'' @ keyType @ '':pub''"

definition zonePrivKey :: "string \<Rightarrow> string \<Rightarrow> string" where
  "zonePrivKey zone keyType = keyPrefix @ zone @ '':'' @ keyType @ '':priv''"

definition zoneWildcard :: "string \<Rightarrow> string" where
  "zoneWildcard zone = keyPrefix @ zone @ '':*''"

definition zoneLocationsWildcard :: "string \<Rightarrow> string" where
  "zoneLocationsWildcard zone = keyPrefix @ zone @ '':labels:*''"

definition locationWildcard :: "string \<Rightarrow> string \<Rightarrow> string" where
  "locationWildcard zone label = keyPrefix @ zone @ '':labels:'' @ label @ '':*''"

lemmas storage_keys =
  keyPrefix_def zonesKey_def revisionKey_def zoneLocationsKey_def zoneConfigKey_def
  zoneLocationRRSetKey_def zonePubKey_def zonePrivKey_def zoneWildcard_def
  zoneLocationsWildcard_def locationWildcard_def

section \<open>Construction and zone list\<close>

definition NewDataHandler ::
  "('s, 'r, 't, 'zc, 'rc) storage_env \<Rightarrow> 's \<Rightarrow> 'zc \<Rightarrow> 'rc \<Rightarrow> ('s, 't, 'zc, 'rc) DataHandler" where
  "NewDataHandler E s zc rc =
     \<lparr>dh_redis = s, dh_zones = r_New (e_radix E), dh_lastZoneUpdate = 0, dh_zoneCache = zc,
      dh_recordCache = rc\<rparr>"

definition zones_tree :: "'t radix \<Rightarrow> string list \<Rightarrow> 't" where
  "zones_tree R zones = fold (\<lambda>zone t. r_Insert R t (ReverseName zone) (Some zone)) zones (r_New R)"

definition LoadZones ::
  "('s, 'r, 't, 'zc, 'rc) storage_env \<Rightarrow> int \<Rightarrow> ('s, 't, 'zc, 'rc) DataHandler \<Rightarrow>
   go_error + ('s, 't, 'zc, 'rc) DataHandler" where
  "LoadZones E now dh =
     (let dh = dh\<lparr>dh_lastZoneUpdate := now\<rparr> in
      case SMembers (e_server E) (dc_Redis (e_config E)) (dh_redis dh) zonesKey of
        None \<Rightarrow> Inl Diverge
      | Some (Inl _, s) \<Rightarrow> Inr (dh\<lparr>dh_redis := s\<rparr>)
      | Some (Inr zones, s) \<Rightarrow>
          Inr (dh\<lparr>dh_redis := s, dh_zones := zones_tree (e_radix E) zones\<rparr>))"

definition FindZone ::
  "('s, 'r, 't, 'zc, 'rc) storage_env \<Rightarrow> ('s, 't, 'zc, 'rc) DataHandler \<Rightarrow> string \<Rightarrow> string" where
  "FindZone E dh qname =
     (case r_LongestPrefix (e_radix E) (dh_zones dh) (ReverseName qname) of
        Some (_, Some zname) \<Rightarrow> zname
      | _ \<Rightarrow> [])"

text \<open>The message handler of the subscription to key events: it drops the cache entry.\<close>

definition on_key_event ::
  "('s, 'r, 't, 'zc, 'rc) storage_env \<Rightarrow> string \<Rightarrow> ('s, 't, 'zc, 'rc) DataHandler \<Rightarrow>
   ('s, 't, 'zc, 'rc) DataHandler" where
  "on_key_event E channel dh =
     (let keyParts = splitDbKey channel in
      if isRRSetEntry keyParts
      then dh\<lparr>dh_recordCache := c_Del (e_recordCache E) (dh_recordCache dh) channel\<rparr>
      else dh\<lparr>dh_zoneCache := c_Del (e_zoneCache E) (dh_zoneCache dh) (hd keyParts)\<rparr>)"

section \<open>Keys of a zone\<close>

text \<open>\<open>strings.Replace\<close> of a backslash and n by a line feed.\<close>

fun unescape_newlines :: "string \<Rightarrow> string" where
  "unescape_newlines (c # d # s) =
     (if c = CHR 0x5C \<and> d = CHR ''n'' then CHR 0x0A # unescape_newlines s
      else c # unescape_newlines (d # s))"
| "unescape_newlines s = s"

definition get_or_empty ::
  "('s, 'r, 't, 'zc, 'rc) storage_env \<Rightarrow> 's \<Rightarrow> string \<Rightarrow> string \<times> 's" where
  "get_or_empty E s key =
     (case redis_Get (e_server E) (dc_Redis (e_config E)) s key of
        (Inl _, s) \<Rightarrow> ([], s)
      | (Inr v, s) \<Rightarrow> (v, s))"

text \<open>An outer \<open>Inl\<close> is a panic: the public key is a record of another type.\<close>

definition loadKey ::
  "('s, 'r, 't, 'zc, 'rc) storage_env \<Rightarrow> int \<Rightarrow> 's \<Rightarrow> string \<Rightarrow> string \<Rightarrow> go_error + (ZoneKey option \<times> 's)" where
  "loadKey E now s zone keyType =
     (case get_or_empty E s (zonePubKey zone keyType) of (pubStr, s) \<Rightarrow>
      if pubStr = [] then Inr (None, s)
      else (case get_or_empty E s (zonePrivKey zone keyType) of (privStr, s) \<Rightarrow>
        if privStr = [] then Inr (None, s)
        else (case e_NewRR E pubStr of
          Inl _ \<Rightarrow> Inr (None, s)
        | Inr (RR_DNSKEY dnskey) \<Rightarrow>
            (case e_NewPrivateKey E dnskey (unescape_newlines privStr) of
               Inl _ \<Rightarrow> Inr (None, s)
             | Inr pk \<Rightarrow>
                 Inr (Some \<lparr>zk_DnsKey = dnskey, zk_PrivateKey = pk,
                            zk_KeyInception = word_of_int (now - 3 * 3600),
                            zk_KeyExpiration = word_of_int (now + 8 * 24 * 3600)\<rparr>, s))
        | Inr _ \<Rightarrow> Inl (Panic ''interface conversion''))))"

definition disable_dnssec :: "'t Zone \<Rightarrow> 't Zone" where
  "disable_dnssec z = z\<lparr>z_Config := (z_Config z)\<lparr>zc_DnsSec := False\<rparr>\<rparr>"

definition with_flags :: "uint16 \<Rightarrow> ZoneKey \<Rightarrow> ZoneKey" where
  "with_flags flags k = k\<lparr>zk_DnsKey := (zk_DnsKey k)\<lparr>key_Flags := flags\<rparr>\<rparr>"

definition with_ttl :: "uint32 \<Rightarrow> ZoneKey \<Rightarrow> ZoneKey" where
  "with_ttl ttl k =
     k\<lparr>zk_DnsKey := (zk_DnsKey k)\<lparr>key_Hdr := (key_Hdr (zk_DnsKey k))\<lparr>hdr_Ttl := ttl\<rparr>\<rparr>\<rparr>"

definition sign_keys :: "dns_crypto \<Rightarrow> 't Zone \<Rightarrow> ZoneKey \<Rightarrow> ZoneKey \<Rightarrow> go_error + 't Zone" where
  "sign_keys K z zsk ksk =
     (let ttl = hdr_Ttl (key_Hdr (zk_DnsKey ksk));
          zsk = with_ttl ttl (with_flags 256 zsk);
          ksk = with_flags 257 ksk;
          z = z\<lparr>z_ZSK := Some zsk, z_KSK := Some ksk\<rparr>
      in andThen (SignRRSet K [RR_DNSKEY (zk_DnsKey zsk), RR_DNSKEY (zk_DnsKey ksk)] (z_Name z) (Some ksk) ttl)
           (\<lambda>rrsig. if rrsig \<noteq> RR_NilRRSIG then Inr (z\<lparr>z_DnsKeySig := Some rrsig\<rparr>)
                    else Inr (disable_dnssec z)))"

definition loadZoneKeys ::
  "('s, 'r, 't, 'zc, 'rc) storage_env \<Rightarrow> int \<Rightarrow> 's \<Rightarrow> 't Zone \<Rightarrow> go_error + ('t Zone \<times> 's)" where
  "loadZoneKeys E now s z =
     (if \<not> zc_DnsSec (z_Config z) then Inr (z, s)
      else andThen (loadKey E now s (z_Name z) ''zsk'') (\<lambda>(zsk, s).
        case zsk of
          None \<Rightarrow> Inr (disable_dnssec (z\<lparr>z_ZSK := None\<rparr>), s)
        | Some zsk \<Rightarrow>
            andThen (loadKey E now s (z_Name z) ''ksk'') (\<lambda>(ksk, s).
              case ksk of
                None \<Rightarrow> Inr (disable_dnssec (z\<lparr>z_ZSK := Some zsk, z_KSK := None\<rparr>), s)
              | Some ksk \<Rightarrow> andThen (sign_keys (e_crypto E) z zsk ksk) (\<lambda>z. Inr (z, s)))))"

section \<open>Zones\<close>

definition loadZone ::
  "('s, 'r, 't, 'zc, 'rc) storage_env \<Rightarrow> int \<Rightarrow> ('s, 't, 'zc, 'rc) DataHandler \<Rightarrow> string \<Rightarrow>
   go_error + ('t Zone option \<times> ('s, 't, 'zc, 'rc) DataHandler)" where
  "loadZone E now dh zone =
     (case SMembers (e_server E) (dc_Redis (e_config E)) (dh_redis dh) (zoneLocationsKey zone) of
        None \<Rightarrow> Inl Diverge
      | Some (Inl _, s) \<Rightarrow> Inr (None, dh\<lparr>dh_redis := s\<rparr>)
      | Some (Inr locations, s) \<Rightarrow>
          (case get_or_empty E s (zoneConfigKey zone) of (configStr, s) \<Rightarrow>
           andThen (NewZone (e_radix E) (e_fqdn E) (j_Config (e_json E)) now zone locations configStr) (\<lambda>z.
           andThen (loadZoneKeys E now s z) (\<lambda>(z, s).
             let z = z\<lparr>z_CacheTimeout := wrap64 (now + dc_ZoneCacheTimeout (e_config E))\<rparr>
             in Inr (Some z, dh\<lparr>dh_redis := s,
                       dh_zoneCache := c_Set (e_zoneCache E) (dh_zoneCache dh) zone z\<rparr>)))))"

definition GetZone ::
  "('s, 'r, 't, 'zc, 'rc) storage_env \<Rightarrow> int \<Rightarrow> ('s, 't, 'zc, 'rc) DataHandler \<Rightarrow> string \<Rightarrow>
   go_error + ('t Zone option \<times> ('s, 't, 'zc, 'rc) DataHandler)" where
  "GetZone E now dh zone =
     (let cached = c_Get (e_zoneCache E) (dh_zoneCache dh) zone;
          reload = andThen (loadZone E now dh zone) (\<lambda>(answer, dh).
            Inr (if answer \<noteq> None then answer else cached, dh))
      in case cached of
           Some z \<Rightarrow> if now \<le> z_CacheTimeout z then Inr (Some z, dh) else reload
         | None \<Rightarrow> reload)"

definition GetZoneConfig ::
  "('s, 'r, 't, 'zc, 'rc) storage_env \<Rightarrow> int \<Rightarrow> ('s, 't, 'zc, 'rc) DataHandler \<Rightarrow> string \<Rightarrow>
   go_error + ((go_error + ZoneConfig) \<times> ('s, 't, 'zc, 'rc) DataHandler)" where
  "GetZoneConfig E now dh zone =
     andThen (GetZone E now dh zone) (\<lambda>(z, dh).
       Inr (case z of None \<Rightarrow> Inl (Err ''cannot get zone'') | Some z \<Rightarrow> Inr (z_Config z), dh))"

definition GetZones ::
  "('s, 'r, 't, 'zc, 'rc) storage_env \<Rightarrow> ('s, 't, 'zc, 'rc) DataHandler \<Rightarrow> go_error + (string list \<times> 's)" where
  "GetZones E dh =
     (case SMembers (e_server E) (dc_Redis (e_config E)) (dh_redis dh) zonesKey of
        None \<Rightarrow> Inl Diverge
      | Some (Inl _, s) \<Rightarrow> Inr ([], s)
      | Some (Inr domains, s) \<Rightarrow> Inr (domains, s))"

definition GetZoneLocations ::
  "('s, 'r, 't, 'zc, 'rc) storage_env \<Rightarrow> int \<Rightarrow> ('s, 't, 'zc, 'rc) DataHandler \<Rightarrow> string \<Rightarrow>
   go_error + (string list \<times> ('s, 't, 'zc, 'rc) DataHandler)" where
  "GetZoneLocations E now dh zone =
     andThen (GetZone E now dh zone) (\<lambda>(z, dh).
       Inr (case z of None \<Rightarrow> [] | Some z \<Rightarrow> z_LocationsList z, dh))"

section \<open>Writing zones and locations\<close>

definition EnableZone ::
  "('s, 'r, 't, 'zc, 'rc) storage_env \<Rightarrow> 's \<Rightarrow> string \<Rightarrow> go_error option \<times> 's" where
  "EnableZone E s zone =
     (case SAdd (e_server E) (dc_Redis (e_config E)) s (zoneLocationsKey zone) ''@'' of
        (Some e, s) \<Rightarrow> (Some e, s)
      | (None, s) \<Rightarrow> SAdd (e_server E) (dc_Redis (e_config E)) s zonesKey zone)"

definition DisableZone ::
  "('s, 'r, 't, 'zc, 'rc) storage_env \<Rightarrow> 's \<Rightarrow> string \<Rightarrow> go_error option \<times> 's" where
  "DisableZone E s zone = SRem (e_server E) (dc_Redis (e_config E)) s zonesKey zone"

definition EnableLocation ::
  "('s, 'r, 't, 'zc, 'rc) storage_env \<Rightarrow> 's \<Rightarrow> string \<Rightarrow> string \<Rightarrow> go_error option \<times> 's" where
  "EnableLocation E s zone location =
     SAdd (e_server E) (dc_Redis (e_config E)) s (zoneLocationsKey zone) location"

definition DisableLocation ::
  "('s, 'r, 't, 'zc, 'rc) storage_env \<Rightarrow> 's \<Rightarrow> string \<Rightarrow> string \<Rightarrow> go_error option \<times> 's" where
  "DisableLocation E s zone location =
     SRem (e_server E) (dc_Redis (e_config E)) s (zoneLocationsKey zone) location"

definition SetZoneConfigFromJson ::
  "('s, 'r, 't, 'zc, 'rc) storage_env \<Rightarrow> 's \<Rightarrow> string \<Rightarrow> string \<Rightarrow> go_error option \<times> 's" where
  "SetZoneConfigFromJson E s zone config =
     redis_Set (e_server E) (dc_Redis (e_config E)) s (zoneConfigKey zone) config"

definition SetZoneConfig ::
  "('s, 'r, 't, 'zc, 'rc) storage_env \<Rightarrow> 's \<Rightarrow> string \<Rightarrow> ZoneConfig \<Rightarrow> go_error option \<times> 's" where
  "SetZoneConfig E s zone config =
     (case j_MarshalConfig (e_json E) config of
        Inl e \<Rightarrow> (Some e, s)
      | Inr json \<Rightarrow> SetZoneConfigFromJson E s zone json)"

definition SetZoneKey ::
  "('s, 'r, 't, 'zc, 'rc) storage_env \<Rightarrow> 's \<Rightarrow> string \<Rightarrow> string \<Rightarrow> string \<Rightarrow> string \<Rightarrow> go_error option \<times> 's" where
  "SetZoneKey E s zone keyType pub priv =
     (case redis_Set (e_server E) (dc_Redis (e_config E)) s (zonePubKey zone keyType) pub of
        (Some e, s) \<Rightarrow> (Some e, s)
      | (None, s) \<Rightarrow> redis_Set (e_server E) (dc_Redis (e_config E)) s (zonePrivKey zone keyType) priv)"

definition dh_Clear ::
  "('s, 'r, 't, 'zc, 'rc) storage_env \<Rightarrow> 's \<Rightarrow> (go_error option \<times> 's) option" where
  "dh_Clear E s = redis_Del (e_server E) (dc_Redis (e_config E)) s ''*''"

section \<open>Record sets\<close>

definition getRRSet ::
  "('s, 'r, 't, 'zc, 'rc) storage_env \<Rightarrow> int \<Rightarrow> ('s, 't, 'zc, 'rc) DataHandler \<Rightarrow> string \<Rightarrow> string \<Rightarrow>
   uint16 \<Rightarrow> RRSet \<Rightarrow> (go_error + RRSet) \<times> ('s, 't, 'zc, 'rc) DataHandler" where
  "getRRSet E now dh zone label rtype result =
     (let key = zoneLocationRRSetKey zone label (TypeToString (e_tables E) rtype);
          store = (\<lambda>s r. (Inr r, dh\<lparr>dh_redis := s,
                     dh_recordCache := c_Set (e_recordCache E) (dh_recordCache dh) key r\<rparr>));
          load = (case redis_Get (e_server E) (dc_Redis (e_config E)) (dh_redis dh) key of
                    (Inl e, s) \<Rightarrow>
                      if e = ErrNil then store s result else (Inl e, dh\<lparr>dh_redis := s\<rparr>)
                  | (Inr val, s) \<Rightarrow>
                      if val \<noteq> []
                      then (case j_RRSet (e_json E) val result of
                              Inl e \<Rightarrow> (Inl e, dh\<lparr>dh_redis := s\<rparr>)
                            | Inr r \<Rightarrow> store s r)
                      else store s result)
      in case c_Get (e_recordCache E) (dh_recordCache dh) key of
           Some r \<Rightarrow> if now \<le> dc_RecordCacheTimeout (e_config E) then (Inr r, dh) else load
         | None \<Rightarrow> load)"

text \<open>The accessors by type; a result of another type makes the type assertion panic.\<close>

definition as_kind :: "(RRSet \<Rightarrow> 'a option) \<Rightarrow> (go_error + RRSet) \<times> 'd \<Rightarrow> (go_error + 'a) \<times> 'd" where
  "as_kind kind = (\<lambda>(r, dh).
     (andThen r (\<lambda>x. case kind x of None \<Rightarrow> Inl (Panic ''interface conversion'') | Some y \<Rightarrow> Inr y), dh))"

fun the_IP :: "RRSet \<Rightarrow> IP_RRSet option" where "the_IP (IP_Set r) = Some r" | "the_IP _ = None"
fun the_CNAME :: "RRSet \<Rightarrow> CNAME_RRSet option" where "the_CNAME (CNAME_Set r) = Some r" | "the_CNAME _ = None"
fun the_TXT :: "RRSet \<Rightarrow> TXT_RRSet option" where "the_TXT (TXT_Set r) = Some r" | "the_TXT _ = None"
fun the_NS :: "RRSet \<Rightarrow> NS_RRSet option" where "the_NS (NS_Set r) = Some r" | "the_NS _ = None"
fun the_MX :: "RRSet \<Rightarrow> MX_RRSet option" where "the_MX (MX_Set r) = Some r" | "the_MX _ = None"
fun the_SRV :: "RRSet \<Rightarrow> SRV_RRSet option" where "the_SRV (SRV_Set r) = Some r" | "the_SRV _ = None"
fun the_CAA :: "RRSet \<Rightarrow> CAA_RRSet option" where "the_CAA (CAA_Set r) = Some r" | "the_CAA _ = None"
fun the_PTR :: "RRSet \<Rightarrow> PTR_RRSet option" where "the_PTR (PTR_Set r) = Some r" | "the_PTR _ = None"
fun the_TLSA :: "RRSet \<Rightarrow> TLSA_RRSet option" where "the_TLSA (TLSA_Set r) = Some r" | "the_TLSA _ = None"
fun the_DS :: "RRSet \<Rightarrow> DS_RRSet option" where "the_DS (DS_Set r) = Some r" | "the_DS _ = None"
fun the_ANAME :: "RRSet \<Rightarrow> ANAME_RRSet option" where "the_ANAME (ANAME_Set r) = Some r" | "the_ANAME _ = None"

definition dh_A ::
  "('s, 'r, 't, 'zc, 'rc) storage_env \<Rightarrow> int \<Rightarrow> ('s, 't, 'zc, 'rc) DataHandler \<Rightarrow> string \<Rightarrow> string \<Rightarrow>
   (go_error + IP_RRSet) \<times> ('s, 't, 'zc, 'rc) DataHandler" where
  "dh_A E now dh zone label =
     as_kind the_IP (getRRSet E now dh zone label TypeA (IP_Set zero_IP))"

definition dh_AAAA ::
  "('s, 'r, 't, 'zc, 'rc) storage_env \<Rightarrow> int \<Rightarrow> ('s, 't, 'zc, 'rc) DataHandler \<Rightarrow> string \<Rightarrow> string \<Rightarrow>
   (go_error + IP_RRSet) \<times> ('s, 't, 'zc, 'rc) DataHandler" where
  "dh_AAAA E now dh zone label =
     as_kind the_IP (getRRSet E now dh zone label TypeAAAA (IP_Set zero_IP))"

definition dh_CNAME ::
  "('s, 'r, 't, 'zc, 'rc) storage_env \<Rightarrow> int \<Rightarrow> ('s, 't, 'zc, 'rc) DataHandler \<Rightarrow> string \<Rightarrow> string \<Rightarrow>
   (go_error + CNAME_RRSet) \<times> ('s, 't, 'zc, 'rc) DataHandler" where
  "dh_CNAME E now dh zone label =
     as_kind the_CNAME (getRRSet E now dh zone label TypeCNAME (CNAME_Set zero_CNAME))"

definition dh_TXT ::
  "('s, 'r, 't, 'zc, 'rc) storage_env \<Rightarrow> int \<Rightarrow> ('s, 't, 'zc, 'rc) DataHandler \<Rightarrow> string \<Rightarrow> string \<Rightarrow>
   (go_error + TXT_RRSet) \<times> ('s, 't, 'zc, 'rc) DataHandler" where
  "dh_TXT E now dh zone label =
     as_kind the_TXT (getRRSet E now dh zone label TypeTXT (TXT_Set zero_TXT))"

definition dh_NS ::
  "('s, 'r, 't, 'zc, 'rc) storage_env \<Rightarrow> int \<Rightarrow> ('s, 't, 'zc, 'rc) DataHandler \<Rightarrow> string \<Rightarrow> string \<Rightarrow>
   (go_error + NS_RRSet) \<times> ('s, 't, 'zc, 'rc) DataHandler" where
  "dh_NS E now dh zone label =
     as_kind the_NS (getRRSet E now dh zone label TypeNS (NS_Set zero_NS))"

definition dh_MX ::
  "('s, 'r, 't, 'zc, 'rc) storage_env \<Rightarrow> int \<Rightarrow> ('s, 't, 'zc, 'rc) DataHandler \<Rightarrow> string \<Rightarrow> string \<Rightarrow>
   (go_error + MX_RRSet) \<times> ('s, 't, 'zc, 'rc) DataHandler" where
  "dh_MX E now dh zone label =
     as_kind the_MX (getRRSet E now dh zone label TypeMX (MX_Set zero_MX))"

definition dh_SRV ::
  "('s, 'r, 't, 'zc, 'rc) storage_env \<Rightarrow> int \<Rightarrow> ('s, 't, 'zc, 'rc) DataHandler \<Rightarrow> string \<Rightarrow> string \<Rightarrow>
   (go_error + SRV_RRSet) \<times> ('s, 't, 'zc, 'rc) DataHandler" where
  "dh_SRV E now dh zone label =
     as_kind the_SRV (getRRSet E now dh zone label TypeSRV (SRV_Set zero_SRV))"

definition dh_CAA ::
  "('s, 'r, 't, 'zc, 'rc) storage_env \<Rightarrow> int \<Rightarrow> ('s, 't, 'zc, 'rc) DataHandler \<Rightarrow> string \<Rightarrow> string \<Rightarrow>
   (go_error + CAA_RRSet) \<times> ('s, 't, 'zc, 'rc) DataHandler" where
  "dh_CAA E now dh zone label =
     as_kind the_CAA (getRRSet E now dh zone label TypeCAA (CAA_Set zero_CAA))"

definition dh_PTR ::
  "('s, 'r, 't, 'zc, 'rc) storage_env \<Rightarrow> int \<Rightarrow> ('s, 't, 'zc, 'rc) DataHandler \<Rightarrow> string \<Rightarrow> string \<Rightarrow>
   (go_error + PTR_RRSet) \<times> ('s, 't, 'zc, 'rc) DataHandler" where
  "dh_PTR E now dh zone label =
     as_kind the_PTR (getRRSet E now dh zone label TypePTR (PTR_Set zero_PTR))"

definition dh_TLSA ::
  "('s, 'r, 't, 'zc, 'rc) storage_env \<Rightarrow> int \<Rightarrow> ('s, 't, 'zc, 'rc) DataHandler \<Rightarrow> string \<Rightarrow> string \<Rightarrow>
   (go_error + TLSA_RRSet) \<times> ('s, 't, 'zc, 'rc) DataHandler" where
  "dh_TLSA E now dh zone label =
     as_kind the_TLSA (getRRSet E now dh zone label TypeTLSA (TLSA_Set zero_TLSA))"

definition dh_DS ::
  "('s, 'r, 't, 'zc, 'rc) storage_env \<Rightarrow> int \<Rightarrow> ('s, 't, 'zc, 'rc) DataHandler \<Rightarrow> string \<Rightarrow> string \<Rightarrow>
   (go_error + DS_RRSet) \<times> ('s, 't, 'zc, 'rc) DataHandler" where
  "dh_DS E now dh zone label =
     as_kind the_DS (getRRSet E now dh zone label TypeDS (DS_Set zero_DS))"

definition dh_ANAME ::
  "('s, 'r, 't, 'zc, 'rc) storage_env \<Rightarrow> int \<Rightarrow> ('s, 't, 'zc, 'rc) DataHandler \<Rightarrow> string \<Rightarrow> string \<Rightarrow>
   (go_error + ANAME_RRSet) \<times> ('s, 't, 'zc, 'rc) DataHandler" where
  "dh_ANAME E now dh zone label =
     as_kind the_ANAME (getRRSet E now dh zone label TypeANAME (ANAME_Set zero_ANAME))"


definition SetRRSetFromJson ::
  "('s, 'r, 't, 'zc, 'rc) storage_env \<Rightarrow> 's \<Rightarrow> string \<Rightarrow> string \<Rightarrow> uint16 \<Rightarrow> string \<Rightarrow> go_error option \<times> 's" where
  "SetRRSetFromJson E s zone label rtype value =
     redis_Set (e_server E) (dc_Redis (e_config E)) s
       (zoneLocationRRSetKey zone label (TypeToString (e_tables E) rtype)) value"

definition SetRRSet ::
  "('s, 'r, 't, 'zc, 'rc) storage_env \<Rightarrow> 's \<Rightarrow> string \<Rightarrow> string \<Rightarrow> uint16 \<Rightarrow> RRSet \<Rightarrow> go_error option \<times> 's" where
  "SetRRSet E s zone label rtype rrset =
     (case j_MarshalRRSet (e_json E) (Some rrset) of
        Inl e \<Rightarrow> (Some e, s)
      | Inr jsonValue \<Rightarrow> SetRRSetFromJson E s zone label rtype jsonValue)"

definition fixTTL :: "uint32 \<Rightarrow> uint32 \<Rightarrow> uint32 \<Rightarrow> uint32" where
  "fixTTL ttl mn mx =
     (let ttl = (if ttl < mn then mn else ttl)
      in if mx < ttl then mx else ttl)"

text \<open>
  \<open>locationEntry\<close>, as the list of its fields that are not nil with their types, in the order
  of the struct.  \<open>set_ttl\<close> assigns the TTL of a record set.
\<close>

type_synonym locationEntry = "(uint16 \<times> RRSet) list"

fun set_ttl :: "uint32 \<Rightarrow> RRSet \<Rightarrow> RRSet" where
  "set_ttl t (IP_Set r) = IP_Set (r\<lparr>TtlValue := t\<rparr>)"
| "set_ttl t (CNAME_Set r) = CNAME_Set (r\<lparr>TtlValue := t\<rparr>)"
| "set_ttl t (TXT_Set r) = TXT_Set (r\<lparr>TtlValue := t\<rparr>)"
| "set_ttl t (NS_Set r) = NS_Set (r\<lparr>TtlValue := t\<rparr>)"
| "set_ttl t (MX_Set r) = MX_Set (r\<lparr>TtlValue := t\<rparr>)"
| "set_ttl t (SRV_Set r) = SRV_Set (r\<lparr>TtlValue := t\<rparr>)"
| "set_ttl t (CAA_Set r) = CAA_Set (r\<lparr>TtlValue := t\<rparr>)"
| "set_ttl t (PTR_Set r) = PTR_Set (r\<lparr>TtlValue := t\<rparr>)"
| "set_ttl t (TLSA_Set r) = TLSA_Set (r\<lparr>TtlValue := t\<rparr>)"
| "set_ttl t (DS_Set r) = DS_Set (r\<lparr>TtlValue := t\<rparr>)"
| "set_ttl t (SOA_Set r) = SOA_Set (r\<lparr>TtlValue := t\<rparr>)"
| "set_ttl t (ANAME_Set r) = ANAME_Set (r\<lparr>TtlValue := t\<rparr>)"

definition set_entry ::
  "('s, 'r, 't, 'zc, 'rc) storage_env \<Rightarrow> string \<Rightarrow> string \<Rightarrow> uint16 \<times> RRSet \<Rightarrow> 's \<Rightarrow> 's" where
  "set_entry E zone location = (\<lambda>(rtype, rrset) s.
     snd (SetRRSet E s zone location rtype
       (set_ttl (fixTTL (RRSet_Ttl rrset) (dc_MinTTL (e_config E)) (dc_MaxTTL (e_config E))) rrset)))"

definition SetLocationFromJson ::
  "('s, 'r, 't, 'zc, 'rc) storage_env \<Rightarrow> (string \<Rightarrow> go_error + locationEntry) \<Rightarrow> 's \<Rightarrow> string \<Rightarrow> string \<Rightarrow> string \<Rightarrow>
   go_error option \<times> 's" where
  "SetLocationFromJson E unmarshal s zone location value =
     (case unmarshal value of
        Inl e \<Rightarrow> (Some e, s)
      | Inr entry \<Rightarrow>
          (case EnableLocation E s zone location of
             (Some e, s) \<Rightarrow> (Some e, s)
           | (None, s) \<Rightarrow> (None, fold (set_entry E zone location) entry s)))"

section \<open>Revision\<close>

definition GetRevision ::
  "('s, 'r, 't, 'zc, 'rc) storage_env \<Rightarrow> 's \<Rightarrow> (go_error + int) \<times> 's" where
  "GetRevision E s =
     (case redis_Get (e_server E) (dc_Redis (e_config E)) s revisionKey of
        (Inl e, s) \<Rightarrow> (if e = ErrNil then Inr 0 else Inl e, s)
      | (Inr r, s) \<Rightarrow> (Atoi r, s))"

definition SetRevision ::
  "('s, 'r, 't, 'zc, 'rc) storage_env \<Rightarrow> 's \<Rightarrow> int \<Rightarrow> go_error option \<times> 's" where
  "SetRevision E s revision =
     redis_Set (e_server E) (dc_Redis (e_config E)) s revisionKey (Itoa revision)"

end
