(* ===== verification/StorageProps.thy ===== *)
theory StorageProps
  imports DataHandler
begin

text \<open>
  Properties of the storage layer: the zone of a name, keys and cache invalidation, reading
  back record sets, and the zones that are served.
\<close>

section \<open>The zone of a name\<close>

context radix_tree
begin

lemma get_zones_tree_fold:
  "r_Get R (fold (\<lambda>zone t. r_Insert R t (ReverseName zone) (Some zone)) zones t) (ReverseName k) =
   (if k \<in> set zones then Some (Some k) else r_Get R t (ReverseName k))"
  by (induction zones arbitrary: t) (auto simp: get_insert)

lemma get_zones_tree_other:
  "(\<And>z. k \<noteq> ReverseName z) \<Longrightarrow>
   r_Get R (fold (\<lambda>zone t. r_Insert R t (ReverseName zone) (Some zone)) zones t) k = r_Get R t k"
  by (induction zones arbitrary: t) (auto simp: get_insert)

lemma get_zones_tree:
  "r_Get R (zones_tree R zones) k = (if \<exists>z \<in> set zones. k = ReverseName z then Some (Some (THE z. k = ReverseName z)) else None)"
proof (cases "\<exists>z. k = ReverseName z")
  case True
  then obtain z where "k = ReverseName z" by blast
  then show ?thesis by (auto simp: zones_tree_def get_zones_tree_fold get_new)
next
  case False
  then show ?thesis by (auto simp: zones_tree_def get_zones_tree_other get_new)
qed

lemma find_zone_tree:
  "(case r_LongestPrefix R (zones_tree R zones) (ReverseName q) of Some (_, Some zname) \<Rightarrow> zname | _ \<Rightarrow> []) =
   (case find (\<lambda>a. a \<in> set zones) (enclosers q) of None \<Rightarrow> [] | Some a \<Rightarrow> a)"
proof (cases "r_LongestPrefix R (zones_tree R zones) (ReverseName q)")
  case None
  have "a \<notin> set zones" if "a \<in> set (enclosers q)" for a
    using None that unfolding longest_none by (auto simp: get_zones_tree prefix_ReverseName dest!: spec [of _ "ReverseName a"])
  then have "find (\<lambda>a. a \<in> set zones) (enclosers q) = None" by (simp add: find_None_iff)
  with None show ?thesis by simp
next
  case (Some kv)
  obtain k v where kv: "kv = (k, v)" by force
  note long = longest_some [OF Some [unfolded kv]]
  then obtain z where z: "z \<in> set zones" "k = ReverseName z" and v: "v = Some z"
    by (auto simp: get_zones_tree split: if_splits)
  have zq: "z \<in> set (enclosers q)" using long z by (simp add: prefix_ReverseName)
  then obtain a where a: "find (\<lambda>a. a \<in> set zones) (enclosers q) = Some a"
    using z(1) by (cases "find (\<lambda>a. a \<in> set zones) (enclosers q)") (auto simp: find_None_iff)
  have "length z \<le> length a"
    using find_first_longest [OF enclosers_sorted a zq] z(1) by simp
  moreover have "length a \<le> length z"
    using long z find_Some_in [OF a]
    by (auto simp: get_zones_tree prefix_ReverseName dest!: spec [of _ "ReverseName a"])
  ultimately have "a = z" using enclosers_same_length [of a q z] zq find_Some_in [OF a] by simp
  with a have "find (\<lambda>a. a \<in> set zones) (enclosers q) = Some z" by simp
  with Some kv v show ?thesis by simp
qed

end

lemma load_zones:
  assumes "radix_tree (e_radix E)" and "redis_laws (e_server E) up ks glob" and "up (dh_redis dh)"
    and "set_at (ks (dh_redis dh)) (rkey (dc_Redis (e_config E)) zonesKey) = Some A"
  shows "\<exists>dh'. LoadZones E now dh = Inr dh' \<and> dh_redis dh' = dh_redis dh \<and>
    (\<forall>q. FindZone E dh' q = (case find (\<lambda>a. a \<in> A) (enclosers q) of None \<Rightarrow> [] | Some a \<Rightarrow> a))"
proof -
  obtain zones where "SMembers (e_server E) (dc_Redis (e_config E)) (dh_redis dh) zonesKey = Some (Inr zones, dh_redis dh)"
    and A: "set zones = A"
    using redis_laws.smembers_complete [OF assms(2-4)] by blast
  then show ?thesis
    using radix_tree.find_zone_tree [OF assms(1), of zones]
    by (auto simp: LoadZones_def FindZone_def Let_def)
qed

text \<open>
  C29: the zone of a name.  After the zones are loaded, \<open>FindZone\<close> returns the longest loaded
  zone that the name equals or ends with at a label boundary, and the empty name if there is
  none.
\<close>

theorem find_zone_longest:
  assumes "radix_tree (e_radix E)" and "redis_laws (e_server E) up ks glob" and "up (dh_redis dh)"
    and "set_at (ks (dh_redis dh)) (rkey (dc_Redis (e_config E)) zonesKey) = Some A"
  shows "\<exists>dh'. LoadZones E now dh = Inr dh' \<and>
    FindZone E dh' q = (case find (\<lambda>a. a \<in> A) (enclosers q) of None \<Rightarrow> [] | Some a \<Rightarrow> a)"
  using load_zones [OF assms] by blast

definition map_cache :: "(string \<Rightarrow> 'v option, 'v) cache_api" where
  "map_cache = \<lparr>c_Get = (\<lambda>c k. c k), c_Set = (\<lambda>c k v. c(k \<mapsto> v)), c_Del = (\<lambda>c k. c(k := None))\<rparr>"

interpretation stored: lossy_cache map_cache
  by unfold_locales (auto simp: map_cache_def split: if_splits)

text \<open>A storage environment on the server in memory.\<close>

definition toy_config :: DataHandlerConfig where
  "toy_config =
     DefaultDataHandlerConfig\<lparr>dc_Redis := DefaultConfig\<lparr>rcfg_Prefix := [], rcfg_Suffix := []\<rparr>\<rparr>"

lemma toy_config_sel [simp]:
  "dc_Redis toy_config = DefaultConfig\<lparr>rcfg_Prefix := [], rcfg_Suffix := []\<rparr>"
  "dc_RecordCacheTimeout toy_config = 60" "dc_ZoneCacheTimeout toy_config = 60"
  by (simp_all add: toy_config_def DefaultDataHandlerConfig_def)

definition toy_txt :: RRSet where
  "toy_txt = TXT_Set \<lparr>TtlValue = 60, txt_Data = [''t'']\<rparr>"

definition toy_json :: json_api where
  "toy_json =
     \<lparr>j_NewZone = (\<lambda>_. Inl (Err ''json'')), j_ZoneUpdate = (\<lambda>_. Inl (Err ''json'')),
      j_ZoneDelete = (\<lambda>v. if v = ''{z}'' then Inr \<lparr>zd_Name = ''z.''\<rparr> else Inl (Err ''json'')),
      j_ImportHead = (\<lambda>_. Inl (Err ''json'')), j_NewLocation = (\<lambda>_. Inl (Err ''json'')),
      j_LocationUpdate = (\<lambda>_. Inl (Err ''json'')), j_LocationDelete = (\<lambda>_. Inl (Err ''json'')),
      j_RecordHead = (\<lambda>_. Inr \<lparr>rh_ZoneName = ''z.'', rh_Location = ''a'', rh_Type = ''txt'', rh_Enabled = True\<rparr>),
      j_RecordSetDelete = (\<lambda>_. Inl (Err ''json'')),
      j_Value = (\<lambda>_ _. Inr (Some toy_txt)),
      j_RRSet = (\<lambda>v r. if v = ''{t}'' then Inr toy_txt else Inl (Err ''json'')), j_NilError = Err ''json'',
      j_Config = (\<lambda>_ c. c), j_MarshalRRSet = (\<lambda>_. Inr ''{t}''), j_MarshalConfig = (\<lambda>_. Inr ''{c}'')\<rparr>"

definition toy_env ::
  "(mem, mem_reply, alist_tree, string \<Rightarrow> alist_tree Zone option, string \<Rightarrow> RRSet option) storage_env" where
  "toy_env = \<lparr>e_config = toy_config, e_server = mem_server, e_radix = alist_radix, e_fqdn = append_dot,
     e_tables = std_tables, e_crypto = toy_crypto, e_json = toy_json, e_NewRR = (\<lambda>_. Inl (Err ''rr'')),
     e_NewPrivateKey = (\<lambda>_ _. Inl (Err ''key'')), e_zoneCache = map_cache, e_recordCache = map_cache\<rparr>"

lemma toy_env_sel:
  "e_server toy_env = mem_server" "e_radix toy_env = alist_radix" "e_config toy_env = toy_config"
  "e_json toy_env = toy_json" "e_zoneCache toy_env = map_cache" "e_recordCache toy_env = map_cache"
  "e_tables toy_env = std_tables"
  by (simp_all add: toy_env_def)

definition toy_storage ::
  "mem \<Rightarrow> (mem, alist_tree, string \<Rightarrow> alist_tree Zone option, string \<Rightarrow> RRSet option) DataHandler" where
  "toy_storage s = NewDataHandler toy_env s (\<lambda>_. None) (\<lambda>_. None)"

theorem find_zone_longest_witness:
  "\<exists>dh'. LoadZones toy_env 0 (toy_storage [(''z42:zones'', VSet [''z.'', ''b.z.''])]) = Inr dh' \<and>
     FindZone toy_env dh' ''a.b.z.'' = ''b.z.''"
proof -
  let ?dh = "toy_storage [(''z42:zones'', VSet [''z.'', ''b.z.''])]"
  have "set_at (mem_keys (dh_redis ?dh)) (rkey (dc_Redis (e_config toy_env)) zonesKey) = Some {''z.'', ''b.z.''}"
    by (simp add: toy_env_sel toy_storage_def NewDataHandler_def zonesKey_def set_at_def mem_keys_def)
  moreover have "find (\<lambda>a. a \<in> {''z.'', ''b.z.''}) (enclosers ''a.b.z.'') = Some ''b.z.''"
    by code_simp
  ultimately show ?thesis
    using find_zone_longest [of toy_env "\<lambda>_. True" mem_keys mem_glob ?dh "{''z.'', ''b.z.''}" 0 "''a.b.z.''"]
      alist.radix_tree_axioms memory.redis_laws_axioms
    by (simp add: toy_env_sel)
qed

section \<open>Keys and invalidation\<close>

lemma no_colon_parts:
  assumes "CHR '':'' \<notin> set zone"
  shows "splitDbKey (zoneConfigKey zone) = [zone, ''config'']"
    and "splitDbKey (zoneLocationsKey zone) = [zone, ''labels'']"
    and "CHR '':'' \<notin> set t \<Longrightarrow> splitDbKey (zonePubKey zone t) = [zone, t, ''pub'']"
    and "CHR '':'' \<notin> set t \<Longrightarrow> splitDbKey (zonePrivKey zone t) = [zone, t, ''priv'']"
    and "CHR '':'' \<notin> set l \<Longrightarrow> CHR '':'' \<notin> set t \<Longrightarrow>
      splitDbKey (zoneLocationRRSetKey zone l t) = [zone, ''labels'', l, t]"
  using assms
  by (simp_all add: splitDbKey_def zoneConfigKey_def zoneLocationsKey_def zonePubKey_def zonePrivKey_def
      zoneLocationRRSetKey_def Split_append_sep Split_no_sep)

lemma rrset_key_inj:
  assumes "zoneLocationRRSetKey z l t = zoneLocationRRSetKey z' l' t'"
    and "CHR '':'' \<notin> set z \<union> set l \<union> set t" and "CHR '':'' \<notin> set z' \<union> set l' \<union> set t'"
  shows "z = z' \<and> l = l' \<and> t = t'"
proof -
  have "[z, ''labels'', l, t] = splitDbKey (zoneLocationRRSetKey z l t)"
    using assms(2) no_colon_parts(5) [of z l t] by simp
  also have "\<dots> = splitDbKey (zoneLocationRRSetKey z' l' t')" by (simp only: assms(1))
  also have "\<dots> = [z', ''labels'', l', t']"
    using assms(3) no_colon_parts(5) [of z' l' t'] by simp
  finally show ?thesis by simp
qed

text \<open>
  Cache invalidation.  A key event for a record set removes exactly the cached set of
  that key, and an event for the locations, the configuration or a key of a zone removes the
  cached zone; the other cache keeps its entries.
\<close>

lemma key_event_invalidates:
  assumes "lossy_cache (e_recordCache E)" and "lossy_cache (e_zoneCache E)"
    and "CHR '':'' \<notin> set zone \<union> set label \<union> set t"
  shows "c_Get (e_recordCache E) (dh_recordCache (on_key_event E (zoneLocationRRSetKey zone label t) dh))
      (zoneLocationRRSetKey zone label t) = None \<and>
    dh_zoneCache (on_key_event E (zoneLocationRRSetKey zone label t) dh) = dh_zoneCache dh \<and>
    (\<forall>key \<in> {zoneLocationsKey zone, zoneConfigKey zone, zonePubKey zone t, zonePrivKey zone t}.
       c_Get (e_zoneCache E) (dh_zoneCache (on_key_event E key dh)) zone = None \<and>
       dh_recordCache (on_key_event E key dh) = dh_recordCache dh)"
proof -
  have r: "isRRSetEntry [zone, ''labels'', label, t]" by (simp add: isRRSetEntry_def)
  have z: "\<not> isRRSetEntry [zone, x]" "\<not> isRRSetEntry [zone, x, y]" for x y
    by (simp_all add: isRRSetEntry_def)
  have gone: "c_Get (e_recordCache E) (c_Del (e_recordCache E) c k) k = None" for c k
    using lossy_cache.get_del [OF assms(1), of c k k]
    by (cases "c_Get (e_recordCache E) (c_Del (e_recordCache E) c k) k") auto
  have gone_zone: "c_Get (e_zoneCache E) (c_Del (e_zoneCache E) c k) k = None" for c k
    using lossy_cache.get_del [OF assms(2), of c k k]
    by (cases "c_Get (e_zoneCache E) (c_Del (e_zoneCache E) c k) k") auto
  show ?thesis
    using assms(3) r z gone gone_zone by (simp add: on_key_event_def no_colon_parts Let_def)
qed

section \<open>Record sets\<close>

lemma getRRSet_uncached:
  assumes "dc_RecordCacheTimeout (e_config E) < now"
  shows "fst (getRRSet E now dh zone label t z) =
    (case fst (redis_Get (e_server E) (dc_Redis (e_config E)) (dh_redis dh)
            (zoneLocationRRSetKey zone label (TypeToString (e_tables E) t))) of
       Inl e \<Rightarrow> if e = ErrNil then Inr z else Inl e
     | Inr val \<Rightarrow> if val \<noteq> [] then j_RRSet (e_json E) val z else Inr z)"
  using assms
  by (auto simp: getRRSet_def Let_def split: prod.splits sum.splits option.splits)

lemma getRRSet_redis:
  assumes "dc_RecordCacheTimeout (e_config E) < now"
  shows "dh_redis (snd (getRRSet E now dh zone label t z)) =
    snd (redis_Get (e_server E) (dc_Redis (e_config E)) (dh_redis dh)
      (zoneLocationRRSetKey zone label (TypeToString (e_tables E) t)))"
  using assms
  by (auto simp: getRRSet_def Let_def split: prod.splits sum.splits option.splits)

text \<open>
  The record cache is never used.  The test compares the clock, not the age of an entry,
  with the timeout, so after the first \<open>RecordCacheTimeout\<close> seconds of 1970 every lookup asks
  redis, whatever the cache holds.
\<close>

lemma record_cache_unused:
  assumes "dc_RecordCacheTimeout (e_config E) < now"
  shows "fst (getRRSet E now dh zone label t z) = fst (getRRSet E now (dh\<lparr>dh_recordCache := c\<rparr>) zone label t z) \<and>
    dh_redis (snd (getRRSet E now dh zone label t z)) =
      snd (redis_Get (e_server E) (dc_Redis (e_config E)) (dh_redis dh)
        (zoneLocationRRSetKey zone label (TypeToString (e_tables E) t)))"
  using getRRSet_uncached [OF assms] getRRSet_redis [OF assms] by simp

text \<open>
  A record set that is stored is read back, by every later lookup of its zone, label and
  type, when its JSON form decodes to it.
\<close>

lemma rrset_read_back:
  assumes "redis_laws (e_server E) up ks glob" and "up s"
    and "j_MarshalRRSet (e_json E) (Some r) = Inr str" and "str \<noteq> []"
    and "j_RRSet (e_json E) str z = Inr r" and "dc_RecordCacheTimeout (e_config E) < now"
  shows "\<exists>s'. SetRRSet E s zone label t r = (None, s') \<and> up s' \<and>
    fst (getRRSet E now (dh\<lparr>dh_redis := s'\<rparr>) zone label t z) = Inr r"
proof -
  let ?k = "zoneLocationRRSetKey zone label (TypeToString (e_tables E) t)" and ?c = "dc_Redis (e_config E)"
  obtain s' where s': "redis_Set (e_server E) ?c s ?k str = (None, s')" "up s'"
    "ks s' = (ks s)(rkey ?c ?k \<mapsto> RString str)"
    using redis_laws.set_stores [OF assms(1,2)] by blast
  then have "redis_Get (e_server E) ?c s' ?k = (Inr str, s')"
    by (intro redis_laws.get_found [OF assms(1)]) simp_all
  with s' assms(3-5) show ?thesis
    by (auto simp: SetRRSet_def SetRRSetFromJson_def getRRSet_uncached [OF assms(6)])
qed

end
