(* ===== verification/Resolver.thy ===== *)
theory Resolver
  imports HandlerProps StorageProps
begin

text \<open>
  The handler on top of the storage layer: the functions of \<open>storage.DataHandler\<close> that
  \<open>src/internal/resolver/handler.go\<close> calls, and the proof that they provide the view that
  the handler relies on.
\<close>

section \<open>The view\<close>

text \<open>
  The lookups see the state of the storage layer at the start of the request.  The entries
  that they leave in the caches are not visible to the handler.
\<close>

definition storage_view ::
  "('s, 'r, 't, 'zc, 'rc) storage_env \<Rightarrow> int \<Rightarrow> ('s, 't, 'zc, 'rc) DataHandler \<Rightarrow> 't data_view" where
  "storage_view E now dh =
     \<lparr>dv_FindZone = FindZone E dh,
      dv_GetZone = (\<lambda>n. map_sum id fst (GetZone E now dh n)),
      dv_A = (\<lambda>n l. fst (dh_A E now dh n l)), dv_AAAA = (\<lambda>n l. fst (dh_AAAA E now dh n l)),
      dv_CNAME = (\<lambda>n l. fst (dh_CNAME E now dh n l)), dv_TXT = (\<lambda>n l. fst (dh_TXT E now dh n l)),
      dv_NS = (\<lambda>n l. fst (dh_NS E now dh n l)), dv_MX = (\<lambda>n l. fst (dh_MX E now dh n l)),
      dv_SRV = (\<lambda>n l. fst (dh_SRV E now dh n l)), dv_CAA = (\<lambda>n l. fst (dh_CAA E now dh n l)),
      dv_PTR = (\<lambda>n l. fst (dh_PTR E now dh n l)), dv_TLSA = (\<lambda>n l. fst (dh_TLSA E now dh n l)),
      dv_DS = (\<lambda>n l. fst (dh_DS E now dh n l)), dv_ANAME = (\<lambda>n l. fst (dh_ANAME E now dh n l))\<rparr>"

section \<open>Loading a zone\<close>

text \<open>
  What is relied on of the stored data and the libraries: a stored configuration does not set
  the SOA to null, a stored public key is a DNSKEY record, and a private key that loads signs
  with the algorithm of its public key.
\<close>

definition sound_keys :: "('s, 'r, 't, 'zc, 'rc) storage_env \<Rightarrow> bool" where
  "sound_keys E \<longleftrightarrow>
     (\<forall>str r. e_NewRR E str = Inr r \<longrightarrow> (\<exists>k. r = RR_DNSKEY k)) \<and>
     (\<forall>k str pk zk. e_NewPrivateKey E k str = Inr pk \<and> zk_PrivateKey zk = pk \<and>
        key_Algorithm (zk_DnsKey zk) = key_Algorithm k \<longrightarrow> signs_with (e_crypto E) zk)"

definition sound_config :: "('s, 'r, 't, 'zc, 'rc) storage_env \<Rightarrow> bool" where
  "sound_config E \<longleftrightarrow> (\<forall>str c. zc_SOA c \<noteq> None \<longrightarrow> zc_SOA (j_Config (e_json E) str c) \<noteq> None)"

lemma NewZone_loads:
  assumes "sound_config E"
  shows "\<exists>z. NewZone R fqdn (j_Config (e_json E)) now zone locations configStr = Inr z \<and>
    z_Name z = zone \<and> z_LocationsTree z = locations_tree R locations \<and> z_LocationsList z = locations \<and>
    zc_SOA (z_Config z) \<noteq> None"
proof -
  let ?d = "default_config now zone"
  let ?c = "if length configStr > 0 then j_Config (e_json E) configStr ?d else ?d"
  have "zc_SOA ?d \<noteq> None" by (simp add: default_config_def)
  then have "zc_SOA ?c \<noteq> None" using assms by (auto simp: sound_config_def)
  then obtain soa where "zc_SOA ?c = Some soa" by blast
  then show ?thesis by (auto simp: NewZone_def ZoneConfigFromJson_def Let_def)
qed

lemma loadKey_loads:
  assumes "sound_keys E"
  shows "\<exists>k s'. loadKey E now s zone t = Inr (k, s') \<and>
    (\<forall>zk. k = Some zk \<longrightarrow>
       (\<forall>zk'. zk_PrivateKey zk' = zk_PrivateKey zk \<and>
          key_Algorithm (zk_DnsKey zk') = key_Algorithm (zk_DnsKey zk) \<longrightarrow> signs_with (e_crypto E) zk'))"
proof -
  obtain pub s1 where pub: "get_or_empty E s (zonePubKey zone t) = (pub, s1)" by force
  obtain priv s2 where priv: "get_or_empty E s1 (zonePrivKey zone t) = (priv, s2)" by force
  show ?thesis
  proof (cases "pub = [] \<or> priv = []")
    case True
    then show ?thesis using pub priv by (auto simp: loadKey_def)
  next
    case False
    show ?thesis
    proof (cases "e_NewRR E pub")
      case (Inl e)
      then show ?thesis using False pub priv by (auto simp: loadKey_def)
    next
      case (Inr r)
      then obtain k where r: "r = RR_DNSKEY k" using assms by (auto simp: sound_keys_def)
      have "signs_with (e_crypto E) zk'" if "e_NewPrivateKey E k str = Inr pk"
        "zk_PrivateKey zk' = pk" "key_Algorithm (zk_DnsKey zk') = key_Algorithm k" for str pk zk'
        using assms that by (auto simp: sound_keys_def)
      then show ?thesis
        using False pub priv Inr r by (auto simp: loadKey_def split: sum.splits)
    qed
  qed
qed

lemma sign_keys_signs:
  assumes "signs_with K (with_flags 257 ksk)"
  shows "\<exists>ksig. sign_keys K z zsk ksk =
    Inr (z\<lparr>z_ZSK := Some (with_ttl (hdr_Ttl (key_Hdr (zk_DnsKey ksk))) (with_flags 256 zsk)),
           z_KSK := Some (with_flags 257 ksk), z_DnsKeySig := Some ksig\<rparr>) \<and>
    hdr_Rrtype (Header ksig) = TypeRRSIG"
proof -
  have "\<exists>s. SignRRSet K rs n (Some key) ttl = Inr (RR_RRSIG s) \<and> hdr_Rrtype (sig_Hdr s) = TypeRRSIG"
    if key: "signs_with K key" and ne: "rs \<noteq> []" for rs n key ttl
  proof -
    have alg: "sig_Algorithm (rrsig_template K n key ttl) = key_Algorithm (zk_DnsKey key)"
      by (simp add: rrsig_template_def)
    have disj: "set rsa_algorithms \<inter> set ecdsa_algorithms = {}"
      by (simp add: rsa_algorithms_def ecdsa_algorithms_def)
    obtain s where "cr_Sign K (zk_PrivateKey key) (rrsig_template K n key ttl) rs = Inr s"
      "hdr_Rrtype (sig_Hdr s) = TypeRRSIG"
      using key ne unfolding signs_with_def by blast
    then show ?thesis
      using key disj
      by (auto simp: SignRRSet_def Let_def alg sign_or_nil_def signs_with_def usable_key_def)
  qed
  from this [OF assms, of "[RR_DNSKEY (zk_DnsKey (with_ttl (hdr_Ttl (key_Hdr (zk_DnsKey ksk))) (with_flags 256 zsk))),
      RR_DNSKEY (zk_DnsKey (with_flags 257 ksk))]" "z_Name z" "hdr_Ttl (key_Hdr (zk_DnsKey ksk))"]
  obtain s where "SignRRSet K [RR_DNSKEY (zk_DnsKey (with_ttl (hdr_Ttl (key_Hdr (zk_DnsKey ksk))) (with_flags 256 zsk))),
      RR_DNSKEY (zk_DnsKey (with_flags 257 ksk))] (z_Name z) (Some (with_flags 257 ksk))
      (hdr_Ttl (key_Hdr (zk_DnsKey ksk))) = Inr (RR_RRSIG s)" "hdr_Rrtype (sig_Hdr s) = TypeRRSIG"
    by auto
  then show ?thesis by (auto simp: sign_keys_def Let_def)
qed

lemma loadZoneKeys_serves:
  assumes "sound_keys E" and "lib_crypto L = e_crypto E"
    and "z_LocationsTree z = locations_tree (lib_radix L) (z_LocationsList z)" "zc_SOA (z_Config z) \<noteq> None"
  shows "\<exists>z' s'. loadZoneKeys E now s z = Inr (z', s') \<and> served_zone L z' \<and> z_Name z' = z_Name z \<and>
    z_LocationsList z' = z_LocationsList z"
proof (cases "zc_DnsSec (z_Config z)")
  case False
  then show ?thesis using assms by (simp add: loadZoneKeys_def served_zone_def)
next
  case True
  obtain zsk s1 where zsk: "loadKey E now s (z_Name z) ''zsk'' = Inr (zsk, s1)"
    and signs: "\<And>zk zk'. zsk = Some zk \<Longrightarrow> zk_PrivateKey zk' = zk_PrivateKey zk \<Longrightarrow>
       key_Algorithm (zk_DnsKey zk') = key_Algorithm (zk_DnsKey zk) \<Longrightarrow> signs_with (e_crypto E) zk'"
    using loadKey_loads [OF assms(1), of now s "z_Name z" "''zsk''"] by blast
  obtain ksk s2 where ksk: "loadKey E now s1 (z_Name z) ''ksk'' = Inr (ksk, s2)"
    and ksigns: "\<And>zk zk'. ksk = Some zk \<Longrightarrow> zk_PrivateKey zk' = zk_PrivateKey zk \<Longrightarrow>
       key_Algorithm (zk_DnsKey zk') = key_Algorithm (zk_DnsKey zk) \<Longrightarrow> signs_with (e_crypto E) zk'"
    using loadKey_loads [OF assms(1), of now s1 "z_Name z" "''ksk''"] by blast
  show ?thesis
  proof (cases "zsk = None \<or> ksk = None")
    case True
    then show ?thesis
      using \<open>zc_DnsSec (z_Config z)\<close> zsk ksk assms
      by (auto simp: loadZoneKeys_def served_zone_def disable_dnssec_def split: option.splits)
  next
    case False
    then obtain a b where ab: "zsk = Some a" "ksk = Some b" by auto
    have "signs_with (e_crypto E) (with_flags 257 b)" by (rule ksigns [OF ab(2)]) (simp_all add: with_flags_def)
    from sign_keys_signs [OF this, of z a] obtain ksig where
      sk: "sign_keys (e_crypto E) z a b =
        Inr (z\<lparr>z_ZSK := Some (with_ttl (hdr_Ttl (key_Hdr (zk_DnsKey b))) (with_flags 256 a)),
               z_KSK := Some (with_flags 257 b), z_DnsKeySig := Some ksig\<rparr>)"
      "hdr_Rrtype (Header ksig) = TypeRRSIG"
      by blast
    have "signs_with (e_crypto E) (with_ttl (hdr_Ttl (key_Hdr (zk_DnsKey b))) (with_flags 256 a))"
      by (rule signs [OF ab(1)]) (simp_all add: with_flags_def with_ttl_def)
    then show ?thesis
      using \<open>zc_DnsSec (z_Config z)\<close> zsk ksk ab sk assms
      by (simp add: loadZoneKeys_def served_zone_def)
  qed
qed

text \<open>The zones in the cache, which \<open>loadZone\<close> put there, are served.\<close>

definition cached_served :: "'t libs \<Rightarrow> ('s, 'r, 't, 'zc, 'rc) storage_env \<Rightarrow> 'zc \<Rightarrow> bool" where
  "cached_served L E zc \<longleftrightarrow> (\<forall>n z. c_Get (e_zoneCache E) zc n = Some z \<longrightarrow> served_zone L z)"

text \<open>
  The storage layer over a database in order: the label sets are sets, and the address
  records are strings whose weights do not overflow.
\<close>

definition sound_store ::
  "('s, 'r, 't, 'zc, 'rc) storage_env \<Rightarrow> keyspace \<Rightarrow> bool" where
  "sound_store E ks \<longleftrightarrow>
     (\<forall>n. set_at ks (rkey (dc_Redis (e_config E)) (zoneLocationsKey n)) \<noteq> None) \<and>
     (\<forall>n l t r. t \<in> {TypeA, TypeAAAA} \<longrightarrow>
        (case ks (rkey (dc_Redis (e_config E)) (zoneLocationRRSetKey n l (TypeToString (e_tables E) t))) of
           None \<Rightarrow> True
         | Some (RString v) \<Rightarrow> j_RRSet (e_json E) v (IP_Set zero_IP) = Inr (IP_Set r) \<longrightarrow> sane_ips r
         | Some (RSet _) \<Rightarrow> False))"

definition fits_libs :: "'t libs \<Rightarrow> ('s, 'r, 't, 'zc, 'rc) storage_env \<Rightarrow> bool" where
  "fits_libs L E \<longleftrightarrow> lib_crypto L = e_crypto E \<and> lib_radix L = e_radix E \<and> radix_tree (e_radix E) \<and>
     (\<forall>x. mset (lib_ord L x) = mset x) \<and> sound_keys E \<and> sound_config E \<and> lossy_cache (e_zoneCache E)"

lemma served_zone_timeout [simp]: "served_zone L (z\<lparr>z_CacheTimeout := t\<rparr>) = served_zone L z"
  by (simp add: served_zone_def)

lemma cached_served_set:
  assumes "lossy_cache (e_zoneCache E)" and "cached_served L E zc" and "served_zone L z"
  shows "cached_served L E (c_Set (e_zoneCache E) zc n z)"
  using assms unfolding cached_served_def by (metis lossy_cache.get_set)

lemma loadZone_serves:
  assumes laws: "redis_laws (e_server E) up ks glob" and "up (dh_redis dh)"
    and "sound_store E (ks (dh_redis dh))" and L: "fits_libs L E" and "cached_served L E (dh_zoneCache dh)"
  shows "\<exists>z dh'. loadZone E now dh n = Inr (Some z, dh') \<and> served_zone L z \<and> z_Name z = n \<and>
    Some (set (z_LocationsList z)) = set_at (ks (dh_redis dh)) (rkey (dc_Redis (e_config E)) (zoneLocationsKey n)) \<and>
    cached_served L E (dh_zoneCache dh')"
proof -
  obtain A where A: "set_at (ks (dh_redis dh)) (rkey (dc_Redis (e_config E)) (zoneLocationsKey n)) = Some A"
    using assms(3) unfolding sound_store_def by blast
  obtain locs where locs: "SMembers (e_server E) (dc_Redis (e_config E)) (dh_redis dh) (zoneLocationsKey n) =
      Some (Inr locs, dh_redis dh)" "set locs = A"
    using redis_laws.smembers_complete [OF laws assms(2) A] by blast
  obtain cfgstr s where cfg: "get_or_empty E (dh_redis dh) (zoneConfigKey n) = (cfgstr, s)" by force
  obtain z where z: "NewZone (e_radix E) (e_fqdn E) (j_Config (e_json E)) now n locs cfgstr = Inr z"
    "z_Name z = n" "z_LocationsTree z = locations_tree (e_radix E) locs" "z_LocationsList z = locs"
    "zc_SOA (z_Config z) \<noteq> None"
    using NewZone_loads [of E "e_radix E" "e_fqdn E" now n locs cfgstr] L by (auto simp: fits_libs_def)
  obtain z' s' where z': "loadZoneKeys E now s z = Inr (z', s')" "served_zone L z'" "z_Name z' = z_Name z"
    "z_LocationsList z' = z_LocationsList z"
    using loadZoneKeys_serves [of E L z now s] L z by (auto simp: fits_libs_def)
  have "cached_served L E (c_Set (e_zoneCache E) (dh_zoneCache dh) n
      (z'\<lparr>z_CacheTimeout := wrap64 (now + dc_ZoneCacheTimeout (e_config E))\<rparr>))"
    using L z'(2) assms(5) by (intro cached_served_set) (simp_all add: fits_libs_def)
  then show ?thesis
    using A locs cfg z z' by (auto simp: loadZone_def Let_def)
qed

lemma GetZone_serves:
  assumes "redis_laws (e_server E) up ks glob" and "up (dh_redis dh)"
    and "sound_store E (ks (dh_redis dh))" and "fits_libs L E" and "cached_served L E (dh_zoneCache dh)"
  shows "\<exists>z dh'. GetZone E now dh n = Inr (Some z, dh') \<and> served_zone L z \<and>
    cached_served L E (dh_zoneCache dh')"
proof -
  obtain z dh' where load: "loadZone E now dh n = Inr (Some z, dh')" "served_zone L z"
    "cached_served L E (dh_zoneCache dh')"
    using loadZone_serves [OF assms] by blast
  show ?thesis
  proof (cases "c_Get (e_zoneCache E) (dh_zoneCache dh) n")
    case None
    with load show ?thesis by (simp add: GetZone_def Let_def)
  next
    case (Some c)
    then have "served_zone L c" using assms(5) by (auto simp: cached_served_def)
    with Some load assms(5) show ?thesis by (cases "now \<le> z_CacheTimeout c") (simp_all add: GetZone_def Let_def)
  qed
qed

section \<open>Addresses\<close>

lemma sane_zero [simp]: "sane_ips zero_IP"
  by (simp add: sane_ips_def zero_IP_def total_weight_def)

lemma getRRSet_sane:
  assumes laws: "redis_laws (e_server E) up ks glob" and "up (dh_redis dh)"
    and "sound_store E (ks (dh_redis dh))" and "dc_RecordCacheTimeout (e_config E) < now"
    and t: "t \<in> {TypeA, TypeAAAA}" and "fst (getRRSet E now dh n l t (IP_Set zero_IP)) = Inr (IP_Set r)"
  shows "sane_ips r"
proof -
  let ?k = "zoneLocationRRSetKey n l (TypeToString (e_tables E) t)" and ?c = "dc_Redis (e_config E)"
  show ?thesis
  proof (cases "ks (dh_redis dh) (rkey ?c ?k)")
    case None
    then show ?thesis
      using redis_laws.get_missing [OF laws assms(2), of ?c ?k] assms(6)
      by (simp add: getRRSet_uncached [OF assms(4)] ErrNil_def)
  next
    case (Some w)
    have "\<forall>r. case Some w of None \<Rightarrow> True
         | Some (RString v) \<Rightarrow> j_RRSet (e_json E) v (IP_Set zero_IP) = Inr (IP_Set r) \<longrightarrow> sane_ips r
         | Some (RSet _) \<Rightarrow> False"
      using assms(3) t unfolding sound_store_def Some [symmetric] by blast
    then obtain v where w: "w = RString v"
      and v: "\<And>r. j_RRSet (e_json E) v (IP_Set zero_IP) = Inr (IP_Set r) \<Longrightarrow> sane_ips r"
      by (cases w) simp_all
    then show ?thesis
      using redis_laws.get_found [OF laws assms(2), of ?c ?k v] Some assms(6)
      by (auto simp: getRRSet_uncached [OF assms(4)] split: if_splits)
  qed
qed

lemma as_kind_IP: "fst (as_kind the_IP x) = Inr r \<Longrightarrow> fst x = Inr (IP_Set r)"
  by (cases x) (auto simp: as_kind_def andThen_Inr_iff split: option.splits elim!: the_IP.elims)

lemma storage_good_view:
  assumes "redis_laws (e_server E) up ks glob" and "up (dh_redis dh)"
    and "sound_store E (ks (dh_redis dh))" and "fits_libs L E" and "cached_served L E (dh_zoneCache dh)"
    and "dc_RecordCacheTimeout (e_config E) < now"
  shows "good_view L (storage_view E now dh)"
proof -
  have "\<exists>found. dv_GetZone (storage_view E now dh) n = Inr found \<and> (\<forall>z. found = Some z \<longrightarrow> served_zone L z)" for n
    using GetZone_serves [OF assms(1-5), of now n] by (auto simp: storage_view_def)
  moreover have "sane_ips r" if "dv_A (storage_view E now dh) n l = Inr r \<or> dv_AAAA (storage_view E now dh) n l = Inr r" for n l r
    using that getRRSet_sane [OF assms(1-3,6)]
    by (auto simp: storage_view_def dh_A_def dh_AAAA_def dest!: as_kind_IP)
  moreover have "radix_tree (lib_radix L)" "\<forall>x. mset (lib_ord L x) = mset x"
    using assms(4) by (simp_all add: fits_libs_def)
  ultimately show ?thesis unfolding good_view_def by blast
qed

section \<open>From the database to the answer\<close>

text \<open>A zone is served unsigned when it has no stored configuration, or one without DNSSEC.\<close>

definition plain_config :: "('s, 'r, 't, 'zc, 'rc) storage_env \<Rightarrow> string \<Rightarrow> rvalue option \<Rightarrow> bool" where
  "plain_config E n v \<longleftrightarrow>
     (case v of
        None \<Rightarrow> True
      | Some (RString str) \<Rightarrow> (\<forall>now. let c = j_Config (e_json E) str (default_config now n)
                               in \<not> zc_DnsSec c \<and> zc_SOA c \<noteq> None)
      | Some (RSet _) \<Rightarrow> False)"

lemma plain_config_zone:
  assumes "redis_laws (e_server E) up ks glob" and "up s"
    and "plain_config E n (ks s (rkey (dc_Redis (e_config E)) (zoneConfigKey n)))"
  shows "\<exists>str. get_or_empty E s (zoneConfigKey n) = (str, s) \<and>
    (\<exists>z. NewZone R fqdn (j_Config (e_json E)) now n locs str = Inr z \<and> z_Name z = n \<and>
      z_LocationsTree z = locations_tree R locs \<and> z_LocationsList z = locs \<and>
      zc_SOA (z_Config z) \<noteq> None \<and> \<not> zc_DnsSec (z_Config z))"
proof (cases "ks s (rkey (dc_Redis (e_config E)) (zoneConfigKey n))")
  case None
  from redis_laws.get_missing [OF assms(1,2) this] show ?thesis
    by (simp add: get_or_empty_def NewZone_def ZoneConfigFromJson_def default_config_def Let_def)
next
  case (Some v)
  then obtain str where v: "v = RString str" using assms(3) by (auto simp: plain_config_def split: rvalue.splits)
  let ?c = "if length str > 0 then j_Config (e_json E) str (default_config now n) else default_config now n"
  have "\<not> zc_DnsSec ?c" "zc_SOA ?c \<noteq> None"
    using assms(3) Some v by (auto simp: plain_config_def Let_def default_config_def)
  then obtain soa where "zc_SOA ?c = Some soa" "\<not> zc_DnsSec ?c" by blast
  then have "\<exists>z. NewZone R fqdn (j_Config (e_json E)) now n locs str = Inr z \<and> z_Name z = n \<and>
      z_LocationsTree z = locations_tree R locs \<and> z_LocationsList z = locs \<and>
      zc_SOA (z_Config z) \<noteq> None \<and> \<not> zc_DnsSec (z_Config z)"
    by (auto simp: NewZone_def ZoneConfigFromJson_def Let_def)
  moreover have "get_or_empty E s (zoneConfigKey n) = (str, s)"
    using redis_laws.get_found [OF assms(1,2) Some [unfolded v]] by (simp add: get_or_empty_def)
  ultimately show ?thesis by blast
qed

lemma loadZone_plain:
  assumes laws: "redis_laws (e_server E) up ks glob" and "up (dh_redis dh)"
    and A: "set_at (ks (dh_redis dh)) (rkey (dc_Redis (e_config E)) (zoneLocationsKey n)) = Some A"
    and cfg: "plain_config E n (ks (dh_redis dh) (rkey (dc_Redis (e_config E)) (zoneConfigKey n)))"
  shows "\<exists>z dh' locs. loadZone E now dh n = Inr (Some z, dh') \<and> z_Name z = n \<and> set locs = A \<and>
    z_LocationsTree z = locations_tree (e_radix E) locs \<and> z_LocationsList z = locs \<and>
    zc_SOA (z_Config z) \<noteq> None \<and> \<not> zc_DnsSec (z_Config z)"
proof -
  obtain locs where locs: "SMembers (e_server E) (dc_Redis (e_config E)) (dh_redis dh) (zoneLocationsKey n) =
      Some (Inr locs, dh_redis dh)" "set locs = A"
    using redis_laws.smembers_complete [OF laws assms(2) A] by blast
  from plain_config_zone [OF laws assms(2) cfg, of "e_radix E" "e_fqdn E" now locs] obtain str z where
    "get_or_empty E (dh_redis dh) (zoneConfigKey n) = (str, dh_redis dh)"
    "NewZone (e_radix E) (e_fqdn E) (j_Config (e_json E)) now n locs str = Inr z" "z_Name z = n"
    "z_LocationsTree z = locations_tree (e_radix E) locs" "z_LocationsList z = locs"
    "zc_SOA (z_Config z) \<noteq> None" "\<not> zc_DnsSec (z_Config z)" by blast
  then show ?thesis using locs by (simp add: loadZone_def Let_def loadZoneKeys_def)
qed

lemma getRRSet_missing:
  assumes "redis_laws (e_server E) up ks glob" and "up (dh_redis dh)"
    and "dc_RecordCacheTimeout (e_config E) < now"
    and "ks (dh_redis dh) (rkey (dc_Redis (e_config E)) (zoneLocationRRSetKey n l (TypeToString (e_tables E) t))) = None"
  shows "fst (getRRSet E now dh n l t z) = Inr z"
  using redis_laws.get_missing [OF assms(1,2,4)] by (simp add: getRRSet_uncached [OF assms(3)])

lemma FindLocation_label:
  assumes "radix_tree R" and "z_LocationsTree z = locations_tree R locs" and "l \<in> set locs"
  shows "FindLocation R z (l @ ''.'' @ z_Name z) = (l, ExactMatch)"
proof -
  have "l @ ''.'' @ z_Name z \<noteq> z_Name z"
    by (metis append_assoc append_self_conv2 append_is_Nil_conv not_Cons_self2)
  moreover have "TrimSuffix (l @ ''.'' @ z_Name z) (''.'' @ z_Name z) = l"
    by (simp add: TrimSuffix_def HasSuffix_def)
  ultimately show ?thesis
    using radix_tree.find_location_tree [OF assms(1), of z locs "l @ ''.'' @ z_Name z"] assms(2,3)
    by (simp add: find_location_spec_def)
qed

lemma stored_text_view:
  assumes "redis_laws (e_server E) up ks glob" and "up (dh_redis dh)"
    and "dc_RecordCacheTimeout (e_config E) < now"
    and "ks (dh_redis dh) (rkey (dc_Redis (e_config E)) (zoneLocationRRSetKey n l (TypeToString (e_tables E) TypeTXT))) = Some (RString v)"
    and "v \<noteq> []" and "j_RRSet (e_json E) v (TXT_Set zero_TXT) = Inr (TXT_Set r)"
  shows "dv_TXT (storage_view E now dh) n l = Inr r"
proof -
  have "fst (getRRSet E now dh n l TypeTXT (TXT_Set zero_TXT)) = Inr (TXT_Set r)"
    using redis_laws.get_found [OF assms(1,2,4)] assms(5,6) by (simp add: getRRSet_uncached [OF assms(3)])
  then show ?thesis
    by (cases "getRRSet E now dh n l TypeTXT (TXT_Set zero_TXT)")
      (simp add: storage_view_def dh_TXT_def as_kind_def)
qed

text \<open>
  A label of an unsigned zone that is neither an alias nor a delegation, and one where the
  database holds the text record set \<open>r\<close>.
\<close>

definition plain_site :: "('s, 'r, 't, 'zc, 'rc) storage_env \<Rightarrow> keyspace \<Rightarrow> string \<Rightarrow> string \<Rightarrow> bool" where
  "plain_site E ks n l \<longleftrightarrow>
     (let key_val = (\<lambda>key. ks (rkey (dc_Redis (e_config E)) key));
          rrset = (\<lambda>t. key_val (zoneLocationRRSetKey n l (TypeToString (e_tables E) t)))
      in (\<exists>A. key_val (zoneLocationsKey n) = Some (RSet A) \<and> l \<in> A) \<and>
         plain_config E n (key_val (zoneConfigKey n)) \<and>
         rrset TypeCNAME = None \<and> rrset TypeNS = None)"

definition text_stored ::
  "('s, 'r, 't, 'zc, 'rc) storage_env \<Rightarrow> keyspace \<Rightarrow> string \<Rightarrow> string \<Rightarrow> TXT_RRSet \<Rightarrow> bool" where
  "text_stored E ks n l r \<longleftrightarrow> plain_site E ks n l \<and>
     (\<exists>v. ks (rkey (dc_Redis (e_config E)) (zoneLocationRRSetKey n l (TypeToString (e_tables E) TypeTXT))) = Some (RString v) \<and>
        v \<noteq> [] \<and> j_RRSet (e_json E) v (TXT_Set zero_TXT) = Inr (TXT_Set r))"

lemma text_located:
  assumes laws: "redis_laws (e_server E) up ks glob" and up: "up (dh_redis dh)"
    and old: "dc_RecordCacheTimeout (e_config E) < now" and st: "text_stored E (ks (dh_redis dh)) n l r"
    and h: "h_RedisData h = storage_view E now dh" and L: "fits_libs L E"
    and z: "z_Name z = n" "z_LocationsTree z = locations_tree (e_radix E) locs" "l \<in> set locs"
  shows "located L h z (l @ ''.'' @ n) l"
proof -
  have none: "dv_CNAME (storage_view E now dh) n l = Inr zero_CNAME" "dv_NS (storage_view E now dh) n l = Inr zero_NS"
    using getRRSet_missing [of E up ks glob dh now n l TypeCNAME "CNAME_Set zero_CNAME"]
      getRRSet_missing [of E up ks glob dh now n l TypeNS "NS_Set zero_NS"] laws up old st
    by (auto simp: text_stored_def plain_site_def Let_def storage_view_def dh_CNAME_def dh_NS_def as_kind_def split: prod.splits)
  have "FindLocation (lib_radix L) z (l @ ''.'' @ n) = (l, ExactMatch)"
    using FindLocation_label [of "e_radix E" z locs l] L z by (simp add: fits_libs_def)
  then show ?thesis
    using none z(1) h by (simp add: located_def zero_CNAME_def zero_NS_def CNAME_Empty_def NS_Empty_def)
qed

lemma stored_text_answered:
  assumes laws: "redis_laws (e_server E) up ks glob" and up: "up (dh_redis dh)"
    and old: "dc_RecordCacheTimeout (e_config E) < now" and st: "text_stored E (ks (dh_redis dh)) n l r"
    and h: "h_RedisData h = storage_view E now dh" and L: "fits_libs L E"
    and zones: "dh_zones dh = zones_tree (e_radix E) zs"
    and zone: "find (\<lambda>a. a \<in> set zs) (enclosers (l @ ''.'' @ n)) = Some n" "n \<noteq> []"
    and cold: "c_Get (e_zoneCache E) (dh_zoneCache dh) n = None"
    and req: "fresh_request (lib_msg L) c" "raw_name c = l @ ''.'' @ n" "QType (lib_msg L) (rc_Req c) = TypeTXT"
  shows "\<exists>c'. HandleRequest L h t c = Inr c' \<and> rc_Res c' = RcodeSuccess \<and>
    rc_Answer c' = TXT_Value r (l @ ''.'' @ n)"
proof -
  obtain A where A: "ks (dh_redis dh) (rkey (dc_Redis (e_config E)) (zoneLocationsKey n)) = Some (RSet A)" "l \<in> A"
    and cfg: "plain_config E n (ks (dh_redis dh) (rkey (dc_Redis (e_config E)) (zoneConfigKey n)))"
    using st by (auto simp: text_stored_def plain_site_def Let_def)
  then have "set_at (ks (dh_redis dh)) (rkey (dc_Redis (e_config E)) (zoneLocationsKey n)) = Some A"
    by (simp add: set_at_def)
  from loadZone_plain [OF laws up this cfg, of now] obtain z dh' locs where
    load: "loadZone E now dh n = Inr (Some z, dh')" and z: "z_Name z = n" "z_LocationsTree z = locations_tree (e_radix E) locs"
    and locs: "l \<in> set locs" "z_LocationsList z = locs" "zc_SOA (z_Config z) \<noteq> None" "\<not> zc_DnsSec (z_Config z)"
    using A(2) by blast
  have "served_zone L z" using z locs L by (simp add: served_zone_def fits_libs_def)
  moreover have "located L h z (raw_name c) l"
    unfolding req(2) by (rule text_located [OF laws up old st h L z locs(1)])
  moreover have "plain_zone_of L h c z"
    using radix_tree.find_zone_tree [of "e_radix E" zs "l @ ''.'' @ n"] zones zone L load cold z(1) locs(4) req(2)
    by (simp add: plain_zone_of_def h storage_view_def FindZone_def fits_libs_def GetZone_def)
  moreover have "stored_records L (h_RedisData h) (z_Name z) l (QType (lib_msg L) (rc_Req c)) (raw_name c) =
      Some (Inr (TXT_Value r (l @ ''.'' @ n)))"
    using stored_text_view [OF laws up old, of n l _ r] st req z(1)
    by (auto simp: stored_records_def h text_stored_def plain_site_def Let_def)
  ultimately show ?thesis
    using located_records_served [OF req(1)] by blast
qed

text \<open>
  From the database to the answer.  When redis holds a text record set at a label of a
  zone that the loaded zone list maps the name to, and the zone is not in the cache yet, the
  handler loads the zone and answers a question for the name with exactly those records.
\<close>

lemma published_text_served:
  assumes laws: "redis_laws (e_server E) up ks glob" and up: "up (dh_redis dh)"
    and old: "dc_RecordCacheTimeout (e_config E) < now" and st: "text_stored E (ks (dh_redis dh)) n l r"
    and h: "h_RedisData h = storage_view E now dh" and L: "fits_libs L E"
    and zones: "dh_zones dh = zones_tree (e_radix E) zs"
    and zone: "find (\<lambda>a. a \<in> set zs) (enclosers (l @ ''.'' @ n)) = Some n" "n \<noteq> []"
    and cold: "c_Get (e_zoneCache E) (dh_zoneCache dh) n = None"
    and req: "fresh_request (lib_msg L) c" "raw_name c = l @ ''.'' @ n" "QType (lib_msg L) (rc_Req c) = TypeTXT"
  shows "\<exists>c'. HandleRequest L h t c = Inr c' \<and> rc_Res c' = RcodeSuccess \<and>
    rc_Answer c' = TXT_Value r (l @ ''.'' @ n)"
  using assms by (rule stored_text_answered)

text \<open>A database with the zone \<open>z.\<close> and a text record at \<open>a.z.\<close>, on the server in memory.\<close>

definition toy_data :: mem where
  "toy_data = [(''z42:zones:z.:labels'', VSet [''@'', ''a'']), (''z42:zones:z.:labels:a:txt'', VString ''{t}'')]"

definition toy_dh :: "(mem, alist_tree, string \<Rightarrow> alist_tree Zone option, string \<Rightarrow> RRSet option) DataHandler" where
  "toy_dh = (toy_storage toy_data)\<lparr>dh_zones := zones_tree alist_radix [''z.'']\<rparr>"

definition toy_server :: "int \<Rightarrow> alist_tree DnsRequestHandler" where
  "toy_server now = toy_handler\<lparr>h_RedisData := storage_view toy_env now toy_dh\<rparr>"

lemma toy_fits: "fits_libs toy_libs toy_env"
  using alist.radix_tree_axioms stored.lossy_cache_axioms
  by (simp add: fits_libs_def toy_libs_def toy_env_def sound_keys_def sound_config_def toy_json_def)

lemma toy_dh_sel [simp]: "dh_redis toy_dh = toy_data" "dh_zones toy_dh = zones_tree alist_radix [''z.'']"
  "dh_zoneCache toy_dh = (\<lambda>_. None)"
  by (simp_all add: toy_dh_def toy_storage_def NewDataHandler_def)

lemma toy_type_names: "TypeToString std_tables TypeTXT = ''txt''" "TypeToString std_tables TypeCNAME = ''cname''"
  "TypeToString std_tables TypeNS = ''ns''" "TypeToString std_tables TypeA = ''a''"
  "TypeToString std_tables TypeAAAA = ''aaaa''"
  by code_simp+

lemma toy_text_stored: "text_stored toy_env (mem_keys toy_data) ''z.'' ''a'' \<lparr>TtlValue = 60, txt_Data = [''t'']\<rparr>"
  by (simp add: text_stored_def plain_site_def Let_def plain_config_def toy_env_sel toy_type_names storage_keys)
    (simp add: mem_keys_def toy_data_def toy_json_def toy_txt_def)

lemma toy_sound_store: "sound_store toy_env (mem_keys toy_data)"
proof -
  have "set_at (mem_keys toy_data) (zoneLocationsKey n) \<noteq> None" for n
  proof -
    have "last (zoneLocationsKey n) = CHR ''s''" by (simp add: zoneLocationsKey_def)
    then have "zoneLocationsKey n \<noteq> ''z42:zones:z.:labels:a:txt''" by auto
    then show ?thesis by (simp add: set_at_def mem_keys_def toy_data_def)
  qed
  moreover have "mem_keys toy_data (zoneLocationRRSetKey n l (TypeToString std_tables t)) = None"
    if "t \<in> {TypeA, TypeAAAA}" for n l t
  proof -
    have "last (zoneLocationRRSetKey n l (TypeToString std_tables t)) = CHR ''a''"
      using that by (auto simp: zoneLocationRRSetKey_def toy_type_names)
    then show ?thesis by (auto simp: mem_keys_def toy_data_def)
  qed
  ultimately show ?thesis by (auto simp: sound_store_def toy_env_sel)
qed



end
