(* ===== verification/GoCache.thy ===== *)
theory GoCache
  imports GoPrelude
begin

text \<open>
  The cache with expiration of the package \<open>go-cache\<close>, which the rate limiter and the upstream
  resolver use.  The package is a parameter: a \<open>go_cache\<close> is its operations, and the locale
  states what they document.  Times and durations are in nanoseconds.
\<close>

record ('c, 'v) go_cache =
  gc_Get :: "'c \<Rightarrow> int \<Rightarrow> string \<Rightarrow> ('v \<times> int) option"
  gc_Set :: "'c \<Rightarrow> int \<Rightarrow> string \<Rightarrow> 'v \<Rightarrow> int \<Rightarrow> 'c"

text \<open>
  An entry is found, with the time it expires at, until that time has passed.  A duration of
  zero stands for the default expiration of the cache.
\<close>

locale expiring_cache =
  fixes C :: "('c, 'v) go_cache" and lifetime :: int
  assumes get_set_same: "0 \<le> d \<Longrightarrow> now \<le> now' \<Longrightarrow>
      gc_Get C (gc_Set C c now k v d) now' k =
        (if now' \<le> now + (if d = 0 then lifetime else d)
         then Some (v, now + (if d = 0 then lifetime else d)) else None)"
    and get_set_other: "k' \<noteq> k \<Longrightarrow> gc_Get C (gc_Set C c now k v d) now' k' = gc_Get C c now' k'"

definition map_go_cache :: "int \<Rightarrow> (string \<Rightarrow> ('v \<times> int) option, 'v) go_cache" where
  "map_go_cache lifetime =
     \<lparr>gc_Get = (\<lambda>c now k. case c k of None \<Rightarrow> None | Some (v, e) \<Rightarrow> if now \<le> e then Some (v, e) else None),
      gc_Set = (\<lambda>c now k v d. c(k \<mapsto> (v, now + (if d = 0 then lifetime else d))))\<rparr>"

interpretation map_go: expiring_cache "map_go_cache d" d
  by unfold_locales (auto simp: map_go_cache_def)

end
