(* ===== verification/RateLimit.thy ===== *)
theory RateLimit
  imports GoCache "HOL-Library.Signed_Division"
begin

text \<open>
  The rate limiter of the resolver: \<open>src/pkg/ratelimit/limiter.go\<close>.

  A limiter is a leaky bucket: it holds time, every accepted request adds one time step and
  the clock drains it.  \<open>CanHandle\<close> reads the clock once here, the cache of limiters is
  a \<open>go_cache\<close>.
\<close>

section \<open>The limiter\<close>

record RateLimitConfig =
  rl_Enable :: bool
  rl_Burst :: int
  rl_Rate :: int
  rl_WhiteList :: "string list"
  rl_BlackList :: "string list"

definition RateLimit_DefaultConfig :: RateLimitConfig where
  "RateLimit_DefaultConfig =
     \<lparr>rl_Enable = False, rl_Burst = 10, rl_Rate = 60, rl_WhiteList = [], rl_BlackList = []\<rparr>"

record Limiter =
  l_Size :: int
  l_LastUpdate :: int

record 'c RateLimiter =
  Limiters :: 'c
  MaxTime :: int
  TimeStep :: int
  Config :: RateLimitConfig
  WhiteList :: "string list"
  BlackList :: "string list"

definition millisecond :: int where "millisecond = 1000000"
definition minute :: int where "minute = 60000000000"

text \<open>The division panics for a rate of zero; the products are those of \<open>time.Duration\<close>.\<close>

definition NewRateLimiter :: "'c \<Rightarrow> RateLimitConfig \<Rightarrow> go_error + 'c RateLimiter" where
  "NewRateLimiter limiters config =
     (if rl_Rate config = 0 then Inl (Panic ''integer divide by zero'')
      else let timeStep = wrap64 ((60000 sdiv rl_Rate config) * millisecond) in
        Inr \<lparr>Limiters = limiters, MaxTime = wrap64 (timeStep * rl_Burst config), TimeStep = timeStep,
             Config = config, WhiteList = rl_WhiteList config, BlackList = rl_BlackList config\<rparr>)"

definition CanHandle ::
  "('c, Limiter) go_cache \<Rightarrow> int \<Rightarrow> 'c RateLimiter \<Rightarrow> string \<Rightarrow> bool \<times> 'c RateLimiter" where
  "CanHandle C now rl key =
     (if \<not> rl_Enable (Config rl) then (True, rl)
      else if key \<in> set (BlackList rl) then (False, rl)
      else if key \<in> set (WhiteList rl) then (True, rl)
      else case gc_Get C (Limiters rl) now key of
        Some (l, _) \<Rightarrow>
          let sz = l_Size l - (now - l_LastUpdate l);
              sz = (if sz < 0 then 0 else sz);
              res = (\<not> MaxTime rl < sz);
              l = l\<lparr>l_Size := (if res then sz + TimeStep rl else sz), l_LastUpdate := now\<rparr>
          in (res, rl\<lparr>Limiters := gc_Set C (Limiters rl) now key l minute\<rparr>)
      | None \<Rightarrow>
          let l = \<lparr>l_Size = TimeStep rl, l_LastUpdate = now\<rparr>
          in (True, rl\<lparr>Limiters := gc_Set C (Limiters rl) now key l minute\<rparr>))"

section \<open>Runs of requests\<close>

text \<open>The verdicts for requests of one key at the given times.\<close>

fun handle_all :: "('c, Limiter) go_cache \<Rightarrow> 'c RateLimiter \<Rightarrow> string \<Rightarrow> int list \<Rightarrow> bool list" where
  "handle_all C rl key [] = []"
| "handle_all C rl key (now # ts) =
     fst (CanHandle C now rl key) # handle_all C (snd (CanHandle C now rl key)) key ts"

definition accepted :: "bool list \<Rightarrow> int" where
  "accepted vs = int (length (filter id vs))"

lemma accepted_simps [simp]:
  "accepted [] = 0" "accepted (v # vs) = (if v then 1 else 0) + accepted vs"
  by (simp_all add: accepted_def)

text \<open>A key that the lists do not settle, under limits that fit the lifetime of an entry.\<close>

definition limited :: "'c RateLimiter \<Rightarrow> string \<Rightarrow> bool" where
  "limited rl key \<longleftrightarrow> rl_Enable (Config rl) \<and> key \<notin> set (BlackList rl) \<and> key \<notin> set (WhiteList rl) \<and>
     0 \<le> TimeStep rl \<and> 0 \<le> MaxTime rl \<and> MaxTime rl + TimeStep rl \<le> minute"

text \<open>The bucket of the key was last written at time \<open>t\<close> and holds \<open>sz\<close>.\<close>

definition bucket :: "('c, Limiter) go_cache \<Rightarrow> 'c RateLimiter \<Rightarrow> string \<Rightarrow> int \<Rightarrow> int \<Rightarrow> bool" where
  "bucket C rl key t sz \<longleftrightarrow> 0 \<le> sz \<and> sz \<le> MaxTime rl + TimeStep rl \<and>
     (\<forall>now \<ge> t. gc_Get C (Limiters rl) now key =
        (if now \<le> t + minute then Some (\<lparr>l_Size = sz, l_LastUpdate = t\<rparr>, t + minute) else None))"

lemma limited_kept: "limited (rl\<lparr>Limiters := c\<rparr>) key = limited rl key"
  by (simp add: limited_def)

locale limiter_cache = expiring_cache C lifetime
  for C :: "('c, Limiter) go_cache" and lifetime :: int
begin

lemma bucket_set:
  assumes "0 \<le> sz" and "sz \<le> MaxTime rl + TimeStep rl"
  shows "bucket C (rl\<lparr>Limiters := gc_Set C (Limiters rl) now key \<lparr>l_Size = sz, l_LastUpdate = now\<rparr> minute\<rparr>)
    key now sz"
  using assms by (auto simp: bucket_def get_set_same minute_def)

lemma first_request:
  assumes "limited rl key" and "gc_Get C (Limiters rl) now key = None"
  shows "\<exists>rl'. CanHandle C now rl key = (True, rl') \<and> bucket C rl' key now (TimeStep rl) \<and>
    limited rl' key \<and> TimeStep rl' = TimeStep rl \<and> MaxTime rl' = MaxTime rl"
  using assms bucket_set [of "TimeStep rl" rl now key]
  by (auto simp: CanHandle_def limited_def Let_def)

text \<open>One request: the level is what is left of the old one, plus a step if it is accepted.\<close>

lemma next_request:
  assumes lim: "limited rl key" and b: "bucket C rl key t sz" and t: "t \<le> now"
  shows "\<exists>ok rl' level. CanHandle C now rl key = (ok, rl') \<and>
    level = max 0 (sz - (now - t)) \<and> ok = (level \<le> MaxTime rl) \<and>
    bucket C rl' key now (if ok then level + TimeStep rl else level) \<and>
    limited rl' key \<and> TimeStep rl' = TimeStep rl \<and> MaxTime rl' = MaxTime rl"
proof (cases "now \<le> t + minute")
  case True
  let ?level = "max 0 (sz - (now - t))"
  let ?sz = "if ?level \<le> MaxTime rl then ?level + TimeStep rl else ?level"
  have get: "gc_Get C (Limiters rl) now key = Some (\<lparr>l_Size = sz, l_LastUpdate = t\<rparr>, t + minute)"
    using b t True by (simp add: bucket_def)
  have "?level \<le> MaxTime rl + TimeStep rl" "0 \<le> TimeStep rl"
    using b lim t by (auto simp: bucket_def limited_def)
  then have "bucket C (rl\<lparr>Limiters := gc_Set C (Limiters rl) now key \<lparr>l_Size = ?sz, l_LastUpdate = now\<rparr> minute\<rparr>)
      key now ?sz"
    by (intro bucket_set) auto
  moreover have "CanHandle C now rl key = (?level \<le> MaxTime rl,
      rl\<lparr>Limiters := gc_Set C (Limiters rl) now key \<lparr>l_Size = ?sz, l_LastUpdate = now\<rparr> minute\<rparr>)"
    using lim get by (auto simp: CanHandle_def limited_def Let_def max_def not_less)
  ultimately show ?thesis using lim by (simp add: limited_kept)
next
  case False
  then have none: "gc_Get C (Limiters rl) now key = None" and level: "max 0 (sz - (now - t)) = 0"
    using b lim t by (auto simp: bucket_def limited_def)
  from lim have "0 \<le> MaxTime rl" by (simp add: limited_def)
  then show ?thesis using first_request [OF lim none] level by auto
qed

lemma run_bounded:
  "limited rl key \<Longrightarrow> bucket C rl key t sz \<Longrightarrow> sorted (t # ts) \<Longrightarrow>
   accepted (handle_all C rl key ts) * TimeStep rl \<le> MaxTime rl + TimeStep rl - sz + (last (t # ts) - t)"
proof (induction ts arbitrary: rl t sz)
  case Nil
  then show ?case by (simp add: bucket_def)
next
  case (Cons now ts)
  from Cons.prems have t: "t \<le> now" "sorted (now # ts)" by auto
  obtain ok rl' level where step: "CanHandle C now rl key = (ok, rl')" "level = max 0 (sz - (now - t))"
    "bucket C rl' key now (if ok then level + TimeStep rl else level)" "limited rl' key"
    "TimeStep rl' = TimeStep rl" "MaxTime rl' = MaxTime rl"
    using next_request [OF Cons.prems(1,2) t(1)] by blast
  have "accepted (handle_all C rl' key ts) * TimeStep rl \<le>
      MaxTime rl + TimeStep rl - (if ok then level + TimeStep rl else level) + (last (now # ts) - now)"
    using Cons.IH [OF step(4,3) t(2)] step(5,6) by simp
  then show ?case using step(1,2) by (simp add: algebra_simps split: if_splits)
qed

lemma run_spaced:
  "limited rl key \<Longrightarrow> bucket C rl key t sz \<Longrightarrow> sz \<le> TimeStep rl \<Longrightarrow>
   successively (\<lambda>a b. a + TimeStep rl \<le> b) (t # ts) \<Longrightarrow> False \<notin> set (handle_all C rl key ts)"
proof (induction ts arbitrary: rl t sz)
  case (Cons now ts)
  from Cons.prems have gap: "t + TimeStep rl \<le> now" and t: "t \<le> now"
    by (auto simp: limited_def)
  obtain ok rl' level where step: "CanHandle C now rl key = (ok, rl')" "level = max 0 (sz - (now - t))"
    "ok = (level \<le> MaxTime rl)" "bucket C rl' key now (if ok then level + TimeStep rl else level)"
    "limited rl' key" "TimeStep rl' = TimeStep rl" "MaxTime rl' = MaxTime rl"
    using next_request [OF Cons.prems(1,2) t] by blast
  have level: "level = 0" using step(2) gap Cons.prems(3) by simp
  then have ok: ok using step(3) Cons.prems(1) by (simp add: limited_def)
  have "False \<notin> set (handle_all C rl' key ts)"
    using Cons.IH [OF step(5), of now "TimeStep rl"] step Cons.prems(4) level ok by simp
  then show ?case using step(1) ok by simp
qed simp

end

interpretation limiters: limiter_cache "map_go_cache d" d
  by (rule limiter_cache.intro) (rule map_go.expiring_cache_axioms)



end
