(* ===== verification/Server.thy ===== *)
theory Server
  imports Resolver RateLimit
begin

text \<open>
  The resolver program: \<open>handleRequest\<close> of \<open>src/cmd/resolver/resolver.go\<close>, which puts the rate
  limiter in front of the request handler.

  \<open>srv\<close> holds the global variables that it uses; \<open>IP\<close> is the method of coredns that gives the
  address of the peer without its port.  Times are in nanoseconds; the storage layer reads the
  clock in seconds.
\<close>

record ('c, 't) resolver_program =
  srv_rateLimiter :: "'c RateLimiter"
  srv_dnsRequestHandler :: "'t DnsRequestHandler"

definition RcodeRefused :: int where "RcodeRefused = 5"

text \<open>The name is computed for the log line, which leaves it in the context.\<close>

definition request_context :: "'t libs \<Rightarrow> int \<Rightarrow> ResponseWriter \<Rightarrow> Msg \<Rightarrow> 't RequestContext" where
  "request_context L now w r = snd (RawName (NewRequestContext (lib_msg L) now w r))"

definition handleRequest ::
  "'t libs \<Rightarrow> ('c, Limiter) go_cache \<Rightarrow> (ResponseWriter \<Rightarrow> string) \<Rightarrow> int \<Rightarrow> ResponseWriter \<Rightarrow> Msg \<Rightarrow>
   ('c, 't) resolver_program \<Rightarrow> (go_error + 't RequestContext) \<times> ('c, 't) resolver_program" where
  "handleRequest L C IP now w r srv =
     (let c = request_context L now w r in
      case CanHandle C now (srv_rateLimiter srv) (IP w) of (ok, rl) \<Rightarrow>
        (if ok then HandleRequest L (srv_dnsRequestHandler srv) now c
         else Inr (Response (lib_msg L) (c\<lparr>rc_Res := RcodeRefused\<rparr>)),
         srv\<lparr>srv_rateLimiter := rl\<rparr>))"

lemma request_context_fields [simp]:
  "rc_Req (request_context L now w r) = r" "rc_W (request_context L now w r) = w"
  by (simp_all add: request_context_def RawName_def NewRequestContext_def Let_def)

lemma Response_res [simp]: "rc_Res (Response A c) = rc_Res c"
  by (simp add: Response_def Let_def)

lemma handleRequest_refuses:
  assumes "\<not> fst (CanHandle C now (srv_rateLimiter srv) (IP w))"
  shows "\<exists>c'. fst (handleRequest L C IP now w r srv) = Inr c' \<and> rc_Res c' = RcodeRefused \<and>
    length (written c') = Suc (length (w_Written w))"
  using assms by (auto simp: handleRequest_def Let_def Response_written split: prod.splits)

lemma handleRequest_handles:
  assumes "fst (CanHandle C now (srv_rateLimiter srv) (IP w))"
    and "ends (HandleRequest L (srv_dnsRequestHandler srv) now (request_context L now w r))"
  shows "\<exists>c'. fst (handleRequest L C IP now w r srv) = Inr c' \<and>
    HandleRequest L (srv_dnsRequestHandler srv) now (request_context L now w r) = Inr c' \<and>
    length (written c') = length (w_Written w) + (if malformed_cookie (lib_msg L) r then 2 else 1)"
proof -
  obtain c' where c': "HandleRequest L (srv_dnsRequestHandler srv) now (request_context L now w r) = Inr c'"
    using assms(2) by (auto simp: ends_def)
  from responses_counted [OF this] show ?thesis
    using assms(1) c' by (auto simp: handleRequest_def Let_def split: prod.splits)
qed


text \<open>A program over the database in memory, with a limiter that admits one request per second.\<close>

definition toy_program :: "(string \<Rightarrow> (Limiter \<times> int) option, alist_tree) resolver_program" where
  "toy_program =
     \<lparr>srv_rateLimiter =
        (case NewRateLimiter (\<lambda>_. None) (RateLimit_DefaultConfig\<lparr>rl_Enable := True\<rparr>) of
           Inr rl \<Rightarrow> rl
         | Inl _ \<Rightarrow> \<lparr>Limiters = \<lambda>_. None, MaxTime = 0, TimeStep = 0, Config = RateLimit_DefaultConfig,
                    WhiteList = [], BlackList = []\<rparr>),
      srv_dnsRequestHandler = toy_server 1700000000\<rparr>"

end
