(* ===== verification/Upstream.thy ===== *)
theory Upstream
  imports Request GoCache
begin

text \<open>
  The client of the upstream resolvers: \<open>src/internal/upstream/upstream.go\<close>.

  \<open>exchange\<close> stands for \<open>dns.Client.Exchange\<close> during one call: what the server behind a
  connection replies to a question.  The cache is a \<open>go_cache\<close>, and a \<open>singleflight\<close> call
  runs its function.
\<close>

section \<open>State\<close>

record UpstreamConfig =
  uc_Ip :: string
  uc_Port :: int
  uc_Protocol :: string
  uc_Timeout :: int

definition Upstream_DefaultConfig :: UpstreamConfig where
  "Upstream_DefaultConfig = \<lparr>uc_Ip = ''1.1.1.1'', uc_Port = 53, uc_Protocol = ''udp'', uc_Timeout = 400\<rparr>"

text \<open>A connection with the fields of its client; the timeout is in nanoseconds.\<close>

record Connection =
  conn_Net :: string
  conn_Timeout :: int
  conn_connectionStr :: string

record 'c Upstream =
  u_connections :: "Connection list"
  u_cache :: 'c

type_synonym exchange = "Connection \<Rightarrow> string \<Rightarrow> uint16 \<Rightarrow> go_error + Msg"

definition defaultCacheTtl :: int where "defaultCacheTtl = 600"

definition new_connection :: "UpstreamConfig \<Rightarrow> Connection" where
  "new_connection c =
     \<lparr>conn_Net = uc_Protocol c, conn_Timeout = uc_Timeout c * 1000000,
      conn_connectionStr = uc_Ip c @ '':'' @ Itoa (uc_Port c)\<rparr>"

definition NewUpstream :: "'c \<Rightarrow> UpstreamConfig list \<Rightarrow> 'c Upstream" where
  "NewUpstream cache config = \<lparr>u_connections = map new_connection config, u_cache = cache\<rparr>"

section \<open>Query\<close>

fun set_hdr_ttl :: "uint32 \<Rightarrow> RR \<Rightarrow> RR" where
  "set_hdr_ttl t (RR_A h a) = RR_A (h\<lparr>hdr_Ttl := t\<rparr>) a"
| "set_hdr_ttl t (RR_AAAA h a) = RR_AAAA (h\<lparr>hdr_Ttl := t\<rparr>) a"
| "set_hdr_ttl t (RR_CNAME h a) = RR_CNAME (h\<lparr>hdr_Ttl := t\<rparr>) a"
| "set_hdr_ttl t (RR_TXT h a) = RR_TXT (h\<lparr>hdr_Ttl := t\<rparr>) a"
| "set_hdr_ttl t (RR_NS h a) = RR_NS (h\<lparr>hdr_Ttl := t\<rparr>) a"
| "set_hdr_ttl t (RR_MX h a b) = RR_MX (h\<lparr>hdr_Ttl := t\<rparr>) a b"
| "set_hdr_ttl t (RR_SRV h a b c d) = RR_SRV (h\<lparr>hdr_Ttl := t\<rparr>) a b c d"
| "set_hdr_ttl t (RR_CAA h a b c) = RR_CAA (h\<lparr>hdr_Ttl := t\<rparr>) a b c"
| "set_hdr_ttl t (RR_PTR h a) = RR_PTR (h\<lparr>hdr_Ttl := t\<rparr>) a"
| "set_hdr_ttl t (RR_TLSA h a b c d) = RR_TLSA (h\<lparr>hdr_Ttl := t\<rparr>) a b c d"
| "set_hdr_ttl t (RR_DS h a b c d) = RR_DS (h\<lparr>hdr_Ttl := t\<rparr>) a b c d"
| "set_hdr_ttl t (RR_SOA h a b c d e f g) = RR_SOA (h\<lparr>hdr_Ttl := t\<rparr>) a b c d e f g"
| "set_hdr_ttl t (RR_NSEC h a b) = RR_NSEC (h\<lparr>hdr_Ttl := t\<rparr>) a b"
| "set_hdr_ttl t (RR_DNSKEY k) = RR_DNSKEY (k\<lparr>key_Hdr := (key_Hdr k)\<lparr>hdr_Ttl := t\<rparr>\<rparr>)"
| "set_hdr_ttl t (RR_RRSIG s) = RR_RRSIG (s\<lparr>sig_Hdr := (sig_Hdr s)\<lparr>hdr_Ttl := t\<rparr>\<rparr>)"
| "set_hdr_ttl t (RR_OPT p) = RR_OPT (p\<lparr>opt_Hdr := (opt_Hdr p)\<lparr>hdr_Ttl := t\<rparr>\<rparr>)"
| "set_hdr_ttl t RR_NilRRSIG = RR_NilRRSIG"
| "set_hdr_ttl t RR_Nil = RR_Nil"
| "set_hdr_ttl t (RR_Other h) = RR_Other (h\<lparr>hdr_Ttl := t\<rparr>)"

definition query_key :: "string \<Rightarrow> uint16 \<Rightarrow> string" where
  "query_key location qtype = location @ '':'' @ Itoa (uint qtype)"

fun min_ttl :: "uint32 \<Rightarrow> RR list \<Rightarrow> uint32" where
  "min_ttl m [] = m"
| "min_ttl m (r # rs) = min_ttl (if hdr_Ttl (Header r) < m then hdr_Ttl (Header r) else m) rs"

text \<open>
  The loop over the connections.  The swap assigns the loop variable, not the element that it
  came from, so of its two assignments only the one to the first connection has an effect.
\<close>

fun query_loop ::
  "('c, RR list) go_cache \<Rightarrow> exchange \<Rightarrow> int \<Rightarrow> string \<Rightarrow> uint16 \<Rightarrow> Connection list \<Rightarrow> 'c Upstream \<Rightarrow>
   Msg option \<times> 'c Upstream" where
  "query_loop C ex now location qtype [] u = (None, u)"
| "query_loop C ex now location qtype (c # cs) u =
     (case ex c location qtype of
        Inl _ \<Rightarrow> query_loop C ex now location qtype cs u
      | Inr r \<Rightarrow>
          if msg_Rcode r \<noteq> RcodeSuccess then (Some r, u)
          else if msg_Answer r = [] then (Some r, u)
          else let minTtl = min_ttl (hdr_Ttl (Header (hd (msg_Answer r)))) (msg_Answer r)
               in (Some r, u\<lparr>u_cache := gc_Set C (u_cache u) now (query_key location qtype) (msg_Answer r)
                               (uint minTtl * second),
                             u_connections := (u_connections u)[0 := c]\<rparr>))"

text \<open>
  The cached records are shared with the answer; their TTL is set on every read, so the entry
  is kept as it was stored.
\<close>

definition Query ::
  "('c, RR list) go_cache \<Rightarrow> exchange \<Rightarrow> int \<Rightarrow> 'c Upstream \<Rightarrow> string \<Rightarrow> uint16 \<Rightarrow>
   (RR list \<times> int) \<times> 'c Upstream" where
  "Query C ex now u location qtype =
     (case gc_Get C (u_cache u) now (query_key location qtype) of
        Some (records, exp) \<Rightarrow>
          ((map (set_hdr_ttl (word_of_int ((exp - now) div second))) records, RcodeSuccess), u)
      | None \<Rightarrow>
          (case query_loop C ex now location qtype (u_connections u) u of
             (None, u) \<Rightarrow> (([], RcodeServerFailure), u)
           | (Some msg, u) \<Rightarrow> ((msg_Answer msg, msg_Rcode msg), u)))"

section \<open>Which server answers\<close>

definition fails :: "exchange \<Rightarrow> string \<Rightarrow> uint16 \<Rightarrow> Connection \<Rightarrow> bool" where
  "fails ex location qtype c \<longleftrightarrow> (\<exists>e. ex c location qtype = Inl e)"

lemma query_loop_skip:
  "\<forall>c \<in> set bad. fails ex l t c \<Longrightarrow> query_loop C ex now l t (bad @ cs) u = query_loop C ex now l t cs u"
  by (induction bad) (auto simp: fails_def)

lemma min_ttl_le: "min_ttl m rs \<le> m"
proof (induction rs arbitrary: m)
  case (Cons r rs)
  have "(if hdr_Ttl (Header r) < m then hdr_Ttl (Header r) else m) \<le> m" by (simp add: less_imp_le)
  then show ?case using Cons.IH order_trans by (metis min_ttl.simps(2))
qed simp

lemma min_ttl_member: "r \<in> set rs \<Longrightarrow> min_ttl m rs \<le> hdr_Ttl (Header r)"
proof (induction rs arbitrary: m)
  case (Cons x rs)
  let ?m = "if hdr_Ttl (Header x) < m then hdr_Ttl (Header x) else m"
  show ?case
  proof (cases "r = x")
    case True
    have "min_ttl ?m rs \<le> ?m" by (rule min_ttl_le)
    also have "?m \<le> hdr_Ttl (Header x)" by (simp add: not_less)
    finally show ?thesis using True by simp
  next
    case False
    then show ?thesis using Cons.IH [of ?m] Cons.prems by simp
  qed
qed simp

lemma min_ttl_attained: "min_ttl m rs = m \<or> (\<exists>r \<in> set rs. min_ttl m rs = hdr_Ttl (Header r))"
proof (induction rs arbitrary: m)
  case (Cons x rs)
  then show ?case using Cons.IH [of "if hdr_Ttl (Header x) < m then hdr_Ttl (Header x) else m"] by auto
qed simp

text \<open>The lifetime of an answer in the cache: the least TTL, or the default one if that is zero.\<close>

definition answer_ttl :: "RR list \<Rightarrow> int" where
  "answer_ttl rs = (let m = uint (min_ttl (hdr_Ttl (Header (hd rs))) rs) in if m = 0 then defaultCacheTtl else m)"

lemma query_loop_answer:
  assumes "ex c l t = Inr r" and "msg_Rcode r = RcodeSuccess" and "msg_Answer r \<noteq> []"
  shows "query_loop C ex now l t (c # cs) u =
    (Some r, u\<lparr>u_cache := gc_Set C (u_cache u) now (query_key l t) (msg_Answer r)
                 (uint (min_ttl (hdr_Ttl (Header (hd (msg_Answer r)))) (msg_Answer r)) * second),
               u_connections := (u_connections u)[0 := c]\<rparr>)"
  using assms by (simp add: Let_def)

text \<open>
  Failover.  A question that is not cached is answered by the first connection, in their
  order, whose exchange succeeds, with the answer and the response code of that server; when
  every exchange fails the result is a server failure without records.
\<close>

lemma query_first_answer:
  assumes "gc_Get C (u_cache u) now (query_key l t) = None"
  shows "if \<forall>c \<in> set (u_connections u). fails ex l t c
    then Query C ex now u l t = (([], RcodeServerFailure), u)
    else \<exists>bad c rest r u'. u_connections u = bad @ c # rest \<and> (\<forall>b \<in> set bad. fails ex l t b) \<and>
      ex c l t = Inr r \<and> Query C ex now u l t = ((msg_Answer r, msg_Rcode r), u')"
proof (cases "\<forall>c \<in> set (u_connections u). fails ex l t c")
  case True
  then have "query_loop C ex now l t (u_connections u @ []) u = (None, u)"
    by (subst query_loop_skip) auto
  with True assms show ?thesis by (simp add: Query_def)
next
  case False
  let ?bad = "takeWhile (fails ex l t) (u_connections u)"
  obtain c rest where split: "u_connections u = ?bad @ c # rest" "\<not> fails ex l t c"
    using False split_list_first_prop [of "u_connections u" "\<lambda>c. \<not> fails ex l t c"]
    by (metis takeWhile_eq_all_conv takeWhile_tail append_Nil2 takeWhile_append2)
  then obtain r where r: "ex c l t = Inr r" by (cases "ex c l t") (auto simp: fails_def)
  have bad: "\<forall>b \<in> set ?bad. fails ex l t b" by (auto dest: set_takeWhileD)
  have "query_loop C ex now l t (u_connections u) u = query_loop C ex now l t (c # rest) u"
    using query_loop_skip [OF bad] split(1) by metis
  moreover have "\<exists>u'. query_loop C ex now l t (c # rest) u = (Some r, u')"
    using r by (simp add: Let_def)
  ultimately obtain u' where "Query C ex now u l t = ((msg_Answer r, msg_Rcode r), u')"
    using assms by (auto simp: Query_def)
  with split(1) bad r False show ?thesis by metis
qed

definition toy_answer :: Msg where
  "toy_answer = new_Msg\<lparr>msg_Answer := [RR_TXT (inet_hdr ''x.'' TypeTXT 30) [''t'']]\<rparr>"

definition toy_exchange :: exchange where
  "toy_exchange c l t = (if conn_connectionStr c = ''a:53'' then Inl (Err ''timeout'') else Inr toy_answer)"

lemma toy_exchange_answers:
  "toy_exchange (new_connection Upstream_DefaultConfig) l t = Inr toy_answer"
  "fails toy_exchange l t (new_connection (Upstream_DefaultConfig\<lparr>uc_Ip := ''a''\<rparr>))"
proof -
  have "Itoa 53 = ''53''" by code_simp
  then show "toy_exchange (new_connection Upstream_DefaultConfig) l t = Inr toy_answer"
    "fails toy_exchange l t (new_connection (Upstream_DefaultConfig\<lparr>uc_Ip := ''a''\<rparr>))"
    by (simp_all add: toy_exchange_def new_connection_def Upstream_DefaultConfig_def fails_def)
qed

section \<open>The cache of answers\<close>

locale answer_cache = expiring_cache C lifetime
  for C :: "('c, RR list) go_cache" and lifetime :: int +
  assumes lifetime: "lifetime = defaultCacheTtl * second"
begin

lemma answer_cached:
  assumes "ex c l t = Inr r" and "msg_Rcode r = RcodeSuccess" and "msg_Answer r \<noteq> []"
    and "now \<le> now'" and u': "query_loop C ex now l t (c # cs) u = (Some r, u')"
  shows "gc_Get C (u_cache u') now' (query_key l t) =
    (if now' \<le> now + answer_ttl (msg_Answer r) * second
     then Some (msg_Answer r, now + answer_ttl (msg_Answer r) * second) else None)"
proof -
  let ?m = "uint (min_ttl (hdr_Ttl (Header (hd (msg_Answer r)))) (msg_Answer r)) * second"
  have "u_cache u' = gc_Set C (u_cache u) now (query_key l t) (msg_Answer r) ?m"
    using query_loop_answer [of ex c l t r C now cs u] assms(1-3) u' by auto
  moreover have "0 \<le> ?m" by (simp add: second_def)
  moreover have "(if ?m = 0 then lifetime else ?m) = answer_ttl (msg_Answer r) * second"
    by (simp add: answer_ttl_def Let_def lifetime second_def)
  ultimately show ?thesis using get_set_same [of ?m now now'] assms(4) by simp
qed

end

interpretation answers: answer_cache "map_go_cache (defaultCacheTtl * second)" "defaultCacheTtl * second"
  by unfold_locales (auto simp: map_go_cache_def)


text \<open>
  A failover loses a server.  When the first connection fails and a later one answers, the
  first one is overwritten and not put elsewhere, so unless it is listed twice it is never
  asked again.
\<close>

lemma failover_forgets:
  assumes "gc_Get C (u_cache u) now (query_key l t) = None"
    and "u_connections u = first # bad @ c # rest" and "fails ex l t first" and "\<forall>b \<in> set bad. fails ex l t b"
    and "ex c l t = Inr r" and "msg_Rcode r = RcodeSuccess" and "msg_Answer r \<noteq> []"
  shows "\<exists>u'. Query C ex now u l t = ((msg_Answer r, RcodeSuccess), u') \<and>
    u_connections u' = c # bad @ c # rest"
proof -
  have "query_loop C ex now l t ((first # bad) @ c # rest) u = query_loop C ex now l t (c # rest) u"
    using assms(3,4) by (intro query_loop_skip) auto
  then show ?thesis
    using query_loop_answer [of ex c l t r C now rest u] assms(1,2,5-7) by (simp add: Query_def)
qed


end
