(* ===== verification/StatHandler.thy ===== *)
theory StatHandler
  imports DataHandler
begin

text \<open>
  The store of health check results: \<open>src/internal/storage/stat_handler.go\<close> and
  \<open>src/internal/types/stats.go\<close>.

  Items are JSON strings in redis under \<open>z42:healthcheck:\<close>, with a cache in front.  The JSON
  codec is a parameter; \<open>se_Unmarshal\<close> decodes into a zero item and its error is dropped.
\<close>

section \<open>Items and state\<close>

record HealthCheckItem =
  hi_Protocol :: string
  hi_Uri :: string
  hi_Port :: int
  hi_Status :: int
  hi_LastCheck :: int
  hi_Timeout :: int
  hi_UpCount :: int
  hi_DownCount :: int
  hi_Enable :: bool
  hi_DomainId :: string
  hi_Host :: string
  hi_Ip :: string
  hi_Error :: "go_error option"

record ('s, 'r, 'hc) stat_env =
  se_server :: "('s, 'r) redis_server"
  se_redis :: RedisConfig
  se_cache :: "('hc, HealthCheckItem) cache_api"
  se_Unmarshal :: "string \<Rightarrow> HealthCheckItem"
  se_Marshal :: "HealthCheckItem \<Rightarrow> go_error + string"

record ('s, 'hc) StatHandler =
  sh_redis :: 's
  sh_cache :: 'hc

definition NewStatHandler :: "'s \<Rightarrow> 'hc \<Rightarrow> ('s, 'hc) StatHandler" where
  "NewStatHandler s c = \<lparr>sh_redis = s, sh_cache = c\<rparr>"

definition healthPrefix :: string where "healthPrefix = ''z42:healthcheck:''"

section \<open>Operations\<close>

definition GetActiveHealthcheckItems ::
  "('s, 'r, 'hc) stat_env \<Rightarrow> 's \<Rightarrow> ((go_error + string list) \<times> 's) option" where
  "GetActiveHealthcheckItems E s =
     (case GetKeys (se_server E) (se_redis E) s (healthPrefix @ ''*'') of
        None \<Rightarrow> None
      | Some (Inl e, s) \<Rightarrow> Some (Inl e, s)
      | Some (Inr itemKeys, s) \<Rightarrow> Some (Inr (map (\<lambda>k. TrimPrefix k healthPrefix) itemKeys), s))"

definition load_item :: "('s, 'r, 'hc) stat_env \<Rightarrow> string \<Rightarrow> HealthCheckItem" where
  "load_item E itemStr =
     (let item = se_Unmarshal E itemStr
      in if 0 < hi_DownCount item then item\<lparr>hi_DownCount := - hi_DownCount item\<rparr> else item)"

definition GetHealthcheckItem ::
  "('s, 'r, 'hc) stat_env \<Rightarrow> 's \<Rightarrow> string \<Rightarrow> (go_error + HealthCheckItem) \<times> 's" where
  "GetHealthcheckItem E s key =
     (case redis_Get (se_server E) (se_redis E) s (healthPrefix @ key) of
        (Inl e, s) \<Rightarrow> (Inl e, s)
      | (Inr itemStr, s) \<Rightarrow> (Inr (load_item E itemStr), s))"

definition SetHealthcheckItem ::
  "('s, 'r, 'hc) stat_env \<Rightarrow> 's \<Rightarrow> HealthCheckItem \<Rightarrow> go_error option \<times> 's" where
  "SetHealthcheckItem E s item =
     (case se_Marshal E item of
        Inl e \<Rightarrow> (Some e, s)
      | Inr itemStr \<Rightarrow>
          (None, snd (redis_Set (se_server E) (se_redis E) s
                   (healthPrefix @ hi_Host item @ '':'' @ hi_Ip item) itemStr)))"

definition SetHealthcheckItemExpiration ::
  "('s, 'r, 'hc) stat_env \<Rightarrow> 's \<Rightarrow> string \<Rightarrow> nat \<Rightarrow> go_error option \<times> 's" where
  "SetHealthcheckItemExpiration E s key lifespan =
     Expire (se_server E) (se_redis E) s (healthPrefix @ key) lifespan"

definition GetHealthStatus ::
  "('s, 'r, 'hc) stat_env \<Rightarrow> ('s, 'hc) StatHandler \<Rightarrow> string \<Rightarrow> string \<Rightarrow> int \<times> ('s, 'hc) StatHandler" where
  "GetHealthStatus E sh domain ip =
     (let key = domain @ '':'' @ ip in
      case c_Get (se_cache E) (sh_cache sh) key of
        Some item \<Rightarrow> (hi_Status item, sh)
      | None \<Rightarrow>
          (case GetHealthcheckItem E (sh_redis sh) key of
             (Inl _, s) \<Rightarrow> (0, sh\<lparr>sh_redis := s\<rparr>)
           | (Inr item, s) \<Rightarrow>
               (hi_Status item, sh\<lparr>sh_redis := s, sh_cache := c_Set (se_cache E) (sh_cache sh) key item\<rparr>)))"

definition stat_Clear :: "('s, 'r, 'hc) stat_env \<Rightarrow> 's \<Rightarrow> (go_error option \<times> 's) option" where
  "stat_Clear E s = redis_Del (se_server E) (se_redis E) s ''*''"

text \<open>
  The handler of key events.  \<open>strings.TrimLeft\<close> removes all leading bytes that occur in its
  second argument, not the prefix.
\<close>

definition TrimLeft :: "string \<Rightarrow> string \<Rightarrow> string" where
  "TrimLeft s cutset = dropWhile (\<lambda>c. c \<in> set cutset) s"

definition on_health_event ::
  "('s, 'r, 'hc) stat_env \<Rightarrow> string \<Rightarrow> ('s, 'hc) StatHandler \<Rightarrow> ('s, 'hc) StatHandler" where
  "on_health_event E channel sh =
     sh\<lparr>sh_cache := c_Del (se_cache E) (sh_cache sh) (TrimLeft channel healthPrefix)\<rparr>"

section \<open>Reading the status\<close>

text \<open>
  The items of a database without sets under the health keys, and a cache that agrees with it.
\<close>

definition stored_item :: "('s, 'r, 'hc) stat_env \<Rightarrow> keyspace \<Rightarrow> string \<Rightarrow> HealthCheckItem option" where
  "stored_item E ks key =
     (case ks (rkey (se_redis E) (healthPrefix @ key)) of
        Some (RString v) \<Rightarrow> Some (load_item E v)
      | _ \<Rightarrow> None)"

definition stored_status :: "('s, 'r, 'hc) stat_env \<Rightarrow> keyspace \<Rightarrow> string \<Rightarrow> int" where
  "stored_status E ks key = (case stored_item E ks key of None \<Rightarrow> 0 | Some item \<Rightarrow> hi_Status item)"

definition coherent :: "('s, 'r, 'hc) stat_env \<Rightarrow> keyspace \<Rightarrow> 'hc \<Rightarrow> bool" where
  "coherent E ks c \<longleftrightarrow>
     (\<forall>key A. ks (rkey (se_redis E) (healthPrefix @ key)) \<noteq> Some (RSet A)) \<and>
     (\<forall>key item. c_Get (se_cache E) c key = Some item \<longrightarrow> stored_item E ks key = Some item)"

lemma GetHealthcheckItem_reads:
  assumes laws: "redis_laws (se_server E) up ks glob" and up: "up s"
    and ok: "\<forall>A. ks s (rkey (se_redis E) (healthPrefix @ key)) \<noteq> Some (RSet A)"
  shows "GetHealthcheckItem E s key =
    (case stored_item E (ks s) key of None \<Rightarrow> Inl ErrNil | Some item \<Rightarrow> Inr item, s)"
proof (cases "ks s (rkey (se_redis E) (healthPrefix @ key))")
  case None
  then show ?thesis
    using redis_laws.get_missing [OF laws up, of "se_redis E" "healthPrefix @ key"]
    by (simp add: GetHealthcheckItem_def stored_item_def)
next
  case (Some x)
  then obtain v where "ks s (rkey (se_redis E) (healthPrefix @ key)) = Some (RString v)"
    using ok by (cases x) auto
  then show ?thesis
    using redis_laws.get_found [OF laws up, of "se_redis E" "healthPrefix @ key" v]
    by (simp add: GetHealthcheckItem_def stored_item_def)
qed

lemma GetHealthStatus_reads:
  assumes laws: "redis_laws (se_server E) up ks glob" and up: "up (sh_redis sh)"
    and cache: "lossy_cache (se_cache E)" and coh: "coherent E (ks (sh_redis sh)) (sh_cache sh)"
  shows "\<exists>c. GetHealthStatus E sh domain ip =
      (stored_status E (ks (sh_redis sh)) (domain @ '':'' @ ip), sh\<lparr>sh_cache := c\<rparr>) \<and>
    coherent E (ks (sh_redis sh)) c"
proof (cases "c_Get (se_cache E) (sh_cache sh) (domain @ '':'' @ ip)")
  case (Some item)
  then have "stored_item E (ks (sh_redis sh)) (domain @ '':'' @ ip) = Some item"
    using coh by (auto simp: coherent_def)
  with Some coh show ?thesis
    by (intro exI [of _ "sh_cache sh"]) (simp add: GetHealthStatus_def stored_status_def)
next
  case None
  let ?key = "domain @ '':'' @ ip"
  have read: "GetHealthcheckItem E (sh_redis sh) ?key =
    (case stored_item E (ks (sh_redis sh)) ?key of None \<Rightarrow> Inl ErrNil | Some item \<Rightarrow> Inr item, sh_redis sh)"
    using coh unfolding coherent_def by (intro GetHealthcheckItem_reads [OF laws up]) blast
  show ?thesis
  proof (cases "stored_item E (ks (sh_redis sh)) ?key")
    case missing: None
    then show ?thesis using None read coh
      by (intro exI [of _ "sh_cache sh"]) (simp add: GetHealthStatus_def stored_status_def)
  next
    case (Some item)
    have "coherent E (ks (sh_redis sh)) (c_Set (se_cache E) (sh_cache sh) ?key item)"
      using coh Some lossy_cache.get_set [OF cache, of "sh_cache sh" ?key item]
      unfolding coherent_def by blast
    then show ?thesis using None read Some
      by (intro exI [of _ "c_Set (se_cache E) (sh_cache sh) ?key item"])
        (simp add: GetHealthStatus_def stored_status_def)
  qed
qed

section \<open>Missed invalidations\<close>

lemma TrimLeft_prefix:
  "set p \<subseteq> set cutset \<Longrightarrow> TrimLeft (p @ s) cutset = TrimLeft s cutset"
  by (induction p) (auto simp: TrimLeft_def)

text \<open>
  An event for an item removes the cache entry of its key only if the key starts with a byte
  outside the prefix; the entry of a key such as \<open>a.example.:1.2.3.4\<close> stays.
\<close>

lemma health_event_misses:
  assumes "key \<noteq> []" and "hd key \<in> set healthPrefix"
  shows "\<exists>k. k \<noteq> key \<and> on_health_event E (healthPrefix @ key) sh =
    sh\<lparr>sh_cache := c_Del (se_cache E) (sh_cache sh) k\<rparr>"
proof -
  let ?k = "TrimLeft key healthPrefix"
  have "TrimLeft key healthPrefix = TrimLeft (tl key) healthPrefix"
    using assms by (cases key) (auto simp: TrimLeft_def)
  then have "length ?k < length key"
    using assms(1) length_dropWhile_le [of _ "tl key"] by (cases key) (auto simp: TrimLeft_def less_Suc_eq_le)
  then have "?k \<noteq> key" by auto
  then show ?thesis
    using TrimLeft_prefix [of healthPrefix healthPrefix key] by (auto simp: on_health_event_def)
qed

end
