(* ===== verification/HealthCheck.thy ===== *)
theory HealthCheck
  imports StatHandler StorageProps
begin

text \<open>
  Health checks of addresses: \<open>src/internal/healthcheck/healthcheck.go\<close>.

  The network is a parameter: \<open>http_Do\<close> is a \<open>HEAD\<close> request with the url, the TLS server name,
  the host header and the timeout, and returns the status code; the \<open>icmp\<close> functions are those of the
  package \<open>icmp\<close>, with the socket left implicit.
  Logging is left out.  The zero value of a time is 0.
\<close>

section \<open>State\<close>

record HealthcheckConfig =
  hcc_Enable :: bool
  hcc_MaxRequests :: int
  hcc_MaxPendingRequests :: int
  hcc_UpdateInterval :: int
  hcc_CheckInterval :: int

definition Healthcheck_DefaultConfig :: HealthcheckConfig where
  "Healthcheck_DefaultConfig = \<lparr>hcc_Enable = False, hcc_MaxRequests = 10, hcc_MaxPendingRequests = 100,
     hcc_UpdateInterval = 600, hcc_CheckInterval = 600\<rparr>"

text \<open>Intervals are in nanoseconds.\<close>

record Healthcheck =
  hk_Enable :: bool
  hk_maxRequests :: int
  hk_maxPendingRequests :: int
  hk_updateInterval :: int
  hk_checkInterval :: int

definition NewHealthcheck :: "HealthcheckConfig \<Rightarrow> Healthcheck" where
  "NewHealthcheck config =
     \<lparr>hk_Enable = hcc_Enable config, hk_maxRequests = hcc_MaxRequests config,
      hk_maxPendingRequests = hcc_MaxPendingRequests config,
      hk_updateInterval = wrap64 (hcc_UpdateInterval config * 1000000000),
      hk_checkInterval = wrap64 (hcc_CheckInterval config * 1000000000)\<rparr>"

record net_checks =
  http_Do :: "string \<Rightarrow> string \<Rightarrow> string \<Rightarrow> int \<Rightarrow> go_error + int"
  icmp_ListenPacket :: "go_error option"
  icmp_ParseIP :: "string \<Rightarrow> IP"
  icmp_Marshal :: "int \<Rightarrow> go_error + string"
  icmp_WriteTo :: "string \<Rightarrow> IP \<Rightarrow> go_error option"
  icmp_ReadFrom :: "int \<Rightarrow> go_error + string"
  icmp_ParseMessage :: "string \<Rightarrow> go_error + bool \<times> string"

section \<open>A check\<close>

definition TrimRight :: "string \<Rightarrow> string \<Rightarrow> string" where
  "TrimRight s cutset = rev (dropWhile (\<lambda>c. c \<in> set cutset) (rev s))"

definition httpCheck :: "net_checks \<Rightarrow> string \<Rightarrow> string \<Rightarrow> int \<Rightarrow> go_error option" where
  "httpCheck N url host timeout =
     (case http_Do N url host (TrimRight host ''.'') timeout of
        Inl e \<Rightarrow> Some e
      | Inr code \<Rightarrow>
          if code \<in> {200, 302, 301} then None
          else Some (Err (''invalid http status code : '' @ Itoa code)))"

text \<open>
  \<open>binary.BigEndian.Uint32\<close> panics on less than four bytes.  A message that was read is an echo reply or not; the
  text is how it is printed.
\<close>

definition BigEndian_Uint32 :: "IP \<Rightarrow> go_error + int" where
  "BigEndian_Uint32 ip =
     (let b = (case ip of None \<Rightarrow> [] | Some b \<Rightarrow> b)
      in if length b < 4 then Inl (Panic ''index out of range'')
         else Inr (foldl (\<lambda>n x. 256 * n + uint x) 0 (take 4 b)))"

definition pingCheck :: "net_checks \<Rightarrow> string \<Rightarrow> int \<Rightarrow> go_error option" where
  "pingCheck N ip timeout =
     (case icmp_ListenPacket N of
        Some e \<Rightarrow> Some e
      | None \<Rightarrow>
          (case andThen (BigEndian_Uint32 (icmp_ParseIP N ip)) (\<lambda>id.
                andThen (icmp_Marshal N id) (\<lambda>wb.
                case icmp_WriteTo N wb (icmp_ParseIP N ip) of
                  Some e \<Rightarrow> Inl e
                | None \<Rightarrow> andThen (icmp_ReadFrom N timeout) (icmp_ParseMessage N))) of
             Inl e \<Rightarrow> Some e
           | Inr (reply, rm) \<Rightarrow> if reply then None else Some (Err (''got '' @ rm @ ''; want echo reply''))))"

definition statusDown :: "HealthCheckItem \<Rightarrow> HealthCheckItem" where
  "statusDown item =
     (if hi_Status item \<le> 0
      then let status = hi_Status item - 1
           in item\<lparr>hi_Status := if status < hi_DownCount item then hi_DownCount item else status\<rparr>
      else item\<lparr>hi_Status := -1\<rparr>)"

definition statusUp :: "HealthCheckItem \<Rightarrow> HealthCheckItem" where
  "statusUp item =
     (if 0 \<le> hi_Status item
      then let status = hi_Status item + 1
           in item\<lparr>hi_Status := if hi_UpCount item < status then hi_UpCount item else status\<rparr>
      else item\<lparr>hi_Status := 1\<rparr>)"

text \<open>An unknown protocol is logged and leaves the error at nil.\<close>

definition run_check :: "net_checks \<Rightarrow> HealthCheckItem \<Rightarrow> go_error option" where
  "run_check N item =
     (let timeout = wrap64 (hi_Timeout item * 1000000) in
      if hi_Protocol item \<in> {''http'', ''https''}
      then httpCheck N (hi_Protocol item @ ''://'' @ hi_Ip item @ hi_Uri item) (hi_Host item) timeout
      else if hi_Protocol item \<in> {''ping'', ''icmp''} then pingCheck N (hi_Ip item) timeout
      else None)"

definition update_item :: "int \<Rightarrow> go_error option \<Rightarrow> HealthCheckItem \<Rightarrow> HealthCheckItem" where
  "update_item now err item =
     (let item = item\<lparr>hi_Error := err\<rparr>;
          item = (if err = None then statusUp item else statusDown item)
      in item\<lparr>hi_LastCheck := now\<rparr>)"

definition HandleHealthCheck ::
  "('s, 'r, 'hc) stat_env \<Rightarrow> net_checks \<Rightarrow> int \<Rightarrow> 's \<Rightarrow> HealthCheckItem \<Rightarrow> go_error + HealthCheckItem \<times> 's" where
  "HandleHealthCheck E N now s item =
     (case run_check N item of
        Some (Panic m) \<Rightarrow> Inl (Panic m)
      | err \<Rightarrow>
          let item = update_item now err item
          in Inr (item, snd (SetHealthcheckItem E s item)))"

text \<open>
  The id of an echo request is 0 for every IPv4 address, whose sixteen bytes begin with zeros; an address that does not parse,
  such as the printed form of a nil address, ends the program.
\<close>

lemma ping_id_v4: "To4 (Some b) \<noteq> None \<Longrightarrow> length b = 16 \<Longrightarrow> BigEndian_Uint32 (Some b) = Inr 0"
proof -
  assume "To4 (Some b) \<noteq> None" and b: "length b = 16"
  then have "take 12 b = v4InV6Prefix" by (simp split: if_splits)
  then have "take 4 (take 12 b) = take 4 v4InV6Prefix" by (simp only:)
  then have "take 4 b = replicate 4 0" by (simp add: v4InV6Prefix_def)
  then show ?thesis using b by (simp add: BigEndian_Uint32_def numeral_eq_Suc)
qed

lemma ping_nil_panics:
  assumes "hi_Protocol item \<in> {''ping'', ''icmp''}" and "icmp_ListenPacket N = None" and "icmp_ParseIP N (hi_Ip item) = None"
  shows "\<exists>m. HandleHealthCheck E N now s item = Inl (Panic m)"
  using assms by (auto simp: HandleHealthCheck_def run_check_def pingCheck_def BigEndian_Uint32_def andThen_def Let_def)

text \<open>The tick of \<open>Start\<close>: the items that are due, as they are queued for the workers.\<close>

fun due_items ::
  "('s, 'r, 'hc) stat_env \<Rightarrow> Healthcheck \<Rightarrow> int \<Rightarrow> string list \<Rightarrow> 's \<Rightarrow> HealthCheckItem list \<times> 's" where
  "due_items E h now [] s = ([], s)"
| "due_items E h now (itemKey # keys) s =
     (case GetHealthcheckItem E s itemKey of (r, s) \<Rightarrow>
      case due_items E h now keys s of (rest, s') \<Rightarrow>
        (case r of
           Inl _ \<Rightarrow> rest
         | Inr item \<Rightarrow> if hk_checkInterval h < now - hi_LastCheck item then item # rest else rest, s'))"

text \<open>
  One round of \<open>Start\<close>: the keys are read before the loop waits for the tick, and \<open>waiting\<close> is what
  the other clients do to redis in the meantime.
\<close>

definition start_round ::
  "('s, 'r, 'hc) stat_env \<Rightarrow> Healthcheck \<Rightarrow> int \<Rightarrow> ('s \<Rightarrow> 's) \<Rightarrow> 's \<Rightarrow> (HealthCheckItem list \<times> 's) option" where
  "start_round E h now waiting s =
     (if \<not> hk_Enable h then Some ([], s)
      else case GetActiveHealthcheckItems E s of
        None \<Rightarrow> None
      | Some (itemKeys, s) \<Rightarrow>
          Some (due_items E h now (case itemKeys of Inl _ \<Rightarrow> [] | Inr ks \<Rightarrow> ks) (waiting s)))"

section \<open>The filter\<close>

fun max_status ::
  "('s, 'r, 'hc) stat_env \<Rightarrow> string \<Rightarrow> IP_RR list \<Rightarrow> (nat \<times> int) list \<Rightarrow> int \<Rightarrow> ('s, 'hc) StatHandler \<Rightarrow>
   go_error + (int \<times> ('s, 'hc) StatHandler)" where
  "max_status E qname data [] mn sh = Inr (mn, sh)"
| "max_status E qname data ((i, x) # ms) mn sh =
     (if x = IpMaskWhite
      then andThen (idx data i) (\<lambda>r.
        case GetHealthStatus E sh qname (IP_String (ip_Ip r)) of (status, sh) \<Rightarrow>
          max_status E qname data ms (if mn < status then status else mn) sh)
      else max_status E qname data ms mn sh)"

fun mark_unhealthy ::
  "('s, 'r, 'hc) stat_env \<Rightarrow> string \<Rightarrow> IP_RR list \<Rightarrow> int \<Rightarrow> (nat \<times> int) list \<Rightarrow> ('s, 'hc) StatHandler \<Rightarrow>
   go_error + (int list \<times> ('s, 'hc) StatHandler)" where
  "mark_unhealthy E qname data mn [] sh = Inr ([], sh)"
| "mark_unhealthy E qname data mn ((i, x) # ms) sh =
     (if x = IpMaskWhite
      then andThen (idx data i) (\<lambda>r.
        case GetHealthStatus E sh qname (IP_String (ip_Ip r)) of (status, sh) \<Rightarrow>
          andThen (mark_unhealthy E qname data mn ms sh) (\<lambda>(rest, sh).
            Inr ((if status < mn then IpMaskBlack else x) # rest, sh)))
      else andThen (mark_unhealthy E qname data mn ms sh) (\<lambda>(rest, sh). Inr (IpMaskBlack # rest, sh)))"

definition health_threshold :: "IpHealthCheckConfig \<Rightarrow> int \<Rightarrow> int" where
  "health_threshold hc mn =
     (if mn < hc_UpCount hc - 1 \<and> hc_DownCount hc < mn then hc_DownCount hc + 1 else mn)"

definition FilterHealthcheck ::
  "('s, 'r, 'hc) stat_env \<Rightarrow> Healthcheck \<Rightarrow> ('s, 'hc) StatHandler \<Rightarrow> string \<Rightarrow> IP_RRSet \<Rightarrow> int list \<Rightarrow>
   go_error + (int list \<times> ('s, 'hc) StatHandler)" where
  "FilterHealthcheck E h sh qname rrset msk =
     (if \<not> hk_Enable h then Inr (msk, sh)
      else let hc = ips_HealthCheckConfig rrset; data = ips_Data rrset in
        andThen (max_status E qname data (enumerate 0 msk) (hc_DownCount hc) sh) (\<lambda>(mn, sh).
          mark_unhealthy E qname data (health_threshold hc mn) (enumerate 0 msk) sh))"

section \<open>Transfer\<close>

text \<open>
  One round of \<open>Transfer\<close>: for every address of a zone with health checks the item in redis is
  created, or replaced when the configuration has changed, and its lifetime extended.
  The limiter only delays the rounds.
\<close>

definition itemsEqual :: "HealthCheckItem \<Rightarrow> HealthCheckItem \<Rightarrow> bool" where
  "itemsEqual a b \<longleftrightarrow>
     hi_Ip a = hi_Ip b \<and> hi_Uri a = hi_Uri b \<and> hi_Port a = hi_Port b \<and> hi_Protocol a = hi_Protocol b \<and>
     hi_Enable a = hi_Enable b \<and> hi_UpCount a = hi_UpCount b \<and> hi_DownCount a = hi_DownCount b \<and>
     hi_Timeout a = hi_Timeout b"

definition new_item :: "string \<Rightarrow> string \<Rightarrow> IpHealthCheckConfig \<Rightarrow> IP_RR \<Rightarrow> HealthCheckItem" where
  "new_item fqdn domainId hc r =
     \<lparr>hi_Protocol = hc_Protocol hc, hi_Uri = hc_Uri hc, hi_Port = hc_Port hc, hi_Status = 0,
      hi_LastCheck = 0, hi_Timeout = hc_Timeout hc, hi_UpCount = hc_UpCount hc,
      hi_DownCount = hc_DownCount hc, hi_Enable = hc_Enable hc, hi_DomainId = domainId, hi_Host = fqdn,
      hi_Ip = IP_String (ip_Ip r), hi_Error = None\<rparr>"

definition transfer_address ::
  "('s, 'r, 'hc) stat_env \<Rightarrow> Healthcheck \<Rightarrow> string \<Rightarrow> string \<Rightarrow> IpHealthCheckConfig \<Rightarrow> IP_RR \<Rightarrow> 's \<Rightarrow> 's" where
  "transfer_address E h fqdn domainId hc r s =
     (let key = fqdn @ '':'' @ IP_String (ip_Ip r);
          newItem = new_item fqdn domainId hc r
      in case GetHealthcheckItem E s key of (old, s) \<Rightarrow>
         let keep = (case old of Inl _ \<Rightarrow> False | Inr oldItem \<Rightarrow> itemsEqual oldItem newItem);
             s = (if keep then s else snd (SetHealthcheckItem E s newItem))
         in snd (SetHealthcheckItemExpiration E s key (nat (hk_updateInterval h))))"

definition transfer_rrset ::
  "('s, 'r, 'hc) stat_env \<Rightarrow> Healthcheck \<Rightarrow> string \<Rightarrow> string \<Rightarrow> IP_RRSet \<Rightarrow> 's \<Rightarrow> 's" where
  "transfer_rrset E h fqdn domainId rrset s =
     (if \<not> hc_Enable (ips_HealthCheckConfig rrset) then s
      else fold (transfer_address E h fqdn domainId (ips_HealthCheckConfig rrset)) (ips_Data rrset) s)"

definition getDomainId ::
  "('s, 'r, 't, 'zc, 'rc) storage_env \<Rightarrow> int \<Rightarrow> ('s, 't, 'zc, 'rc) DataHandler \<Rightarrow> string \<Rightarrow>
   go_error + (string \<times> ('s, 't, 'zc, 'rc) DataHandler)" where
  "getDomainId D now dh zone =
     andThen (GetZoneConfig D now dh zone) (\<lambda>(cfg, dh).
       Inr (case cfg of Inl _ \<Rightarrow> [] | Inr c \<Rightarrow> zc_DomainId c, dh))"

text \<open>The data and the results are kept by two clients, so their states are separate.\<close>

definition transfer_location ::
  "('d, 'q, 't, 'zc, 'rc) storage_env \<Rightarrow> ('s, 'r, 'hc) stat_env \<Rightarrow> Healthcheck \<Rightarrow> int \<Rightarrow> string \<Rightarrow> string \<Rightarrow>
   string \<Rightarrow> ('d, 't, 'zc, 'rc) DataHandler \<times> 's \<Rightarrow> ('d, 't, 'zc, 'rc) DataHandler \<times> 's" where
  "transfer_location D E h now domainId domain subdomain = (\<lambda>(dh, s).
     case dh_A D now dh domain subdomain of (a, dh) \<Rightarrow>
     case dh_AAAA D now dh domain subdomain of (aaaa, dh) \<Rightarrow>
     (case (a, aaaa) of
        (Inr a, Inr aaaa) \<Rightarrow>
          (dh, transfer_rrset E h (subdomain @ ''.'' @ domain) domainId aaaa
                 (transfer_rrset E h (subdomain @ ''.'' @ domain) domainId a s))
      | _ \<Rightarrow> (dh, s)))"

definition transfer_zone ::
  "('d, 'q, 't, 'zc, 'rc) storage_env \<Rightarrow> ('s, 'r, 'hc) stat_env \<Rightarrow> Healthcheck \<Rightarrow> int \<Rightarrow> string \<Rightarrow>
   ('d, 't, 'zc, 'rc) DataHandler \<times> 's \<Rightarrow> go_error + (('d, 't, 'zc, 'rc) DataHandler \<times> 's)" where
  "transfer_zone D E h now domain = (\<lambda>(dh, s).
     andThen (getDomainId D now dh domain) (\<lambda>(domainId, dh).
     andThen (GetZoneLocations D now dh domain) (\<lambda>(subdomains, dh).
       Inr (fold (transfer_location D E h now domainId domain) subdomains (dh, s)))))"

fun transfer_zones ::
  "('d, 'q, 't, 'zc, 'rc) storage_env \<Rightarrow> ('s, 'r, 'hc) stat_env \<Rightarrow> Healthcheck \<Rightarrow> int \<Rightarrow> string list \<Rightarrow>
   ('d, 't, 'zc, 'rc) DataHandler \<times> 's \<Rightarrow> go_error + (('d, 't, 'zc, 'rc) DataHandler \<times> 's)" where
  "transfer_zones D E h now [] st = Inr st"
| "transfer_zones D E h now (domain # domains) st =
     andThen (transfer_zone D E h now domain st) (transfer_zones D E h now domains)"

definition Transfer_round ::
  "('d, 'q, 't, 'zc, 'rc) storage_env \<Rightarrow> ('s, 'r, 'hc) stat_env \<Rightarrow> Healthcheck \<Rightarrow> int \<Rightarrow>
   ('d, 't, 'zc, 'rc) DataHandler \<times> 's \<Rightarrow> go_error + (('d, 't, 'zc, 'rc) DataHandler \<times> 's)" where
  "Transfer_round D E h now = (\<lambda>(dh, s).
     andThen (GetZones D dh) (\<lambda>(domains, d). transfer_zones D E h now domains (dh\<lparr>dh_redis := d\<rparr>, s)))"

section \<open>The status counts the last run of checks\<close>

text \<open>The number of checks at the end that all had the verdict of the last one.\<close>

definition last_run :: "go_error option list \<Rightarrow> int" where
  "last_run errs = int (length (takeWhile (\<lambda>e. (e = None) = (last errs = None)) (rev errs)))"

lemma last_run_snoc:
  "last_run (errs @ [e]) =
     (if errs \<noteq> [] \<and> (e = None) = (last errs = None) then last_run errs + 1 else 1)"
proof (cases errs rule: rev_cases)
  case (snoc xs x)
  have "(\<lambda>y. (y = None) = (e = None)) = (\<lambda>y. (y = None) = (x = None))" if "(e = None) = (x = None)"
    using that by auto
  then show ?thesis using snoc by (auto simp: last_run_def)
qed (simp add: last_run_def)

lemma last_run_pos: "errs \<noteq> [] \<Longrightarrow> 1 \<le> last_run errs"
  by (cases errs rule: rev_cases) (auto simp: last_run_def)

lemma update_item_fields [simp]:
  "hi_UpCount (update_item now e item) = hi_UpCount item"
  "hi_DownCount (update_item now e item) = hi_DownCount item"
  by (simp_all add: update_item_def statusUp_def statusDown_def Let_def)

lemma update_item_status:
  "hi_Status (update_item now e item) =
     (if e = None then (if 0 \<le> hi_Status item then min (hi_UpCount item) (hi_Status item + 1) else 1)
      else (if hi_Status item \<le> 0 then max (hi_DownCount item) (hi_Status item - 1) else -1))"
  by (auto simp: update_item_def statusUp_def statusDown_def Let_def)

lemma update_items_fields [simp]:
  "hi_UpCount (fold (update_item now) errs item) = hi_UpCount item"
  "hi_DownCount (fold (update_item now) errs item) = hi_DownCount item"
  by (induction errs arbitrary: item) auto

text \<open>
  C33: the status of an item counts the last run of equal verdicts.  After any checks of a new
  item it is the number of successes since the last failure, up to \<open>UpCount\<close>, or minus the
  number of failures since the last success, down to \<open>DownCount\<close>.
\<close>

theorem status_counts_run:
  assumes "hi_Status item = 0" and "0 < hi_UpCount item" and "hi_DownCount item < 0"
  shows "hi_Status (fold (update_item now) errs item) =
    (if errs = [] then 0
     else if last errs = None then min (hi_UpCount item) (last_run errs)
     else max (hi_DownCount item) (- last_run errs))"
proof (induction errs rule: rev_induct)
  case (snoc e errs)
  let ?i = "fold (update_item now) errs item"
  have "hi_Status (fold (update_item now) (errs @ [e]) item) = hi_Status (update_item now e ?i)" by simp
  also have "\<dots> = (if e = None then min (hi_UpCount item) (last_run (errs @ [e]))
      else max (hi_DownCount item) (- last_run (errs @ [e])))"
    using snoc.IH assms last_run_pos [of errs] by (auto simp: update_item_status last_run_snoc)
  finally show ?case by simp
qed (simp add: assms)

theorem status_counts_run_witness:
  "hi_Status (fold (update_item 0) [None, Some (Err ''down''), None, None, None, None]
     (new_item ''a.z.'' [] (zero_healthcheck\<lparr>hc_UpCount := 3, hc_DownCount := -3\<rparr>)
        \<lparr>ip_Weight = 0, ip_Ip = None, ip_Country = [], ip_ASN = []\<rparr>)) = 3"
  using status_counts_run [of "new_item ''a.z.'' [] (zero_healthcheck\<lparr>hc_UpCount := 3, hc_DownCount := -3\<rparr>)
        \<lparr>ip_Weight = 0, ip_Ip = None, ip_Country = [], ip_ASN = []\<rparr>" 0
      "[None, Some (Err ''down''), None, None, None, None]"]
  by (simp add: new_item_def last_run_def)

section \<open>What the filter keeps\<close>

text \<open>The filter on the stored statuses of the addresses.\<close>

definition address_status ::
  "('s, 'r, 'hc) stat_env \<Rightarrow> keyspace \<Rightarrow> string \<Rightarrow> IP_RRSet \<Rightarrow> nat \<Rightarrow> int" where
  "address_status E ks qname rrset i =
     stored_status E ks (qname @ '':'' @ IP_String (ip_Ip (ips_Data rrset ! i)))"

definition best_status :: "(nat \<Rightarrow> int) \<Rightarrow> (nat \<times> int) list \<Rightarrow> int \<Rightarrow> int" where
  "best_status st ms mn = fold (\<lambda>(i, x) m. if x = IpMaskWhite then max m (st i) else m) ms mn"

definition healthy_mask :: "(nat \<Rightarrow> int) \<Rightarrow> int \<Rightarrow> (nat \<times> int) list \<Rightarrow> int list" where
  "healthy_mask st mn ms = map (\<lambda>(i, x). if x = IpMaskWhite \<and> mn \<le> st i then IpMaskWhite else IpMaskBlack) ms"

lemma best_status_simps [simp]:
  "best_status st [] mn = mn"
  "best_status st ((i, x) # ms) mn = best_status st ms (if x = IpMaskWhite then max mn (st i) else mn)"
  by (simp_all add: best_status_def)

lemma best_status_ge: "mn \<le> best_status st ms mn"
proof (induction ms arbitrary: mn)
  case (Cons m ms)
  obtain i x where m: "m = (i, x)" by force
  show ?case using Cons [of "if x = IpMaskWhite then max mn (st i) else mn"] m by (auto split: if_splits)
qed simp

lemma best_status_member: "(i, IpMaskWhite) \<in> set ms \<Longrightarrow> st i \<le> best_status st ms mn"
proof (induction ms arbitrary: mn)
  case (Cons m ms)
  show ?case
  proof (cases "m = (i, IpMaskWhite)")
    case True
    then show ?thesis using best_status_ge [of "max mn (st i)" st ms] by simp
  next
    case False
    then show ?thesis using Cons by (cases m) auto
  qed
qed simp

lemma best_status_attained:
  "best_status st ms mn = mn \<or> (\<exists>i. (i, IpMaskWhite) \<in> set ms \<and> best_status st ms mn = st i)"
proof (induction ms arbitrary: mn)
  case (Cons m ms)
  obtain i x where m: "m = (i, x)" by force
  show ?case using Cons [of "if x = IpMaskWhite then max mn (st i) else mn"] m
    by (auto simp: max_def split: if_splits)
qed simp

lemma max_status_reads:
  assumes laws: "redis_laws (se_server E) up ks glob" and cache: "lossy_cache (se_cache E)"
  shows "up (sh_redis sh) \<Longrightarrow> coherent E (ks (sh_redis sh)) (sh_cache sh) \<Longrightarrow>
    \<forall>(i, x) \<in> set ms. i < length (ips_Data rrset) \<Longrightarrow>
    \<exists>c. max_status E qname (ips_Data rrset) ms mn sh =
        Inr (best_status (address_status E (ks (sh_redis sh)) qname rrset) ms mn, sh\<lparr>sh_cache := c\<rparr>) \<and>
      coherent E (ks (sh_redis sh)) c"
proof (induction ms arbitrary: mn sh)
  case Nil
  then show ?case by (intro exI [of _ "sh_cache sh"]) simp
next
  case (Cons m ms)
  obtain i x where m: "m = (i, x)" by force
  show ?case
  proof (cases "x = IpMaskWhite")
    case True
    have i: "i < length (ips_Data rrset)" using Cons.prems(3) m by auto
    let ?st = "address_status E (ks (sh_redis sh)) qname rrset i"
    obtain c where c: "GetHealthStatus E sh qname (IP_String (ip_Ip (ips_Data rrset ! i))) = (?st, sh\<lparr>sh_cache := c\<rparr>)"
      "coherent E (ks (sh_redis sh)) c"
      using GetHealthStatus_reads [OF laws Cons.prems(1) cache Cons.prems(2)] unfolding address_status_def by blast
    have mx: "(if mn < ?st then ?st else mn) = max mn ?st" by (simp add: max_def)
    show ?thesis
      using Cons.IH [of "sh\<lparr>sh_cache := c\<rparr>" "max mn ?st"] Cons.prems c m True i by (simp add: idx_def mx)
  next
    case False
    then show ?thesis using Cons.IH [of sh mn] Cons.prems m by simp
  qed
qed

lemma mark_unhealthy_reads:
  assumes laws: "redis_laws (se_server E) up ks glob" and cache: "lossy_cache (se_cache E)"
  shows "up (sh_redis sh) \<Longrightarrow> coherent E (ks (sh_redis sh)) (sh_cache sh) \<Longrightarrow>
    \<forall>(i, x) \<in> set ms. i < length (ips_Data rrset) \<Longrightarrow>
    \<exists>sh'. mark_unhealthy E qname (ips_Data rrset) mn ms sh =
        Inr (healthy_mask (address_status E (ks (sh_redis sh)) qname rrset) mn ms, sh')"
proof (induction ms arbitrary: sh)
  case Nil
  then show ?case by (simp add: healthy_mask_def)
next
  case (Cons m ms)
  obtain i x where m: "m = (i, x)" by force
  show ?case
  proof (cases "x = IpMaskWhite")
    case True
    have i: "i < length (ips_Data rrset)" using Cons.prems(3) m by auto
    let ?st = "address_status E (ks (sh_redis sh)) qname rrset i"
    obtain c where c: "GetHealthStatus E sh qname (IP_String (ip_Ip (ips_Data rrset ! i))) = (?st, sh\<lparr>sh_cache := c\<rparr>)"
      "coherent E (ks (sh_redis sh)) c"
      using GetHealthStatus_reads [OF laws Cons.prems(1) cache Cons.prems(2)] unfolding address_status_def by blast
    show ?thesis
      using Cons.IH [of "sh\<lparr>sh_cache := c\<rparr>"] Cons.prems c m True i
      by (auto simp: idx_def healthy_mask_def)
  next
    case False
    then show ?thesis using Cons.IH [of sh] Cons.prems m by (auto simp: healthy_mask_def)
  qed
qed

lemma healthy_mask_white:
  "healthy_mask st mn (enumerate 0 msk) ! i = IpMaskWhite \<longleftrightarrow> msk ! i = IpMaskWhite \<and> mn \<le> st i"
  if "i < length msk"
  using that by (simp add: healthy_mask_def nth_enumerate_eq IpMaskWhite_def IpMaskBlack_def)

lemma white_enumerate: "(i, IpMaskWhite) \<in> set (enumerate 0 msk) \<longleftrightarrow> i < length msk \<and> msk ! i = IpMaskWhite"
  by (auto simp: in_set_enumerate_eq)

lemma health_threshold_le: "health_threshold hc mn \<le> mn"
  by (simp add: health_threshold_def)

text \<open>
  C30: the health filter.  When the cache agrees with redis, an address stays white exactly if
  it was white and its status reaches the threshold that the best status gives; the best
  white address stays, so unless all are below \<open>DownCount\<close> the filter never empties the mask.
\<close>

theorem filter_healthcheck_keeps:
  assumes laws: "redis_laws (se_server E) up ks glob" and cache: "lossy_cache (se_cache E)"
    and up: "up (sh_redis sh)" and coh: "coherent E (ks (sh_redis sh)) (sh_cache sh)"
    and "hk_Enable h" and len: "length msk \<le> length (ips_Data rrset)"
    and st_def: "st = address_status E (ks (sh_redis sh)) qname rrset"
    and hc_def: "hc = ips_HealthCheckConfig rrset"
  shows "\<exists>out sh'. FilterHealthcheck E h sh qname rrset msk = Inr (out, sh') \<and> length out = length msk \<and>
    (\<forall>i < length msk. out ! i = IpMaskWhite \<longleftrightarrow> msk ! i = IpMaskWhite \<and>
       health_threshold hc (best_status st (enumerate 0 msk) (hc_DownCount hc)) \<le> st i) \<and>
    (\<forall>i < length msk. msk ! i = IpMaskWhite \<and> hc_DownCount hc \<le> st i \<and>
       (\<forall>j < length msk. msk ! j = IpMaskWhite \<longrightarrow> st j \<le> st i) \<longrightarrow> out ! i = IpMaskWhite)"
proof -
  let ?ms = "enumerate 0 msk" and ?best = "best_status st (enumerate 0 msk) (hc_DownCount hc)"
  have bound: "\<forall>(i, x) \<in> set ?ms. i < length (ips_Data rrset)"
    using len by (auto simp: in_set_enumerate_eq)
  obtain c where c: "max_status E qname (ips_Data rrset) ?ms (hc_DownCount hc) sh = Inr (?best, sh\<lparr>sh_cache := c\<rparr>)"
    "coherent E (ks (sh_redis sh)) c"
    using max_status_reads [OF laws cache up coh bound] unfolding st_def by blast
  obtain sh' where "mark_unhealthy E qname (ips_Data rrset) (health_threshold hc ?best) ?ms (sh\<lparr>sh_cache := c\<rparr>) =
      Inr (healthy_mask st (health_threshold hc ?best) ?ms, sh')"
    using mark_unhealthy_reads [OF laws cache, of "sh\<lparr>sh_cache := c\<rparr>" ?ms rrset qname "health_threshold hc ?best"]
      up c(2) bound unfolding st_def by auto
  then have "FilterHealthcheck E h sh qname rrset msk = Inr (healthy_mask st (health_threshold hc ?best) ?ms, sh')"
    using assms(5) c(1) by (simp add: FilterHealthcheck_def Let_def hc_def)
  moreover have "health_threshold hc ?best \<le> st i"
    if "hc_DownCount hc \<le> st i" "\<forall>j < length msk. msk ! j = IpMaskWhite \<longrightarrow> st j \<le> st i" for i
    using health_threshold_le [of hc ?best] best_status_attained [of st ?ms "hc_DownCount hc"] that
    by (auto simp: white_enumerate)
  ultimately show ?thesis
    by (intro exI conjI) (assumption, auto simp: healthy_mask_white, simp add: healthy_mask_def)
qed

text \<open>Two addresses, of which one is down, over the server in memory.\<close>

definition toy_item :: "int \<Rightarrow> HealthCheckItem" where
  "toy_item st = (new_item ''a.z.'' [] (zero_healthcheck\<lparr>hc_UpCount := 3, hc_DownCount := -3\<rparr>)
     \<lparr>ip_Weight = 0, ip_Ip = None, ip_Country = [], ip_ASN = []\<rparr>)\<lparr>hi_Status := st\<rparr>"

definition toy_stat :: "(mem, mem_reply, string \<Rightarrow> HealthCheckItem option) stat_env" where
  "toy_stat = \<lparr>se_server = mem_server, se_redis = dc_Redis toy_config, se_cache = map_cache,
     se_Unmarshal = (\<lambda>v. toy_item (if v = ''up'' then 3 else -3)), se_Marshal = (\<lambda>_. Inr ''up'')\<rparr>"

definition toy_health :: "(mem, string \<Rightarrow> HealthCheckItem option) StatHandler" where
  "toy_health = NewStatHandler [(''z42:healthcheck:a.z.:1.2.3.4'', VString ''up''),
     (''z42:healthcheck:a.z.:1.2.3.5'', VString ''down'')] (\<lambda>_. None)"

definition toy_addresses :: IP_RRSet where
  "toy_addresses = zero_IP\<lparr>ips_HealthCheckConfig := zero_healthcheck\<lparr>hc_UpCount := 3, hc_DownCount := -3\<rparr>,
     ips_Data := map (\<lambda>b. \<lparr>ip_Weight = 0, ip_Ip = Some [1, 2, 3, b], ip_Country = [], ip_ASN = []\<rparr>) [4, 5]\<rparr>"

theorem filter_healthcheck_keeps_witness:
  "\<exists>out sh'. FilterHealthcheck toy_stat (NewHealthcheck (Healthcheck_DefaultConfig\<lparr>hcc_Enable := True\<rparr>))
       toy_health ''a.z.'' toy_addresses [IpMaskWhite, IpMaskWhite] = Inr (out, sh') \<and>
     out ! 0 = IpMaskWhite \<and> out ! 1 \<noteq> IpMaskWhite"
proof -
  let ?h = "NewHealthcheck (Healthcheck_DefaultConfig\<lparr>hcc_Enable := True\<rparr>)"
  let ?m = "[IpMaskWhite, IpMaskWhite]"
  let ?st = "address_status toy_stat (mem_keys (sh_redis toy_health)) ''a.z.'' toy_addresses"
  have ips: "IP_String (Some [1, 2, 3, 4]) = ''1.2.3.4''" "IP_String (Some [1, 2, 3, 5]) = ''1.2.3.5''" by code_simp+
  have st: "?st 0 = 3" "?st (Suc 0) = -3"
    by (simp_all add: address_status_def stored_status_def stored_item_def toy_addresses_def ips toy_health_def
        NewStatHandler_def mem_keys_def toy_stat_def healthPrefix_def load_item_def toy_item_def new_item_def)
  have "mem_keys (sh_redis toy_health) k \<noteq> Some (RSet A)" for k A
    by (auto simp: mem_keys_def toy_health_def NewStatHandler_def split: if_splits)
  then have "coherent toy_stat (mem_keys (sh_redis toy_health)) (sh_cache toy_health)"
    by (simp add: coherent_def toy_stat_def toy_health_def NewStatHandler_def map_cache_def)
  then obtain out sh' where "FilterHealthcheck toy_stat ?h toy_health ''a.z.'' toy_addresses ?m = Inr (out, sh')"
    "\<forall>i < length ?m. out ! i = IpMaskWhite \<longleftrightarrow> ?m ! i = IpMaskWhite \<and>
       health_threshold (ips_HealthCheckConfig toy_addresses)
         (best_status ?st (enumerate 0 ?m) (hc_DownCount (ips_HealthCheckConfig toy_addresses))) \<le> ?st i"
    using filter_healthcheck_keeps [of toy_stat "\<lambda>_. True" mem_keys mem_glob toy_health ?h ?m toy_addresses
        ?st "''a.z.''" "ips_HealthCheckConfig toy_addresses"]
      memory.redis_laws_axioms stored.lossy_cache_axioms
    by (auto simp: toy_stat_def NewHealthcheck_def toy_addresses_def)
  moreover have "hc_DownCount (ips_HealthCheckConfig toy_addresses) = -3" "hc_UpCount (ips_HealthCheckConfig toy_addresses) = 3"
    by (simp_all add: toy_addresses_def)
  ultimately show ?thesis
    by (auto simp: st health_threshold_def IpMaskWhite_def)
qed

end
