(* ===== verification/Subscription.thy ===== *)
theory Subscription
  imports HiRedis
begin

text \<open>
  The subscription to key events: \<open>SubscribeEvent\<close> of \<open>src/pkg/hiredis/hiredis.go\<close>.

  Two goroutines take part: the loop with its \<open>select\<close>, and the reader, which the function value
  \<open>Subscribe\<close> runs for every connection.  They share the variable \<open>psc\<close> and the channel \<open>done\<close>, which has room for
  one value.  The transition system has a step for each case of the two; what arrives on the connection and
  when the ticker fires is up to the environment, except that redis confirms the end of a
  subscription only after it was asked for.
\<close>

section \<open>State\<close>

text \<open>What \<open>ReceiveWithTimeout\<close> returns.\<close>

datatype notification = Message string string | Unsubscribed | Confirmed | Failure go_error

datatype callback = OnStart | OnMessage string string | OnError go_error

datatype reader = Absent | Starting | Receiving

datatype event_loop = Running | Quitting | Finished

record subscription =
  sb_psc :: bool
  sb_reader :: reader
  sb_inbox :: "notification list"
  sb_done :: "go_error option option"
  sb_loop :: event_loop
  sb_calls :: "callback list"

definition channelPrefix :: "RedisConfig \<Rightarrow> string" where
  "channelPrefix cfg = ''__keyspace@'' @ Itoa (rcfg_DB cfg) @ ''__:''"

definition event_channel :: "RedisConfig \<Rightarrow> string \<Rightarrow> string" where
  "event_channel cfg channel = TrimSuffix (TrimPrefix channel (channelPrefix cfg @ rcfg_Prefix cfg)) (rcfg_Suffix cfg)"

definition called :: "callback \<Rightarrow> subscription \<Rightarrow> subscription" where
  "called c s = s\<lparr>sb_calls := sb_calls s @ [c]\<rparr>"

text \<open>\<open>Init\<close> opens a connection, and a reader is started for it.\<close>

definition connected :: "subscription \<Rightarrow> subscription" where
  "connected s = s\<lparr>sb_psc := True, sb_reader := Starting, sb_inbox := []\<rparr>"

definition try_init :: "go_error option \<Rightarrow> subscription \<Rightarrow> subscription" where
  "try_init r s = (case r of Some e \<Rightarrow> called (OnError e) s | None \<Rightarrow> connected s)"

definition SubscribeEvent :: "go_error option \<Rightarrow> subscription" where
  "SubscribeEvent r = try_init r
     \<lparr>sb_psc = False, sb_reader = Absent, sb_inbox = [], sb_done = None, sb_loop = Running, sb_calls = []\<rparr>"

section \<open>Steps\<close>

inductive sub_step :: "RedisConfig \<Rightarrow> subscription \<Rightarrow> subscription \<Rightarrow> bool" for cfg where
  arrive: "sb_reader s \<noteq> Absent \<Longrightarrow> n = Unsubscribed \<longrightarrow> sb_loop s \<noteq> Running \<Longrightarrow>
    sub_step cfg s (s\<lparr>sb_inbox := sb_inbox s @ [n]\<rparr>)"
| start: "sb_reader s = Starting \<Longrightarrow> sub_step cfg s (called OnStart (s\<lparr>sb_reader := Receiving\<rparr>))"
| message: "sb_reader s = Receiving \<Longrightarrow> sb_inbox s = Message channel data # ns \<Longrightarrow>
    sub_step cfg s (called (OnMessage (event_channel cfg channel) data) (s\<lparr>sb_inbox := ns\<rparr>))"
| confirmed: "sb_reader s = Receiving \<Longrightarrow> sb_inbox s = Confirmed # ns \<Longrightarrow> sub_step cfg s (s\<lparr>sb_inbox := ns\<rparr>)"
| failure: "sb_reader s = Receiving \<Longrightarrow> sb_inbox s = Failure e # ns \<Longrightarrow> sb_done s = None \<Longrightarrow>
    sub_step cfg s (s\<lparr>sb_inbox := ns, sb_reader := Absent, sb_done := Some (Some e)\<rparr>)"
| unsubscribed: "sb_reader s = Receiving \<Longrightarrow> sb_inbox s = Unsubscribed # ns \<Longrightarrow> sb_done s = None \<Longrightarrow>
    sub_step cfg s (s\<lparr>sb_inbox := ns, sb_reader := Absent, sb_done := Some None\<rparr>)"
| tick_nil: "sb_loop s = Running \<Longrightarrow> \<not> sb_psc s \<Longrightarrow> sub_step cfg s (try_init r s)"
| tick_ping: "sb_loop s = Running \<Longrightarrow> sb_psc s \<Longrightarrow> sub_step cfg s s"
| quit: "sb_loop s = Running \<Longrightarrow> sub_step cfg s (s\<lparr>sb_loop := Quitting\<rparr>)"
| finish: "sb_loop s = Quitting \<Longrightarrow> sb_done s = Some r \<Longrightarrow> sub_step cfg s (s\<lparr>sb_done := None, sb_loop := Finished\<rparr>)"
| done_error: "sb_loop s = Running \<Longrightarrow> sb_done s = Some (Some e) \<Longrightarrow>
    sub_step cfg s (called (OnError e) (s\<lparr>sb_done := None, sb_psc := False\<rparr>))"
| done_nil: "sb_loop s = Running \<Longrightarrow> sb_done s = Some None \<Longrightarrow> sub_step cfg s (s\<lparr>sb_done := None\<rparr>)"

inductive_cases sub_stepE: "sub_step cfg s s'"

abbreviation sub_steps :: "RedisConfig \<Rightarrow> subscription \<Rightarrow> subscription \<Rightarrow> bool" where
  "sub_steps cfg \<equiv> (sub_step cfg)\<^sup>*\<^sup>*"

section \<open>The reader and the loop\<close>

text \<open>
  While the loop runs, a connection has either its reader or the reader's last word in \<open>done\<close>, never both,
  so that the send of the reader does not block; and the confirmation of an end was asked for.
\<close>

definition sub_ok :: "subscription \<Rightarrow> bool" where
  "sub_ok s \<longleftrightarrow> (sb_reader s \<noteq> Absent \<longrightarrow> sb_done s = None) \<and>
     (sb_loop s \<noteq> Finished \<longrightarrow> (sb_psc s \<longleftrightarrow> sb_reader s \<noteq> Absent \<or> sb_done s \<noteq> None)) \<and>
     (sb_loop s = Finished \<longrightarrow> sb_reader s = Absent) \<and>
     (sb_loop s = Running \<longrightarrow> Unsubscribed \<notin> set (sb_inbox s) \<and> sb_done s \<noteq> Some None)"

lemma init_ok: "sub_ok (SubscribeEvent r)"
  by (cases r) (auto simp: sub_ok_def SubscribeEvent_def try_init_def called_def connected_def)

lemma step_ok: "sub_step cfg s s' \<Longrightarrow> sub_ok s \<Longrightarrow> sub_ok s'"
  by (elim sub_stepE)
    (auto simp: sub_ok_def called_def try_init_def connected_def split: option.splits)

lemma reach_ok: "sub_steps cfg s s' \<Longrightarrow> sub_ok s \<Longrightarrow> sub_ok s'"
  by (induction rule: rtranclp_induct) (auto dest: step_ok)

section \<open>Quitting\<close>

lemma step_reach: "sub_step cfg s s' \<Longrightarrow> P s' \<Longrightarrow> \<exists>s'. sub_steps cfg s s' \<and> P s'"
  by blast

text \<open>Without a connection the loop waits for a reader that does not exist.\<close>

lemma stuck_step:
  assumes "sub_step cfg s s'" and "sb_loop s = Quitting" and "sb_reader s = Absent" and "sb_done s = None"
  shows "sb_loop s' = Quitting \<and> sb_reader s' = Absent \<and> sb_done s' = None"
  using assms by (elim sub_stepE) (auto simp: called_def)

lemma read_to_end:
  assumes "sb_reader s = Receiving" and "sb_done s = None" and "sb_loop s = Quitting"
    and "Unsubscribed \<in> set (sb_inbox s)"
  shows "\<exists>s'. sub_steps cfg s s' \<and> sb_loop s' = Quitting \<and> sb_done s' \<noteq> None"
  using assms
proof (induction "sb_inbox s" arbitrary: s)
  case Nil
  then show ?case by simp
next
  case (Cons n ns)
  note inbox = Cons.hyps(2) [symmetric]
  show ?case
  proof (cases n)
    case (Message channel data)
    let ?s = "called (OnMessage (event_channel cfg channel) data) (s\<lparr>sb_inbox := ns\<rparr>)"
    have "sub_step cfg s ?s" using Cons.prems inbox Message by (intro sub_step.message) auto
    moreover have "\<exists>s'. sub_steps cfg ?s s' \<and> sb_loop s' = Quitting \<and> sb_done s' \<noteq> None"
      using Cons.prems inbox Message by (intro Cons.hyps(1)) (auto simp: called_def)
    ultimately show ?thesis by (blast intro: converse_rtranclp_into_rtranclp)
  next
    case Unsubscribed
    then have "sub_step cfg s (s\<lparr>sb_inbox := ns, sb_reader := Absent, sb_done := Some None\<rparr>)"
      using Cons.prems inbox by (intro sub_step.unsubscribed) auto
    then show ?thesis by (rule step_reach) (use Cons.prems(3) in simp)
  next
    case Confirmed
    have "sub_step cfg s (s\<lparr>sb_inbox := ns\<rparr>)" using Cons.prems inbox Confirmed by (intro sub_step.confirmed) auto
    moreover have "\<exists>s'. sub_steps cfg (s\<lparr>sb_inbox := ns\<rparr>) s' \<and> sb_loop s' = Quitting \<and> sb_done s' \<noteq> None"
      using Cons.prems inbox Confirmed by (intro Cons.hyps(1)) auto
    ultimately show ?thesis by (blast intro: converse_rtranclp_into_rtranclp)
  next
    case (Failure e)
    then have "sub_step cfg s (s\<lparr>sb_inbox := ns, sb_reader := Absent, sb_done := Some (Some e)\<rparr>)"
      using Cons.prems inbox by (intro sub_step.failure) auto
    then show ?thesis by (rule step_reach) (use Cons.prems(3) in simp)
  qed
qed

lemma finishes:
  assumes "sb_loop s = Quitting" and "sb_done s \<noteq> None"
  shows "\<exists>s'. sub_steps cfg s s' \<and> sb_loop s' = Finished"
proof -
  obtain r where "sb_done s = Some r" using assms(2) by blast
  from sub_step.finish [OF assms(1) this, of cfg] show ?thesis by (rule step_reach) simp
qed

lemma quits_with_reader:
  assumes "sb_loop s = Quitting" and "sb_reader s \<noteq> Absent" and "sb_done s = None"
  shows "\<exists>s'. sub_steps cfg s s' \<and> sb_loop s' = Finished"
proof -
  let ?a = "s\<lparr>sb_inbox := sb_inbox s @ [Unsubscribed]\<rparr>"
  have 1: "sub_step cfg s ?a" using assms by (intro sub_step.arrive) auto
  have "\<exists>b. sub_steps cfg ?a b \<and> sb_reader b = Receiving \<and> sb_done b = None \<and> sb_loop b = Quitting \<and> Unsubscribed \<in> set (sb_inbox b)"
  proof (cases "sb_reader s")
    case Starting
    then have "sub_step cfg ?a (called OnStart (?a\<lparr>sb_reader := Receiving\<rparr>))" by (intro sub_step.start) simp
    then show ?thesis by (rule step_reach) (use assms in \<open>simp add: called_def\<close>)
  next
    case Receiving
    then show ?thesis using assms by (intro exI [of _ ?a]) simp
  qed (use assms in simp)
  then obtain b c where "sub_steps cfg ?a b" "sub_steps cfg b c" "sb_loop c = Quitting" "sb_done c \<noteq> None"
    using read_to_end by blast
  with finishes [of c cfg] 1 show ?thesis
    by (meson converse_rtranclp_into_rtranclp rtranclp_trans)
qed

text \<open>
  The end of a subscription.  A loop that was told to quit can finish exactly when it has a connection: otherwise it waits for ever for
  a reader that does not exist.
\<close>

lemma quits_if_connected:
  assumes "sub_ok s" and "sb_loop s = Quitting" and "sb_psc s"
  shows "\<exists>s'. sub_steps cfg s s' \<and> sb_loop s' = Finished"
  using assms finishes quits_with_reader by (cases "sb_done s") (auto simp: sub_ok_def)

lemma unconnected_stuck:
  assumes "sub_step cfg s s'" and "sub_ok s" and "sb_loop s = Quitting" and "\<not> sb_psc s"
  shows "sb_loop s' = Quitting \<and> \<not> sb_psc s'"
  using stuck_step [OF assms(1,3)] step_ok [OF assms(1,2)] assms(2-4) by (auto simp: sub_ok_def)

end
