(* ===== verification/ZoneReload.thy ===== *)
theory ZoneReload
  imports StorageProps Subscription
begin

text \<open>
  The goroutine of \<open>DataHandler.Start\<close> (\<open>src/internal/storage/data_handler.go\<close>) that keeps the list of zones and the
  caches up to date.

  The subscription to the list of zones sets the flag \<open>modified\<close>, when it starts and with every message.  On a tick
  the goroutine loads the zones when the flag is set, and then clears it: these are two steps, since messages
  arrive in between.  The second subscription drops cache entries.  Messages of different
  subscriptions may overtake each other.
\<close>

section \<open>State\<close>

datatype reload_phase = Waiting | Loaded | Stopped

record ('s, 't, 'zc, 'rc) reload =
  rl_dh :: "('s, 't, 'zc, 'rc) DataHandler"
  rl_modified :: bool
  rl_messages :: "string list"
  rl_phase :: reload_phase

text \<open>The ticker of the goroutine panics for an interval that is not positive.\<close>

definition Start_reload ::
  "('s, 'r, 't, 'zc, 'rc) storage_env \<Rightarrow> int \<Rightarrow> ('s, 't, 'zc, 'rc) DataHandler \<Rightarrow> go_error + ('s, 't, 'zc, 'rc) reload" where
  "Start_reload E now dh =
     andThen (LoadZones E now dh) (\<lambda>dh.
       if wrap64 (dc_ZoneReload (e_config E) * 1000000000) \<le> 0 then Inl (Panic ''non-positive interval for NewTicker'')
       else Inr \<lparr>rl_dh = dh, rl_modified = False, rl_messages = [], rl_phase = Waiting\<rparr>)"

text \<open>The two message handlers; a key that neither pattern matches has no handler.\<close>

definition on_message ::
  "('s, 'r, 't, 'zc, 'rc) storage_env \<Rightarrow> string \<Rightarrow> ('s, 't, 'zc, 'rc) reload \<Rightarrow> ('s, 't, 'zc, 'rc) reload" where
  "on_message E channel s =
     (if channel = zonesKey then s\<lparr>rl_modified := True\<rparr>
      else if HasPrefix channel keyPrefix then s\<lparr>rl_dh := on_key_event E channel (rl_dh s)\<rparr>
      else s)"

section \<open>Steps\<close>

text \<open>
  \<open>Written\<close> is a change of the database by someone else, with the keys that redis announces; it announces
  the key of the list when the list changed.  \<open>Restarted\<close> is a new connection of the subscription to
  the list, which loses the messages of the old one.
\<close>

datatype reload_label = Written | Delivered string | Restarted | Ticked | Cleared | Forced | Quitted

inductive reload_step ::
  "('s, 'r, 't, 'zc, 'rc) storage_env \<Rightarrow> ('s \<Rightarrow> bool) \<Rightarrow> ('s \<Rightarrow> keyspace) \<Rightarrow> reload_label \<Rightarrow>
   ('s, 't, 'zc, 'rc) reload \<Rightarrow> ('s, 't, 'zc, 'rc) reload \<Rightarrow> bool" for E up ks where
  written: "up r \<Longrightarrow> set_at (ks r) zk \<noteq> None \<Longrightarrow>
    set_at (ks r) zk = set_at (ks (dh_redis (rl_dh s))) zk \<or> zonesKey \<in> set chs \<Longrightarrow>
    zk = rkey (dc_Redis (e_config E)) zonesKey \<Longrightarrow>
    reload_step E up ks Written s (s\<lparr>rl_dh := (rl_dh s)\<lparr>dh_redis := r\<rparr>, rl_messages := rl_messages s @ chs\<rparr>)"
| delivered: "rl_messages s = ms @ channel # ms' \<Longrightarrow>
    reload_step E up ks (Delivered channel) s (on_message E channel (s\<lparr>rl_messages := ms @ ms'\<rparr>))"
| restarted: "reload_step E up ks Restarted s
    (s\<lparr>rl_modified := True, rl_messages := filter (\<lambda>c. c \<noteq> zonesKey) (rl_messages s)\<rparr>)"
| ticked: "rl_phase s = Waiting \<Longrightarrow> rl_modified s \<Longrightarrow> LoadZones E now (rl_dh s) = Inr dh \<Longrightarrow>
    reload_step E up ks Ticked s (s\<lparr>rl_dh := dh, rl_phase := Loaded\<rparr>)"
| cleared: "rl_phase s = Loaded \<Longrightarrow> reload_step E up ks Cleared s (s\<lparr>rl_modified := False, rl_phase := Waiting\<rparr>)"
| forced: "rl_phase s = Waiting \<Longrightarrow> reload_step E up ks Forced s (s\<lparr>rl_modified := True\<rparr>)"
| quitted: "rl_phase s = Waiting \<Longrightarrow> reload_step E up ks Quitted s (s\<lparr>rl_phase := Stopped\<rparr>)"

inductive_simps labelled_steps:
  "reload_step E up ks Ticked s s'" "reload_step E up ks Cleared s s'" "reload_step E up ks Forced s s'"

text \<open>Steps in which no news of the list come between loading and clearing.\<close>

definition calm :: "reload_label \<Rightarrow> reload_phase \<Rightarrow> bool" where
  "calm l p \<longleftrightarrow> (p = Loaded \<longrightarrow> l \<noteq> Delivered zonesKey \<and> l \<noteq> Restarted)"

inductive calm_run for E up ks where
  calm_start: "calm_run E up ks s s"
| calm_step: "calm_run E up ks s s' \<Longrightarrow> reload_step E up ks l s' s'' \<Longrightarrow> calm l (rl_phase s') \<Longrightarrow> calm_run E up ks s s''"

section \<open>The list is current\<close>

definition zone_set :: "('s, 'r, 't, 'zc, 'rc) storage_env \<Rightarrow> ('s \<Rightarrow> keyspace) \<Rightarrow> ('s, 't, 'zc, 'rc) DataHandler \<Rightarrow> string set option" where
  "zone_set E ks dh = set_at (ks (dh_redis dh)) (rkey (dc_Redis (e_config E)) zonesKey)"

definition list_current :: "('s, 'r, 't, 'zc, 'rc) storage_env \<Rightarrow> ('s \<Rightarrow> keyspace) \<Rightarrow> ('s, 't, 'zc, 'rc) DataHandler \<Rightarrow> bool" where
  "list_current E ks dh \<longleftrightarrow> (\<exists>A. zone_set E ks dh = Some A \<and>
     (\<forall>q. FindZone E dh q = (case find (\<lambda>a. a \<in> A) (enclosers q) of None \<Rightarrow> [] | Some a \<Rightarrow> a)))"

text \<open>
  The list is current, or its change is announced or noticed; once loaded, clearing the flag does
  not lose a change.
\<close>

definition reload_ok :: "('s, 'r, 't, 'zc, 'rc) storage_env \<Rightarrow> ('s \<Rightarrow> bool) \<Rightarrow> ('s \<Rightarrow> keyspace) \<Rightarrow> ('s, 't, 'zc, 'rc) reload \<Rightarrow> bool" where
  "reload_ok E up ks s \<longleftrightarrow> up (dh_redis (rl_dh s)) \<and> zone_set E ks (rl_dh s) \<noteq> None \<and>
     (list_current E ks (rl_dh s) \<or> zonesKey \<in> set (rl_messages s) \<or> rl_modified s \<and> rl_phase s \<noteq> Loaded)"

lemma key_event_keeps: "dh_redis (on_key_event E c dh) = dh_redis dh" "dh_zones (on_key_event E c dh) = dh_zones dh"
  by (simp_all add: on_key_event_def Let_def)

lemma key_event_current [simp]:
  "list_current E ks (on_key_event E c dh) = list_current E ks dh" "zone_set E ks (on_key_event E c dh) = zone_set E ks dh"
  by (simp_all add: list_current_def zone_set_def FindZone_def key_event_keeps)

lemma written_current:
  assumes "set_at (ks r) (rkey (dc_Redis (e_config E)) zonesKey) = zone_set E ks dh" and "list_current E ks dh"
  shows "list_current E ks (dh\<lparr>dh_redis := r\<rparr>)"
  using assms by (simp add: list_current_def zone_set_def FindZone_def)

lemma load_current:
  assumes "radix_tree (e_radix E)" and "redis_laws (e_server E) up ks glob" and "up (dh_redis dh)" and "zone_set E ks dh \<noteq> None"
  shows "\<exists>dh'. LoadZones E now dh = Inr dh' \<and> dh_redis dh' = dh_redis dh \<and> list_current E ks dh'"
proof -
  obtain A where A: "set_at (ks (dh_redis dh)) (rkey (dc_Redis (e_config E)) zonesKey) = Some A"
    using assms(4) by (auto simp: zone_set_def)
  from load_zones [OF assms(1-3) A, of now] show ?thesis using A by (auto simp: list_current_def zone_set_def)
qed

lemma calm_step_ok:
  assumes env: "radix_tree (e_radix E)" "redis_laws (e_server E) up ks glob"
    and step: "reload_step E up ks l s s'" and "calm l (rl_phase s)" and "reload_ok E up ks s"
  shows "reload_ok E up ks s'"
  using step assms(4,5)
proof (induction rule: reload_step.induct)
  case (written r zk s chs)
  then have "list_current E ks ((rl_dh s)\<lparr>dh_redis := r\<rparr>) \<or> zonesKey \<in> set (rl_messages s @ chs) \<or>
      rl_modified s \<and> rl_phase s \<noteq> Loaded"
    using written_current [of ks r E "rl_dh s"] by (auto simp: reload_ok_def zone_set_def)
  with written show ?case by (auto simp: reload_ok_def zone_set_def)
next
  case (delivered s ms channel ms')
  then show ?case by (auto simp: reload_ok_def on_message_def calm_def key_event_keeps)
next
  case (ticked s now dh)
  have "up (dh_redis (rl_dh s))" "zone_set E ks (rl_dh s) \<noteq> None" using ticked.prems by (auto simp: reload_ok_def)
  from load_current [OF env this, of now] ticked show ?case by (auto simp: reload_ok_def zone_set_def)
qed (auto simp: reload_ok_def calm_def)

lemma start_ok:
  assumes "radix_tree (e_radix E)" and "redis_laws (e_server E) up ks glob" and "up (dh_redis dh)" and "zone_set E ks dh \<noteq> None"
    and "Start_reload E now dh = Inr s"
  shows "reload_ok E up ks s"
  using load_current [OF assms(1-4), of now] assms(3-5) by (auto simp: Start_reload_def andThen_def reload_ok_def zone_set_def split: if_splits)

lemma forced_reload:
  assumes "radix_tree (e_radix E)" and "redis_laws (e_server E) up ks glob" and "reload_ok E up ks s" and "rl_phase s = Waiting"
  shows "\<exists>s1 s2 s3. reload_step E up ks Forced s s1 \<and> reload_step E up ks Ticked s1 s2 \<and>
    reload_step E up ks Cleared s2 s3 \<and> list_current E ks (rl_dh s3)"
proof -
  obtain dh' where dh': "LoadZones E 0 (rl_dh s) = Inr dh'" "list_current E ks dh'"
    using load_current [OF assms(1,2), of "rl_dh s" 0] assms(3) by (auto simp: reload_ok_def)
  let ?s1 = "s\<lparr>rl_modified := True\<rparr>"
  let ?s2 = "?s1\<lparr>rl_dh := dh', rl_phase := Loaded\<rparr>"
  show ?thesis using assms(4) dh'
    by (intro exI [of _ ?s1] exI [of _ ?s2] exI [of _ "?s2\<lparr>rl_modified := False, rl_phase := Waiting\<rparr>"])
      (auto simp: labelled_steps)
qed



text \<open>
  News that come between loading and clearing are lost: the list is out of date, no message is left and the
  flag is clear.
\<close>

lemma news_lost:
  assumes "rl_phase s = Loaded" and "rl_messages s = []" and "up r"
    and "set_at (ks r) (rkey (dc_Redis (e_config E)) zonesKey) = Some B"
    and "FindZone E (rl_dh s) q \<noteq> (case find (\<lambda>a. a \<in> B) (enclosers q) of None \<Rightarrow> [] | Some a \<Rightarrow> a)"
  shows "\<exists>s1 s2 s3. reload_step E up ks Written s s1 \<and> reload_step E up ks (Delivered zonesKey) s1 s2 \<and>
    reload_step E up ks Cleared s2 s3 \<and>
    rl_phase s3 = Waiting \<and> \<not> rl_modified s3 \<and> rl_messages s3 = [] \<and> \<not> list_current E ks (rl_dh s3)"
proof -
  let ?s1 = "s\<lparr>rl_dh := (rl_dh s)\<lparr>dh_redis := r\<rparr>, rl_messages := rl_messages s @ [zonesKey]\<rparr>"
  let ?s2 = "on_message E zonesKey (?s1\<lparr>rl_messages := [] @ []\<rparr>)"
  let ?s3 = "?s2\<lparr>rl_modified := False, rl_phase := Waiting\<rparr>"
  have "reload_step E up ks Written s ?s1"
    by (rule written [where zk = "rkey (dc_Redis (e_config E)) zonesKey"]) (use assms in simp_all)
  moreover have "reload_step E up ks (Delivered zonesKey) ?s1 ?s2" by (rule delivered) (use assms(2) in simp)
  moreover have "reload_step E up ks Cleared ?s2 ?s3" by (rule cleared) (use assms(1) in \<open>simp add: on_message_def\<close>)
  moreover have "\<not> list_current E ks (rl_dh ?s3)"
  proof
    assume "list_current E ks (rl_dh ?s3)"
    moreover have "zone_set E ks (rl_dh ?s3) = Some B" using assms(4) by (simp add: zone_set_def on_message_def)
    ultimately have "FindZone E (rl_dh ?s3) q = (case find (\<lambda>a. a \<in> B) (enclosers q) of None \<Rightarrow> [] | Some a \<Rightarrow> a)"
      by (auto simp: list_current_def)
    then show False using assms(5) by (simp add: on_message_def FindZone_def)
  qed
  ultimately show ?thesis by (intro exI [of _ ?s1] exI [of _ ?s2] exI [of _ ?s3]) (simp add: on_message_def)
qed

end
