(* ===== verification/Configuration.thy ===== *)
theory Configuration
  imports Server Upstream StatHandler HealthCheck ZoneReload
begin

text \<open>
  The configuration of the resolver: its defaults, the verification that \<open>resolver -t\<close> prints
  (\<open>src/configs/verify.go\<close> and the \<open>Verify\<close> methods), the listeners of \<open>src/internal/server/server.go\<close> and the
  logger of \<open>src/internal/logger\<close>.

  The operating system and the libraries that open ports, files and databases are the parameter \<open>host\<close>.  A verification
  is the list of lines that it prints; it has no result when it panics.
\<close>

section \<open>The host\<close>

text \<open>What \<open>zap.Config\<close> is built from; the remaining fields are constants.\<close>

record zap_Config =
  zap_Level :: int
  zap_OutputPaths :: "string list"
  zap_ErrorOutputPaths :: "string list"

record host =
  host_Open :: "string \<Rightarrow> go_error + string"
  host_ReadFile :: "string \<Rightarrow> go_error + string"
  host_Stat :: "string \<Rightarrow> go_error option"
  host_Listen :: "string \<Rightarrow> string \<Rightarrow> go_error option"
  host_ParseIP :: "string \<Rightarrow> IP"
  host_OpenDB :: "string \<Rightarrow> go_error + (IP \<Rightarrow> go_error option)"
  host_Level :: "string \<Rightarrow> go_error + int"
  host_Build :: "zap_Config \<Rightarrow> go_error option"
  host_CertPool :: "string \<Rightarrow> string option"
  host_KeyPair :: "string \<Rightarrow> string \<Rightarrow> go_error + string"

section \<open>Lines of a verification\<close>

datatype check_line = Heading string | Result string "go_error option" | Warning string string

fun failed_line :: "check_line \<Rightarrow> bool" where
  "failed_line (Result _ e) \<longleftrightarrow> e \<noteq> None"
| "failed_line _ \<longleftrightarrow> False"

abbreviation accepted :: "check_line list \<Rightarrow> bool" where
  "accepted ls \<equiv> \<forall>l \<in> set ls. \<not> failed_line l"

definition PrintResult :: "string \<Rightarrow> go_error option \<Rightarrow> check_line list" where
  "PrintResult msg err = [Result msg err]"

definition PrintWarning :: "string \<Rightarrow> string \<Rightarrow> check_line list" where
  "PrintWarning msg warning = [Warning msg warning]"

definition fail_unless :: "bool \<Rightarrow> string \<Rightarrow> go_error option" where
  "fail_unless b msg = (if b then None else Some (Err msg))"

lemma fail_unless_None [simp]: "fail_unless b msg = None \<longleftrightarrow> b"
  by (simp add: fail_unless_def)

definition CheckAddress :: "host \<Rightarrow> string \<Rightarrow> string \<Rightarrow> int \<Rightarrow> check_line list" where
  "CheckAddress H protocol ip port =
     PrintResult (''checking protocol : '' @ protocol) (fail_unless (protocol \<in> {''tcp'', ''udp''}) ''invalid protocol'') @
     PrintResult (''checking ip address : '' @ ip) (fail_unless (host_ParseIP H ip \<noteq> None) ''invalid ip address'') @
     PrintResult (''checking port number : '' @ Itoa port) (fail_unless (\<not> (port > 65535 \<or> port < 1)) ''invalid port number'')"

section \<open>Listeners\<close>

record TlsConfig =
  tls_Enable :: bool
  tls_CertPath :: string
  tls_KeyPath :: string
  tls_CaPath :: string

record ServerConfig =
  svc_Ip :: string
  svc_Port :: int
  svc_Protocol :: string
  svc_Count :: int
  svc_Tls :: TlsConfig

definition server_DefaultConfig :: ServerConfig where
  "server_DefaultConfig = \<lparr>svc_Ip = ''127.0.0.1'', svc_Port = 1053, svc_Protocol = ''udp'', svc_Count = 1,
     svc_Tls = \<lparr>tls_Enable = False, tls_CertPath = [], tls_KeyPath = [], tls_CaPath = []\<rparr>\<rparr>"

definition svc_address :: "ServerConfig \<Rightarrow> string" where
  "svc_address c = svc_Ip c @ '':'' @ Itoa (svc_Port c)"

definition server_Verify :: "host \<Rightarrow> ServerConfig \<Rightarrow> check_line list" where
  "server_Verify H c =
     CheckAddress H (svc_Protocol c) (svc_Ip c) (svc_Port c) @
     (let msg = ''checking port number : '' @ Itoa (svc_Port c)
      in if svc_Port c \<noteq> 53 then PrintWarning msg ''using non-standard port'' else PrintResult msg None) @
     PrintResult (''checking whether '' @ svc_Protocol c @ ''://'' @ svc_address c @ '' is available'')
       (host_Listen H (svc_Protocol c) (svc_address c))"

record tls_Settings =
  tls_Certificates :: "string list"
  tls_RootCAs :: "string option"

record dns_Server =
  ds_Addr :: string
  ds_Net :: string
  ds_ReusePort :: bool
  ds_TLSConfig :: "tls_Settings option"

definition loadRoots :: "host \<Rightarrow> string \<Rightarrow> string option" where
  "loadRoots H caPath =
     (if caPath = [] then None
      else case host_ReadFile H caPath of Inl _ \<Rightarrow> None | Inr pem \<Rightarrow> host_CertPool H pem)"

definition loadTlsConfig :: "host \<Rightarrow> TlsConfig \<Rightarrow> tls_Settings option" where
  "loadTlsConfig H cfg =
     (let root = loadRoots H (tls_CaPath cfg)
      in if tls_KeyPath cfg = [] \<or> tls_CertPath cfg = []
         then Some \<lparr>tls_Certificates = [], tls_RootCAs = root\<rparr>
         else case host_KeyPair H (tls_CertPath cfg) (tls_KeyPath cfg) of
                Inl _ \<Rightarrow> None
              | Inr cert \<Rightarrow> Some \<lparr>tls_Certificates = [cert], tls_RootCAs = root\<rparr>)"

definition new_listener :: "host \<Rightarrow> ServerConfig \<Rightarrow> dns_Server" where
  "new_listener H cfg = \<lparr>ds_Addr = svc_address cfg, ds_Net = svc_Protocol cfg, ds_ReusePort = True,
     ds_TLSConfig = (if tls_Enable (svc_Tls cfg) then loadTlsConfig H (svc_Tls cfg) else None)\<rparr>"

text \<open>The two loops of \<open>NewServer\<close>; the inner one runs \<open>Count\<close> times.\<close>

fun add_listeners :: "host \<Rightarrow> ServerConfig \<Rightarrow> nat \<Rightarrow> dns_Server list \<Rightarrow> dns_Server list" where
  "add_listeners H cfg 0 servers = servers"
| "add_listeners H cfg (Suc i) servers = add_listeners H cfg i (servers @ [new_listener H cfg])"

definition NewServer :: "host \<Rightarrow> ServerConfig list \<Rightarrow> dns_Server list" where
  "NewServer H config =
     fold (\<lambda>cfg servers. add_listeners H cfg (nat (if svc_Count cfg < 1 then 1 else svc_Count cfg)) servers) config []"

section \<open>Logger\<close>

record LogConfig =
  lg_Level :: string
  lg_Destination :: string

definition logger_DefaultConfig :: LogConfig where
  "logger_DefaultConfig = \<lparr>lg_Level = ''info'', lg_Destination = ''stdout''\<rparr>"

definition InfoLevel :: int where "InfoLevel = 0"

definition zap_settings :: "host \<Rightarrow> LogConfig \<Rightarrow> zap_Config" where
  "zap_settings H config =
     \<lparr>zap_Level = (case host_Level H (lg_Level config) of Inl _ \<Rightarrow> InfoLevel | Inr l \<Rightarrow> l),
      zap_OutputPaths = [lg_Destination config], zap_ErrorOutputPaths = [lg_Destination config]\<rparr>"

definition NewLogger :: "host \<Rightarrow> LogConfig \<Rightarrow> go_error + zap_Config" where
  "NewLogger H config =
     (case host_Build H (zap_settings H config) of Some e \<Rightarrow> Inl e | None \<Rightarrow> Inr (zap_settings H config))"

definition result_error :: "'e + 'a \<Rightarrow> 'e option" where
  "result_error r = (case r of Inl e \<Rightarrow> Some e | Inr _ \<Rightarrow> None)"

lemma result_error_None [simp]: "result_error r = None \<longleftrightarrow> (\<exists>x. r = Inr x)"
  by (cases r) (simp_all add: result_error_def)

definition logger_Verify :: "host \<Rightarrow> LogConfig \<Rightarrow> check_line list" where
  "logger_Verify H c =
     [Heading ''checking log...''] @
     PrintResult (''checking log level: '' @ lg_Level c) (result_error (host_Level H (lg_Level c))) @
     PrintResult (''checking whether '' @ lg_Destination c @ '' is available'') (result_error (NewLogger H c))"

section \<open>Redis\<close>

text \<open>
  The client of the verification reads only; \<open>dial\<close> gives the state of the server that it connects to.
\<close>

definition keyspace_error :: "string \<Rightarrow> go_error option" where
  "keyspace_error nkse =
     (if CHR ''K'' \<notin> set nkse then Some (Err ''keyspace in not active'')
      else if CHR ''A'' \<notin> set nkse \<and> CHR ''s'' \<notin> set nkse then Some (Err ''A or s should be active'')
      else None)"

definition redis_Verify :: "('s, 'r) redis_server \<Rightarrow> (RedisConfig \<Rightarrow> 's) \<Rightarrow> RedisConfig \<Rightarrow> check_line list option" where
  "redis_Verify S dial c =
     (case Ping S (dial c) of (err, s) \<Rightarrow>
        let first = [Heading ''checking redis...''] @
              PrintResult (''checking whether '' @ rcfg_Net c @ ''://'' @ rcfg_Address c @ '' is available'') err;
            msg = ''checking notify-keyspace-events''
        in case GetConfig S s ''notify-keyspace-events'' of
             None \<Rightarrow> None
           | Some (Inl e, _) \<Rightarrow> Some (first @ PrintResult msg (Some e))
           | Some (Inr nkse, _) \<Rightarrow> Some (first @ PrintResult msg (keyspace_error nkse)))"

section \<open>Request handler\<close>

definition geoip_DefaultConfig :: GeoIpConfig where
  "geoip_DefaultConfig = \<lparr>gc_Enable = False, gc_CountryDB = ''geoCity.mmdb'', gc_ASNDB = ''geoIsp.mmdb''\<rparr>"

definition check_db :: "host \<Rightarrow> string \<Rightarrow> check_line list" where
  "check_db H dbFile =
     PrintResult (''checking file stat : '' @ dbFile) (host_Stat H dbFile) @
     (if host_Stat H dbFile \<noteq> None then []
      else PrintResult (''checking db : '' @ dbFile) (result_error (host_OpenDB H dbFile)) @
        (case host_OpenDB H dbFile of
           Inl _ \<Rightarrow> []
         | Inr db_Lookup \<Rightarrow> PrintResult ''checking db query results'' (db_Lookup (host_ParseIP H ''46.19.36.12''))))"

definition geoip_Verify :: "host \<Rightarrow> GeoIpConfig \<Rightarrow> check_line list" where
  "geoip_Verify H c =
     (if gc_Enable c then [Heading ''checking geoip...''] @ concat (map (check_db H) [gc_CountryDB c, gc_ASNDB c]) else [])"

definition probe_error :: "go_error + Msg \<Rightarrow> go_error option" where
  "probe_error resp =
     (case resp of
        Inl e \<Rightarrow> Some e
      | Inr m \<Rightarrow>
          (case msg_Answer m of
             [] \<Rightarrow> Some (Err ''empty response'')
           | RR_A _ a # _ \<Rightarrow> fail_unless (IP_String a = ''131.107.255.255'') ''incorrect response''
           | _ \<Rightarrow> Some (Err ''bad response'')))"

definition upstream_Verify :: "host \<Rightarrow> exchange \<Rightarrow> UpstreamConfig \<Rightarrow> check_line list" where
  "upstream_Verify H ex c =
     CheckAddress H (uc_Protocol c) (uc_Ip c) (uc_Port c) @
     PrintResult (''checking whether '' @ uc_Protocol c @ ''://'' @ uc_Ip c @ '':'' @ Itoa (uc_Port c) @ '' is available'')
       (probe_error (ex (new_connection c) ''dns.msftncsi.com.'' TypeA))"

record HandlerConfig =
  hcf_Upstream :: "UpstreamConfig list"
  hcf_GeoIp :: GeoIpConfig
  hcf_CookieSecret :: string
  hcf_LogSourceLocation :: bool

definition DefaultDnsRequestHandlerConfig :: HandlerConfig where
  "DefaultDnsRequestHandlerConfig = \<lparr>hcf_Upstream = [Upstream_DefaultConfig], hcf_GeoIp = geoip_DefaultConfig,
     hcf_CookieSecret = ''000102030405060708090a0b0c0d0e0f'', hcf_LogSourceLocation = False\<rparr>"

text \<open>The error of \<open>hex.DecodeString\<close> is one of two; which one does not matter here.\<close>

definition secret_error :: "string \<Rightarrow> go_error option" where
  "secret_error secret =
     (case hex_DecodeString secret of
        None \<Rightarrow> Some (Err ''encoding/hex'')
      | Some b \<Rightarrow> fail_unless (length b = 16) ''incorrect secret size: must be 16 bytes'')"

definition handler_Verify :: "host \<Rightarrow> exchange \<Rightarrow> HandlerConfig \<Rightarrow> check_line list" where
  "handler_Verify H ex c =
     [Heading ''checking upstreams...''] @ concat (map (upstream_Verify H ex) (hcf_Upstream c)) @
     geoip_Verify H (hcf_GeoIp c) @
     PrintResult ''checking cookie secret'' (secret_error (hcf_CookieSecret c))"

section \<open>The configuration of the resolver\<close>

record StatHandlerConfig =
  shc_Redis :: RedisConfig

definition DefaultStatHandlerConfig :: StatHandlerConfig where
  "DefaultStatHandlerConfig = \<lparr>shc_Redis = DefaultConfig\<rparr>"

record resolver_Config =
  rs_Server :: "ServerConfig list"
  rs_RedisData :: DataHandlerConfig
  rs_RedisStat :: StatHandlerConfig
  rs_Handler :: HandlerConfig
  rs_RateLimit :: RateLimitConfig
  rs_EventLog :: LogConfig
  rs_AccessLog :: LogConfig

definition resolver_DefaultConfig :: resolver_Config where
  "resolver_DefaultConfig = \<lparr>rs_Server = [server_DefaultConfig], rs_RedisData = DefaultDataHandlerConfig,
     rs_RedisStat = DefaultStatHandlerConfig, rs_Handler = DefaultDnsRequestHandlerConfig,
     rs_RateLimit = RateLimit_DefaultConfig, rs_EventLog = logger_DefaultConfig, rs_AccessLog = logger_DefaultConfig\<rparr>"

text \<open>
  The decoder overwrites fields of the given configuration; for the document \<open>null\<close> it leaves a nil pointer.
\<close>

type_synonym 'a decoder = "'a \<Rightarrow> string \<Rightarrow> 'a option \<times> go_error option"

definition LoadConfig :: "host \<Rightarrow> resolver_Config decoder \<Rightarrow> string \<Rightarrow> resolver_Config option \<times> go_error option" where
  "LoadConfig H decode path =
     (case host_Open H path of
        Inl e \<Rightarrow> (Some resolver_DefaultConfig, Some e)
      | Inr data \<Rightarrow> decode resolver_DefaultConfig data)"

definition Verify ::
  "host \<Rightarrow> exchange \<Rightarrow> ('s, 'r) redis_server \<Rightarrow> (RedisConfig \<Rightarrow> 's) \<Rightarrow> resolver_Config decoder \<Rightarrow> string \<Rightarrow> check_line list option" where
  "Verify H ex S dial decode configFile =
     (case LoadConfig H decode configFile of
        (None, _) \<Rightarrow> None
      | (Some config, err) \<Rightarrow>
          (case (redis_Verify S dial (dc_Redis (rs_RedisData config)), redis_Verify S dial (shc_Redis (rs_RedisStat config))) of
             (Some data, Some stat) \<Rightarrow> Some
               ([Heading ''Starting Config Verification''] @
                PrintResult (''loading config file : '' @ configFile) err @
                [Heading ''checking listeners...''] @ concat (map (server_Verify H) (rs_Server config)) @
                [Heading ''checking handler...''] @ handler_Verify H ex (rs_Handler config) @
                data @ stat @ logger_Verify H (rs_AccessLog config) @ logger_Verify H (rs_EventLog config))
           | _ \<Rightarrow> None))"

end
