(* ===== verification/Programs.thy ===== *)
theory Programs
  imports Configuration
begin

text \<open>
  The start of the resolver (\<open>src/cmd/resolver\<close>) and of the health checker (\<open>src/cmd/healthchecker\<close>) from a
  configuration file, and what the verification of a configuration is worth.
\<close>

section \<open>Start of the resolver\<close>

text \<open>
  Everything that the programs are given: the host, the decoder, redis, the databases of \<open>geoip\<close>, the network,
  and the caches in their initial states.  The configuration in \<open>st_storage\<close> is replaced by the loaded one.
\<close>

record ('s, 'r, 't, 'zc, 'rc, 'hc, 'uc, 'lc) start_env =
  st_host :: host
  st_decode :: "resolver_Config decoder"
  st_storage :: "('s, 'r, 't, 'zc, 'rc) storage_env"
  st_dial :: "RedisConfig \<Rightarrow> 's"
  st_zoneCache :: 'zc
  st_recordCache :: 'rc
  st_healthCache :: 'hc
  st_country :: "string \<Rightarrow> country_reader option"
  st_asn :: "string \<Rightarrow> (IP \<Rightarrow> go_error + uint64) option"
  st_exchange :: exchange
  st_answerCache :: "('uc, RR list) go_cache"
  st_answers :: 'uc
  st_limiters :: 'lc

record ('s, 't, 'zc, 'rc, 'hc, 'lc) running =
  run_accessLogger :: zap_Config
  run_eventLogger :: zap_Config
  run_servers :: "dns_Server list"
  run_data :: "('s, 't, 'zc, 'rc) reload"
  run_stat :: "('s, 'hc) StatHandler"
  run_program :: "('lc, 't) resolver_program"

definition must :: "go_error + 'a \<Rightarrow> go_error + 'a" where
  "must r = (case r of Inl (Err m) \<Rightarrow> Inl (Panic m) | _ \<Rightarrow> r)"

definition loaded_storage ::
  "('s, 'r, 't, 'zc, 'rc, 'hc, 'uc, 'lc) start_env \<Rightarrow> DataHandlerConfig \<Rightarrow> ('s, 'r, 't, 'zc, 'rc) storage_env" where
  "loaded_storage A c = (st_storage A)\<lparr>e_config := c\<rparr>"

definition start_data ::
  "('s, 'r, 't, 'zc, 'rc, 'hc, 'uc, 'lc) start_env \<Rightarrow> int \<Rightarrow> DataHandlerConfig \<Rightarrow> go_error + ('s, 't, 'zc, 'rc) reload" where
  "start_data A now c =
     (let E = loaded_storage A c
      in Start_reload E (now div second) (NewDataHandler E (st_dial A (dc_Redis c)) (st_zoneCache A) (st_recordCache A)))"

definition start_handler ::
  "('s, 'r, 't, 'zc, 'rc, 'hc, 'uc, 'lc) start_env \<Rightarrow> int \<Rightarrow> resolver_Config \<Rightarrow> ('s, 't, 'zc, 'rc) reload \<Rightarrow> 't DnsRequestHandler" where
  "start_handler A now cfg data =
     NewHandler (st_country A) (st_asn A) (hcf_LogSourceLocation (rs_Handler cfg)) (hcf_GeoIp (rs_Handler cfg))
       (hcf_CookieSecret (rs_Handler cfg))
       (\<lambda>location qtype. fst (Query (st_answerCache A) (st_exchange A) now
          (NewUpstream (st_answers A) (hcf_Upstream (rs_Handler cfg))) location qtype))
       (storage_view (loaded_storage A (rs_RedisData cfg)) (now div second) (rl_dh data))"

definition start_with ::
  "('s, 'r, 't, 'zc, 'rc, 'hc, 'uc, 'lc) start_env \<Rightarrow> int \<Rightarrow> resolver_Config \<Rightarrow> go_error + ('s, 't, 'zc, 'rc, 'hc, 'lc) running" where
  "start_with A now cfg =
     andThen (must (NewLogger (st_host A) (rs_AccessLog cfg))) (\<lambda>access.
     andThen (must (NewLogger (st_host A) (rs_EventLog cfg))) (\<lambda>event.
     let servers = NewServer (st_host A) (rs_Server cfg) in
     andThen (start_data A now (rs_RedisData cfg)) (\<lambda>data.
     let stat = NewStatHandler (st_dial A (shc_Redis (rs_RedisStat cfg))) (st_healthCache A);
         handler = start_handler A now cfg data in
     andThen (NewRateLimiter (st_limiters A) (rs_RateLimit cfg)) (\<lambda>limiter.
     Inr \<lparr>run_accessLogger = access, run_eventLogger = event, run_servers = servers, run_data = data, run_stat = stat,
          run_program = \<lparr>srv_rateLimiter = limiter, srv_dnsRequestHandler = handler\<rparr>\<rparr>))))"

definition resolver_Start ::
  "('s, 'r, 't, 'zc, 'rc, 'hc, 'uc, 'lc) start_env \<Rightarrow> int \<Rightarrow> string \<Rightarrow> go_error + ('s, 't, 'zc, 'rc, 'hc, 'lc) running" where
  "resolver_Start A now configFile =
     (case LoadConfig (st_host A) (st_decode A) configFile of
        (_, Some e) \<Rightarrow> must (Inl e)
      | (None, None) \<Rightarrow> Inl (Panic ''nil pointer dereference'')
      | (Some cfg, None) \<Rightarrow> start_with A now cfg)"

section \<open>Listeners\<close>

lemma add_listeners_eq: "add_listeners H cfg n servers = servers @ replicate n (new_listener H cfg)"
  by (induction n arbitrary: servers) (simp_all add: replicate_append_same)

lemma NewServer_eq: "NewServer H config = concat (map (\<lambda>c. replicate (nat (max 1 (svc_Count c))) (new_listener H c)) config)"
proof -
  have "fold (\<lambda>cfg servers. add_listeners H cfg (nat (if svc_Count cfg < 1 then 1 else svc_Count cfg)) servers) config servers =
      servers @ concat (map (\<lambda>c. replicate (nat (max 1 (svc_Count c))) (new_listener H c)) config)" for servers
    by (induction config arbitrary: servers) (simp_all add: add_listeners_eq max_def)
  then show ?thesis by (simp add: NewServer_def)
qed

lemma length_NewServer: "length (NewServer H config) = (\<Sum>c \<leftarrow> config. nat (max 1 (svc_Count c)))"
  by (simp add: NewServer_eq length_concat comp_def)

lemma NewServer_elements: "v \<in> set (NewServer H config) \<longleftrightarrow> (\<exists>c \<in> set config. v = new_listener H c)"
  by (auto simp: NewServer_eq)

section \<open>What the verification accepts\<close>

lemmas verify_defs = PrintResult_def PrintWarning_def CheckAddress_def

lemma server_accepted:
  "accepted (server_Verify H c) \<Longrightarrow> svc_Protocol c \<in> {''tcp'', ''udp''} \<and> host_ParseIP H (svc_Ip c) \<noteq> None \<and>
     1 \<le> svc_Port c \<and> svc_Port c \<le> 65535 \<and> host_Listen H (svc_Protocol c) (svc_address c) = None"
  by (auto simp: server_Verify_def verify_defs)

lemma logger_accepted: "accepted (logger_Verify H c) \<Longrightarrow> \<exists>z. NewLogger H c = Inr z"
  by (auto simp: logger_Verify_def verify_defs)

lemma hex_prefix_decode: "hex_DecodeString s = Some b \<Longrightarrow> hex_prefix s = b"
  by (induction s arbitrary: b rule: hex_DecodeString.induct) (auto split: option.splits)

lemma handler_accepted: "accepted (handler_Verify H ex c) \<Longrightarrow> length (hex_prefix (hcf_CookieSecret c)) = 16"
  by (auto simp: handler_Verify_def verify_defs secret_error_def hex_prefix_decode split: option.splits)

lemma verify_accepted:
  assumes "Verify H ex S dial decode path = Some ls" and "accepted ls"
  obtains cfg where "LoadConfig H decode path = (Some cfg, None)" and "\<And>c. c \<in> set (rs_Server cfg) \<Longrightarrow> accepted (server_Verify H c)"
    and "accepted (handler_Verify H ex (rs_Handler cfg))"
    and "accepted (logger_Verify H (rs_AccessLog cfg))" and "accepted (logger_Verify H (rs_EventLog cfg))"
proof -
  obtain cfg err where L: "LoadConfig H decode path = (Some cfg, err)"
    using assms(1) by (auto simp: Verify_def split: prod.splits option.splits)
  obtain xs ys where ls: "ls = [Heading ''Starting Config Verification''] @ PrintResult (''loading config file : '' @ path) err @
      [Heading ''checking listeners...''] @ concat (map (server_Verify H) (rs_Server cfg)) @
      [Heading ''checking handler...''] @ handler_Verify H ex (rs_Handler cfg) @
      xs @ ys @ logger_Verify H (rs_AccessLog cfg) @ logger_Verify H (rs_EventLog cfg)"
    using assms(1) L by (auto simp: Verify_def split: option.splits)
  show thesis
    by (rule that [of cfg]) (use L assms(2) ls in \<open>auto simp: PrintResult_def\<close>)
qed

section \<open>A verified configuration starts\<close>

text \<open>The two settings that the verification does not look at and that stop the program.\<close>

definition overlooked :: "resolver_Config \<Rightarrow> bool" where
  "overlooked cfg \<longleftrightarrow> rl_Rate (rs_RateLimit cfg) = 0 \<or> wrap64 (dc_ZoneReload (rs_RedisData cfg) * 1000000000) \<le> 0"

lemma start_data_eq:
  fixes A :: "('s, 'r, 't, 'zc, 'rc, 'hc, 'uc, 'lc) start_env"
  assumes "radix_tree (e_radix (st_storage A))" and "redis_laws (e_server (st_storage A)) up ks glob"
    and "up (st_dial A (dc_Redis c))" and "set_at (ks (st_dial A (dc_Redis c))) (rkey (dc_Redis c) zonesKey) \<noteq> None"
  shows "if wrap64 (dc_ZoneReload c * 1000000000) \<le> 0 then \<exists>m. start_data A now c = Inl (Panic m)
    else \<exists>data. start_data A now c = Inr data \<and> list_current (loaded_storage A c) ks (rl_dh data)"
proof -
  let ?E = "loaded_storage A c"
  let ?dh = "NewDataHandler ?E (st_dial A (dc_Redis c)) (st_zoneCache A) (st_recordCache A)"
  have "radix_tree (e_radix ?E)" "redis_laws (e_server ?E) up ks glob" "up (dh_redis ?dh)" "zone_set ?E ks ?dh \<noteq> None"
    using assms by (simp_all add: loaded_storage_def NewDataHandler_def zone_set_def)
  from load_current [OF this, of "now div second"] show ?thesis
    by (auto simp: start_data_def Start_reload_def andThen_def loaded_storage_def)
qed

text \<open>
  C19: a configuration that is verified starts.  When redis answers and \<open>resolver -t\<close> reports no failure, the program starts
  from the same file unless the rate of the limiter is 0 or the reload interval is not positive, which
  the verification does not check and which make it panic.  The started program has a cookie secret of 16 bytes, as
  many listeners as configured and at least one for each address, each on an address that can be bound with
  one of the protocols \<open>tcp\<close> and \<open>udp\<close>, and the list of zones that redis holds.
\<close>

theorem verified_config_starts:
  fixes A :: "('s, 'r, 't, 'zc, 'rc, 'hc, 'uc, 'lc) start_env"
  assumes "radix_tree (e_radix (st_storage A))" and "redis_laws (e_server (st_storage A)) up ks glob"
    and "\<forall>c. up (st_dial A c) \<and> set_at (ks (st_dial A c)) (rkey c zonesKey) \<noteq> None"
    and "Verify (st_host A) (st_exchange A) (e_server (st_storage A)) (st_dial A) (st_decode A) path = Some ls" and "accepted ls"
  shows "\<exists>cfg. LoadConfig (st_host A) (st_decode A) path = (Some cfg, None) \<and>
    (if overlooked cfg then \<exists>m. resolver_Start A now path = Inl (Panic m)
     else \<exists>p. resolver_Start A now path = Inr p \<and>
       length (h_cookieSecret (srv_dnsRequestHandler (run_program p))) = 16 \<and>
       length (run_servers p) = (\<Sum>c \<leftarrow> rs_Server cfg. nat (max 1 (svc_Count c))) \<and>
       (\<forall>v \<in> set (run_servers p). ds_Net v \<in> {''tcp'', ''udp''} \<and> host_Listen (st_host A) (ds_Net v) (ds_Addr v) = None) \<and>
       list_current (loaded_storage A (rs_RedisData cfg)) ks (rl_dh (run_data p)))"
proof -
  obtain cfg where L: "LoadConfig (st_host A) (st_decode A) path = (Some cfg, None)"
    and servers: "\<And>c. c \<in> set (rs_Server cfg) \<Longrightarrow> accepted (server_Verify (st_host A) c)"
    and handler: "accepted (handler_Verify (st_host A) (st_exchange A) (rs_Handler cfg))"
    and logs: "accepted (logger_Verify (st_host A) (rs_AccessLog cfg))" "accepted (logger_Verify (st_host A) (rs_EventLog cfg))"
    by (rule verify_accepted [OF assms(4,5)]) blast
  have start: "resolver_Start A now path = start_with A now cfg" by (simp add: resolver_Start_def L)
  obtain a e where log: "NewLogger (st_host A) (rs_AccessLog cfg) = Inr a" "NewLogger (st_host A) (rs_EventLog cfg) = Inr e"
    using logs [THEN logger_accepted] by blast
  have listeners: "\<forall>v \<in> set (NewServer (st_host A) (rs_Server cfg)).
      ds_Net v \<in> {''tcp'', ''udp''} \<and> host_Listen (st_host A) (ds_Net v) (ds_Addr v) = None"
    using server_accepted [OF servers] by (fastforce simp: NewServer_elements new_listener_def)
  have secret: "length (h_cookieSecret (start_handler A now cfg data)) = 16" for data
    using handler_accepted [OF handler] by (simp add: start_handler_def NewHandler_def)
  note data = start_data_eq [OF assms(1,2), of "rs_RedisData cfg" now] assms(3)
  show ?thesis
  proof (cases "overlooked cfg")
    case True
    then have "\<exists>m. start_with A now cfg = Inl (Panic m)"
      using data log
      by (cases "start_data A now (rs_RedisData cfg)")
        (auto simp: overlooked_def start_with_def must_def andThen_def NewRateLimiter_def Let_def split: if_splits)
    then show ?thesis using True start L by (intro exI [of _ cfg]) simp
  next
    case False
    then obtain d where d: "start_data A now (rs_RedisData cfg) = Inr d" "list_current (loaded_storage A (rs_RedisData cfg)) ks (rl_dh d)"
      using data by (auto simp: overlooked_def)
    obtain rl where "NewRateLimiter (st_limiters A) (rs_RateLimit cfg) = Inr rl"
      using False by (simp add: overlooked_def NewRateLimiter_def Let_def)
    then obtain p where "start_with A now cfg = Inr p" "run_servers p = NewServer (st_host A) (rs_Server cfg)" "run_data p = d"
      "srv_dnsRequestHandler (run_program p) = start_handler A now cfg d"
      using log d by (simp add: start_with_def must_def andThen_def Let_def)
    then show ?thesis
      using False start L listeners secret d(2) by (intro exI [of _ cfg]) (auto simp: length_NewServer)
  qed
qed

definition toy_host :: host where
  "toy_host = \<lparr>host_Open = (\<lambda>_. Inr ''{}''), host_ReadFile = (\<lambda>_. Inl (Err ''missing'')), host_Stat = (\<lambda>_. Some (Err ''missing'')),
     host_Listen = (\<lambda>_ _. None), host_ParseIP = (\<lambda>_. Some [127, 0, 0, 1]), host_OpenDB = (\<lambda>_. Inl (Err ''missing'')),
     host_Level = (\<lambda>_. Inr 0), host_Build = (\<lambda>_. None), host_CertPool = (\<lambda>_. None), host_KeyPair = (\<lambda>_ _. Inl (Err ''missing''))\<rparr>"

definition toy_probe :: exchange where
  "toy_probe c l t = Inr (new_Msg\<lparr>msg_Answer := [RR_A (inet_hdr l TypeA 60) (Some [131, 107, 255, 255])]\<rparr>)"

definition toy_start ::
  "(mem, mem_reply, alist_tree, string \<Rightarrow> alist_tree Zone option, string \<Rightarrow> RRSet option, string \<Rightarrow> HealthCheckItem option,
    string \<Rightarrow> (RR list \<times> int) option, string \<Rightarrow> (Limiter \<times> int) option) start_env" where
  "toy_start = \<lparr>st_host = toy_host, st_decode = (\<lambda>cfg _. (Some cfg, None)), st_storage = toy_env,
     st_dial = (\<lambda>c. [(rkey c zonesKey, VSet [''z.''])]), st_zoneCache = (\<lambda>_. None), st_recordCache = (\<lambda>_. None),
     st_healthCache = (\<lambda>_. None), st_country = (\<lambda>_. None), st_asn = (\<lambda>_. None), st_exchange = toy_probe,
     st_answerCache = map_go_cache minute, st_answers = (\<lambda>_. None), st_limiters = (\<lambda>_. None)\<rparr>"

lemma toy_start_sel:
  "st_host toy_start = toy_host" "st_decode toy_start = (\<lambda>cfg _. (Some cfg, None))" "st_storage toy_start = toy_env"
  "st_dial toy_start = (\<lambda>c. [(rkey c zonesKey, VSet [''z.''])])" "st_exchange toy_start = toy_probe"
  by (simp_all add: toy_start_def)

theorem verified_config_starts_witness:
  "\<exists>p. resolver_Start toy_start 0 ''config.json'' = Inr p \<and> length (run_servers p) = 1 \<and>
     length (h_cookieSecret (srv_dnsRequestHandler (run_program p))) = 16"
proof -
  have "case Verify toy_host toy_probe mem_server (st_dial toy_start) (st_decode toy_start) ''config.json'' of
      None \<Rightarrow> False | Some ls \<Rightarrow> accepted ls" by code_simp
  then obtain ls where ls: "Verify (st_host toy_start) (st_exchange toy_start) (e_server (st_storage toy_start)) (st_dial toy_start)
      (st_decode toy_start) ''config.json'' = Some ls" "accepted ls"
    by (auto simp: toy_start_sel toy_env_sel split: option.splits)
  have laws: "radix_tree (e_radix (st_storage toy_start))" "redis_laws (e_server (st_storage toy_start)) (\<lambda>_. True) mem_keys mem_glob"
    using alist.radix_tree_axioms memory.redis_laws_axioms by (simp_all add: toy_start_sel toy_env_sel)
  have zones: "\<forall>c. True \<and> set_at (mem_keys (st_dial toy_start c)) (rkey c zonesKey) \<noteq> None"
    by (simp add: toy_start_sel set_at_def mem_keys_def)
  have load: "LoadConfig (st_host toy_start) (st_decode toy_start) ''config.json'' = (Some resolver_DefaultConfig, None)"
    by (simp add: LoadConfig_def toy_start_sel toy_host_def)
  have "\<not> overlooked resolver_DefaultConfig" "(\<Sum>c \<leftarrow> rs_Server resolver_DefaultConfig. nat (max 1 (svc_Count c))) = 1"
    by (simp_all add: overlooked_def resolver_DefaultConfig_def RateLimit_DefaultConfig_def DefaultDataHandlerConfig_def wrap64_def
        server_DefaultConfig_def)
  with verified_config_starts [OF laws zones ls, of 0] load show ?thesis by auto
qed

section \<open>The health checker\<close>

record healthchecker_Config =
  hp_AccessLog :: LogConfig
  hp_EventLog :: LogConfig
  hp_RedisData :: DataHandlerConfig
  hp_RedisStat :: StatHandlerConfig
  hp_Healthcheck :: HealthcheckConfig

definition healthchecker_DefaultConfig :: healthchecker_Config where
  "healthchecker_DefaultConfig = \<lparr>hp_AccessLog = logger_DefaultConfig, hp_EventLog = logger_DefaultConfig,
     hp_RedisData = DefaultDataHandlerConfig, hp_RedisStat = DefaultStatHandlerConfig, hp_Healthcheck = Healthcheck_DefaultConfig\<rparr>"

definition healthchecker_LoadConfig ::
  "host \<Rightarrow> (healthchecker_Config \<Rightarrow> string \<Rightarrow> healthchecker_Config \<times> go_error option) \<Rightarrow> string \<Rightarrow>
   healthchecker_Config \<times> go_error option" where
  "healthchecker_LoadConfig H decode path =
     (case host_Open H path of
        Inl e \<Rightarrow> (healthchecker_DefaultConfig, Some e)
      | Inr data \<Rightarrow> decode healthchecker_DefaultConfig data)"

definition healthchecker_Verify ::
  "host \<Rightarrow> ('s, 'r) redis_server \<Rightarrow> (RedisConfig \<Rightarrow> 's) \<Rightarrow>
   (healthchecker_Config \<Rightarrow> string \<Rightarrow> healthchecker_Config \<times> go_error option) \<Rightarrow> string \<Rightarrow> check_line list option" where
  "healthchecker_Verify H S dial decode configFile =
     (case healthchecker_LoadConfig H decode configFile of
        (config, err) \<Rightarrow>
          (case (redis_Verify S dial (dc_Redis (hp_RedisData config)), redis_Verify S dial (shc_Redis (hp_RedisStat config))) of
             (Some data, Some stat) \<Rightarrow> Some
               ([Heading ''Starting Config Verification''] @
                PrintResult (''loading config file : '' @ configFile) err @
                [Heading ''checking healthcheck...''] @
                data @ stat @ logger_Verify H (hp_AccessLog config) @ logger_Verify H (hp_EventLog config))
           | _ \<Rightarrow> None))"

text \<open>\<open>Start\<close> drops the error of \<open>LoadConfig\<close>, and does not start the checks.\<close>

definition healthchecker_Start ::
  "('s, 'r, 't, 'zc, 'rc, 'hc, 'uc, 'lc) start_env \<Rightarrow>
   (healthchecker_Config \<Rightarrow> string \<Rightarrow> healthchecker_Config \<times> go_error option) \<Rightarrow> int \<Rightarrow> string \<Rightarrow>
   go_error + (('s, 't, 'zc, 'rc) reload \<times> ('s, 'hc) StatHandler \<times> Healthcheck)" where
  "healthchecker_Start A decode now configFile =
     (let cfg = fst (healthchecker_LoadConfig (st_host A) decode configFile) in
      andThen (must (NewLogger (st_host A) (hp_AccessLog cfg))) (\<lambda>_.
      andThen (must (NewLogger (st_host A) (hp_EventLog cfg))) (\<lambda>_.
      andThen (start_data A now (hp_RedisData cfg)) (\<lambda>data.
      Inr (data, NewStatHandler (st_dial A (shc_Redis (hp_RedisStat cfg))) (st_healthCache A), NewHealthcheck (hp_Healthcheck cfg))))))"

text \<open>
  A file that cannot be opened: the resolver does not start, the health checker runs with the defaults.
\<close>

lemma unreadable_config:
  assumes "host_Open (st_host A) path = Inl (Err m)"
  shows "resolver_Start A now path = Inl (Panic m)"
    and "healthchecker_Start A decode now path = Inr (data, stat, h) \<Longrightarrow> h = NewHealthcheck Healthcheck_DefaultConfig"
  using assms
  by (auto simp: resolver_Start_def LoadConfig_def must_def healthchecker_Start_def healthchecker_LoadConfig_def andThen_def Let_def
      healthchecker_DefaultConfig_def split: sum.splits)

end
