(* ===== verification/Database.thy ===== *)
theory Database
  imports Events
begin

text \<open>
  The database of the control plane: the rest of \<open>src/internal/api/database/types.go\<close>, the
  tables of \<open>src/scripts/schema-final.sql\<close>, and the SQL statements of \<open>internal.go\<close> and
  \<open>transaction.go\<close>.

  Every statement is the operation on the tables that its SQL text describes, with the unique
  keys (error 1062), foreign keys (errors 1452 and 1451) and cascades of the schema.  What depends on
  the server is a parameter, \<open>sql_env\<close>: the collation that compares strings, the order and
  the LIKE operator that go with it, the form in which a JSON column is read back, and any other error
  that a statement or a commit may end with, such as a lost connection or a value out of range.
  A commit that fails may have been applied or not.
\<close>

section \<open>Types\<close>

record User =
  u_Id :: ObjectId
  u_Email :: string
  u_Password :: string
  u_Status :: string

definition UserStatusActive :: string where "UserStatusActive = ''active''"
definition UserStatusDisabled :: string where "UserStatusDisabled = ''disabled''"
definition UserStatusPending :: string where "UserStatusPending = ''pending''"

definition UserRoleOwner :: string where "UserRoleOwner = ''owner''"
definition UserRoleRead :: string where "UserRoleRead = ''read''"
definition UserRoleWrite :: string where "UserRoleWrite = ''write''"
definition UserRoleDisabled :: string where "UserRoleDisabled = ''disabled''"

record NewUser =
  nu_Email :: string
  nu_Password :: string
  nu_Status :: string

definition VerificationTypeSignup :: string where "VerificationTypeSignup = ''signup''"
definition VerificationTypeRecover :: string where "VerificationTypeRecover = ''recover''"

record Verification =
  v_Code :: string
  v_Type :: string

record database_Zone =
  dz_Id :: ObjectId
  dz_Name :: string
  dz_Enabled :: bool
  dz_Dnssec :: bool
  dz_CNameFlattening :: bool
  dz_SOA :: SOA_RRSet
  dz_DS :: string

record Location =
  loc_Id :: ObjectId
  loc_Name :: string
  loc_Enabled :: bool

record RecordSet =
  rs_Id :: ObjectId
  rs_Type :: string
  rs_Value :: "RRSet option"
  rs_Enabled :: bool

record ListItem =
  li_Id :: string
  li_Enabled :: bool

record db_List =
  lst_Items :: "ListItem list"
  lst_Total :: int

definition EmptyList :: db_List where "EmptyList = \<lparr>lst_Items = [], lst_Total = 0\<rparr>"

record APIKey =
  ak_Name :: string
  ak_Scope :: string
  ak_Hash :: string
  ak_Enabled :: bool
  ak_ZoneId :: ObjectId
  ak_UserId :: ObjectId

definition ACME :: string where "ACME = ''acme''"

record APIKeyItem =
  aki_Name :: string
  aki_Scope :: string
  aki_ZoneName :: string
  aki_Enabled :: bool

record APIKeyUpdate =
  aku_Name :: string
  aku_Scope :: string
  aku_Enabled :: bool

text \<open>
  Errors: \<open>sql.ErrNoRows\<close>, an error of the server with its number, the four errors of the
  package, and others.
\<close>

datatype db_error = ErrNoRows | MySQLError int | ErrDuplicateEntry | ErrNotFound | ErrInvalid | ErrUnauthorized
  | OtherError go_error

definition parseError :: "db_error \<Rightarrow> db_error" where
  "parseError err =
     (case err of
        ErrNoRows \<Rightarrow> ErrNotFound
      | MySQLError n \<Rightarrow> if n = 1062 then ErrDuplicateEntry else if n = 1452 then ErrInvalid else err
      | _ \<Rightarrow> err)"

section \<open>Tables\<close>

record ZoneRow =
  zr_Id :: ObjectId
  zr_Name :: string
  zr_CNameFlattening :: bool
  zr_Dnssec :: bool
  zr_Enabled :: bool

record LocationRow =
  lr_Id :: ObjectId
  lr_Name :: string
  lr_Enabled :: bool
  lr_ZoneId :: ObjectId

record RecordRow =
  rr_Id :: ObjectId
  rr_LocationId :: ObjectId
  rr_Type :: string
  rr_Value :: string
  rr_Enabled :: bool

record VerificationRow =
  vr_Code :: string
  vr_Type :: string
  vr_UserId :: ObjectId

record SOARow =
  sr_SOA :: SOA_RRSet
  sr_ZoneId :: ObjectId

record KeysRow =
  kr_Keys :: ZoneKeys
  kr_ZoneId :: ObjectId

record UserZoneRow =
  uz_UserId :: ObjectId
  uz_ZoneId :: ObjectId
  uz_Role :: string

record tables =
  t_User :: "User list"
  t_Resource :: "ObjectId list"
  t_Zone :: "ZoneRow list"
  t_Location :: "LocationRow list"
  t_RecordSet :: "RecordRow list"
  t_Verification :: "VerificationRow list"
  t_Events :: "Event list"
  t_SOA :: "SOARow list"
  t_Keys :: "KeysRow list"
  t_APIKeys :: "APIKey list"
  t_UserZone :: "UserZoneRow list"

text \<open>
  \<open>db_saved\<close> is what a rollback returns to.  The counter of revisions and the number of ids that have
  been generated do not take part in transactions.
\<close>

record DataBase =
  db_tables :: tables
  db_saved :: tables
  db_revision :: int
  db_uuids :: nat

text \<open>The values that are recorded as events, by their types.\<close>

datatype event_value =
    V_NewZone database_NewZone
  | V_ZoneUpdate ZoneUpdate
  | V_String string
  | V_ZoneImport ZoneImport
  | V_NewLocation NewLocation
  | V_LocationUpdate LocationUpdate
  | V_LocationDelete LocationDelete
  | V_NewRecordSet NewRecordSet
  | V_RecordSetUpdate RecordSetUpdate
  | V_RecordSetDelete RecordSetDelete

record sql_env =
  x_key :: "string \<Rightarrow> string"
  x_like :: "string \<Rightarrow> string \<Rightarrow> bool"
  x_order :: "bool \<Rightarrow> string list \<Rightarrow> nat list"
  x_column :: "string \<Rightarrow> string"
  x_fails :: "string list \<Rightarrow> tables \<Rightarrow> db_error option"
  x_commit :: "tables \<Rightarrow> (db_error \<times> bool) option"
  x_uuid :: "nat \<Rightarrow> ObjectId"
  x_Marshal :: "event_value \<Rightarrow> go_error + string"
  x_json :: json_api
  x_Unmarshal :: "string \<Rightarrow> RRSet option \<Rightarrow> go_error + RRSet option"
  x_tables :: dns_tables
  x_hash :: "string \<Rightarrow> go_error + string"
  x_compare :: "string \<Rightarrow> string \<Rightarrow> bool"

section \<open>Statements\<close>

type_synonym 'a db_op = "DataBase \<Rightarrow> (db_error + 'a) \<times> DataBase"

definition db_return :: "'a \<Rightarrow> 'a db_op" where
  "db_return x s = (Inr x, s)"

definition db_fail :: "db_error \<Rightarrow> 'a db_op" where
  "db_fail e s = (Inl e, s)"

definition db_bind :: "'a db_op \<Rightarrow> ('a \<Rightarrow> 'b db_op) \<Rightarrow> 'b db_op" where
  "db_bind m f s = (case m s of (Inl e, s) \<Rightarrow> (Inl e, s) | (Inr x, s) \<Rightarrow> f x s)"

definition db_lift :: "go_error + 'a \<Rightarrow> 'a db_op" where
  "db_lift r s = (map_sum OtherError id r, s)"

text \<open>\<open>Exec\<close> changes the tables, \<open>query\<close> reads them.\<close>

definition Exec :: "sql_env \<Rightarrow> string list \<Rightarrow> (tables \<Rightarrow> db_error + tables) \<Rightarrow> unit db_op" where
  "Exec X stmt f s =
     (case x_fails X stmt (db_tables s) of
        Some e \<Rightarrow> (Inl e, s)
      | None \<Rightarrow>
          (case f (db_tables s) of
             Inl e \<Rightarrow> (Inl e, s)
           | Inr t \<Rightarrow> (Inr (), s\<lparr>db_tables := t\<rparr>)))"

definition query :: "sql_env \<Rightarrow> string list \<Rightarrow> (tables \<Rightarrow> db_error + 'a) \<Rightarrow> 'a db_op" where
  "query X stmt f s =
     (case x_fails X stmt (db_tables s) of
        Some e \<Rightarrow> (Inl e, s)
      | None \<Rightarrow> (f (db_tables s), s))"

abbreviation same :: "sql_env \<Rightarrow> string \<Rightarrow> string \<Rightarrow> bool" where
  "same X a b \<equiv> x_key X a = x_key X b"

definition constrained :: "bool \<Rightarrow> bool \<Rightarrow> tables \<Rightarrow> db_error + tables" where
  "constrained duplicate referenced t =
     (if duplicate then Inl (MySQLError 1062)
      else if \<not> referenced then Inl (MySQLError 1452)
      else Inr t)"

definition first_row :: "'a list \<Rightarrow> db_error + 'a" where
  "first_row rows = (case rows of [] \<Rightarrow> Inl ErrNoRows | r # _ \<Rightarrow> Inr r)"

definition has_user :: "sql_env \<Rightarrow> tables \<Rightarrow> ObjectId \<Rightarrow> bool" where
  "has_user X t i \<longleftrightarrow> (\<exists>u \<in> set (t_User t). same X (u_Id u) i)"

definition has_resource :: "sql_env \<Rightarrow> tables \<Rightarrow> ObjectId \<Rightarrow> bool" where
  "has_resource X t i \<longleftrightarrow> (\<exists>r \<in> set (t_Resource t). same X r i)"

definition has_zone :: "sql_env \<Rightarrow> tables \<Rightarrow> ObjectId \<Rightarrow> bool" where
  "has_zone X t i \<longleftrightarrow> (\<exists>z \<in> set (t_Zone t). same X (zr_Id z) i)"

definition has_location :: "sql_env \<Rightarrow> tables \<Rightarrow> ObjectId \<Rightarrow> bool" where
  "has_location X t i \<longleftrightarrow> (\<exists>l \<in> set (t_Location t). same X (lr_Id l) i)"

definition NewObjectId :: "sql_env \<Rightarrow> ObjectId db_op" where
  "NewObjectId X s = (Inr (x_uuid X (db_uuids s)), s\<lparr>db_uuids := Suc (db_uuids s)\<rparr>)"

text \<open>Deleting resources takes the rows that refer to them along; a zone with users cannot be deleted.\<close>

definition delete_where :: "sql_env \<Rightarrow> string set \<Rightarrow> tables \<Rightarrow> db_error + tables" where
  "delete_where X ids t =
     (let K = x_key X;
          zones = K ` zr_Id ` set (filter (\<lambda>z. K (zr_Id z) \<in> ids) (t_Zone t));
          gone = (\<lambda>l. K (lr_Id l) \<in> ids \<or> K (lr_ZoneId l) \<in> zones);
          locations = K ` lr_Id ` set (filter gone (t_Location t))
      in if \<exists>uz \<in> set (t_UserZone t). K (uz_ZoneId uz) \<in> zones then Inl (MySQLError 1451)
         else Inr (t\<lparr>t_Resource := filter (\<lambda>r. K r \<notin> ids) (t_Resource t),
                     t_Zone := filter (\<lambda>z. K (zr_Id z) \<notin> ids) (t_Zone t),
                     t_Location := filter (\<lambda>l. \<not> gone l) (t_Location t),
                     t_RecordSet := filter (\<lambda>r. K (rr_Id r) \<notin> ids \<and> K (rr_LocationId r) \<notin> locations) (t_RecordSet t),
                     t_SOA := filter (\<lambda>r. K (sr_ZoneId r) \<notin> zones) (t_SOA t),
                     t_Keys := filter (\<lambda>r. K (kr_ZoneId r) \<notin> zones) (t_Keys t),
                     t_APIKeys := filter (\<lambda>r. K (ak_ZoneId r) \<notin> zones) (t_APIKeys t)\<rparr>))"

definition delete_users :: "sql_env \<Rightarrow> (User \<Rightarrow> bool) \<Rightarrow> tables \<Rightarrow> db_error + tables" where
  "delete_users X gone t =
     (let K = x_key X; users = K ` u_Id ` set (filter gone (t_User t))
      in if \<exists>uz \<in> set (t_UserZone t). K (uz_UserId uz) \<in> users then Inl (MySQLError 1451)
         else Inr (t\<lparr>t_User := filter (\<lambda>u. \<not> gone u) (t_User t),
                     t_Verification := filter (\<lambda>v. K (vr_UserId v) \<notin> users) (t_Verification t),
                     t_APIKeys := filter (\<lambda>k. K (ak_UserId k) \<notin> users) (t_APIKeys t)\<rparr>))"


section \<open>Users and verifications\<close>

definition addUser :: "sql_env \<Rightarrow> ObjectId \<Rightarrow> NewUser \<Rightarrow> unit db_op" where
  "addUser X userId u = Exec X [''addUser'', userId, nu_Email u, nu_Password u, nu_Status u] (\<lambda>t.
     constrained (\<exists>r \<in> set (t_User t). same X (u_Id r) userId \<or> same X (u_Email r) (nu_Email u)) True
       (t\<lparr>t_User := t_User t @ [\<lparr>u_Id = userId, u_Email = nu_Email u, u_Password = nu_Password u,
                                u_Status = nu_Status u\<rparr>]\<rparr>))"

text \<open>\<open>deleteUser\<close> looks at the number of rows that were deleted.\<close>

definition deleteUser :: "sql_env \<Rightarrow> string \<Rightarrow> unit db_op" where
  "deleteUser X name s =
     (case Exec X [''deleteUser'', name] (delete_users X (\<lambda>u. same X (u_Email u) name)) s of
        (Inl e, s) \<Rightarrow> (Inl e, s)
      | (Inr _, s') \<Rightarrow>
          if filter (\<lambda>u. same X (u_Email u) name) (t_User (db_tables s)) = [] then (Inl ErrNotFound, s')
          else (Inr (), s'))"

definition getUser :: "sql_env \<Rightarrow> string \<Rightarrow> User db_op" where
  "getUser X name = query X [''getUser'', name] (\<lambda>t.
     first_row (filter (\<lambda>u. same X (u_Email u) name) (t_User t)))"

definition deleteUsers :: "sql_env \<Rightarrow> unit db_op" where
  "deleteUsers X = Exec X [''deleteUsers''] (delete_users X (\<lambda>_. True))"

definition getVerification :: "sql_env \<Rightarrow> ObjectId \<Rightarrow> string \<Rightarrow> string db_op" where
  "getVerification X userId vtype = query X [''getVerification'', userId, vtype] (\<lambda>t.
     map_sum id vr_Code
       (first_row (filter (\<lambda>v. same X (vr_UserId v) userId \<and> same X (vr_Type v) vtype) (t_Verification t))))"

text \<open>\<open>REPLACE\<close> deletes the rows that the new row collides with.\<close>

definition setVerification :: "sql_env \<Rightarrow> ObjectId \<Rightarrow> Verification \<Rightarrow> unit db_op" where
  "setVerification X userId v = Exec X [''setVerification'', userId, v_Code v, v_Type v] (\<lambda>t.
     constrained False (has_user X t userId)
       (t\<lparr>t_Verification :=
            filter (\<lambda>r. \<not> (same X (vr_Code r) (v_Code v) \<or>
                          same X (vr_UserId r) userId \<and> same X (vr_Type r) (v_Type v))) (t_Verification t)
            @ [\<lparr>vr_Code = v_Code v, vr_Type = v_Type v, vr_UserId = userId\<rparr>]\<rparr>))"

definition deleteVerifications :: "sql_env \<Rightarrow> unit db_op" where
  "deleteVerifications X = Exec X [''deleteVerifications''] (\<lambda>t. Inr (t\<lparr>t_Verification := []\<rparr>))"

definition setUserStatus :: "sql_env \<Rightarrow> ObjectId \<Rightarrow> string \<Rightarrow> unit db_op" where
  "setUserStatus X userId status = Exec X [''setUserStatus'', userId, status] (\<lambda>t.
     Inr (t\<lparr>t_User := map (\<lambda>u. if same X (u_Id u) userId then u\<lparr>u_Status := status\<rparr> else u) (t_User t)\<rparr>))"

definition setUserPassword :: "sql_env \<Rightarrow> ObjectId \<Rightarrow> string \<Rightarrow> unit db_op" where
  "setUserPassword X userId password = Exec X [''setUserPassword'', userId, password] (\<lambda>t.
     Inr (t\<lparr>t_User := map (\<lambda>u. if same X (u_Id u) userId then u\<lparr>u_Password := password\<rparr> else u) (t_User t)\<rparr>))"

section \<open>Zones\<close>

definition setSOA :: "sql_env \<Rightarrow> ObjectId \<Rightarrow> SOA_RRSet \<Rightarrow> unit db_op" where
  "setSOA X zoneId soa = Exec X [''setSOA'', zoneId, soa_Ns soa, soa_MBox soa] (\<lambda>t.
     constrained False (has_zone X t zoneId)
       (t\<lparr>t_SOA := filter (\<lambda>r. \<not> same X (sr_ZoneId r) zoneId) (t_SOA t)
                   @ [\<lparr>sr_SOA = soa, sr_ZoneId = zoneId\<rparr>]\<rparr>))"

definition addResource :: "sql_env \<Rightarrow> ObjectId \<Rightarrow> ObjectId db_op" where
  "addResource X resourceId =
     db_bind (if resourceId = EmptyObjectId then NewObjectId X else db_return resourceId) (\<lambda>resourceId.
     db_bind (Exec X [''addResource'', resourceId] (\<lambda>t.
        constrained (has_resource X t resourceId) True (t\<lparr>t_Resource := t_Resource t @ [resourceId]\<rparr>))) (\<lambda>_.
     db_return resourceId))"

definition deleteResources :: "sql_env \<Rightarrow> unit db_op" where
  "deleteResources X =
     db_bind (Exec X [''DELETE FROM UserZone''] (\<lambda>t. Inr (t\<lparr>t_UserZone := []\<rparr>))) (\<lambda>_.
     Exec X [''DELETE FROM Resource''] (\<lambda>t. delete_where X (x_key X ` set (t_Resource t)) t))"

definition addZone :: "sql_env \<Rightarrow> ObjectId \<Rightarrow> database_NewZone \<Rightarrow> unit db_op" where
  "addZone X resourceId z = Exec X [''addZone'', resourceId, nz_Name z] (\<lambda>t.
     constrained (has_zone X t resourceId \<or> (\<exists>r \<in> set (t_Zone t). same X (zr_Name r) (nz_Name z)))
       (has_resource X t resourceId)
       (t\<lparr>t_Zone := t_Zone t @ [\<lparr>zr_Id = resourceId, zr_Name = nz_Name z, zr_CNameFlattening = nz_CNameFlattening z,
                                zr_Dnssec = nz_Dnssec z, zr_Enabled = nz_Enabled z\<rparr>]\<rparr>))"

definition addUserZone :: "sql_env \<Rightarrow> ObjectId \<Rightarrow> ObjectId \<Rightarrow> unit db_op" where
  "addUserZone X userId zoneId = Exec X [''addUserZone'', userId, zoneId] (\<lambda>t.
     constrained (\<exists>r \<in> set (t_UserZone t). same X (uz_UserId r) userId \<and> same X (uz_ZoneId r) zoneId)
       (has_user X t userId \<and> has_zone X t zoneId)
       (t\<lparr>t_UserZone := t_UserZone t @ [\<lparr>uz_UserId = userId, uz_ZoneId = zoneId, uz_Role = UserRoleOwner\<rparr>]\<rparr>))"

definition deleteUserZone :: "sql_env \<Rightarrow> ObjectId \<Rightarrow> ObjectId \<Rightarrow> unit db_op" where
  "deleteUserZone X userId zoneId = Exec X [''deleteUserZone'', userId, zoneId] (\<lambda>t.
     Inr (t\<lparr>t_UserZone := filter (\<lambda>r. \<not> (same X (uz_UserId r) userId \<and> same X (uz_ZoneId r) zoneId)) (t_UserZone t)\<rparr>))"

definition updateZone :: "sql_env \<Rightarrow> ObjectId \<Rightarrow> ZoneUpdate \<Rightarrow> unit db_op" where
  "updateZone X zoneId z = Exec X [''updateZone'', zoneId, zu_Name z] (\<lambda>t.
     constrained (has_zone X t zoneId \<and>
         (\<exists>r \<in> set (t_Zone t). \<not> same X (zr_Id r) zoneId \<and> same X (zr_Name r) (zu_Name z))) True
       (t\<lparr>t_Zone := map (\<lambda>r. if same X (zr_Id r) zoneId
            then r\<lparr>zr_Name := zu_Name z, zr_Dnssec := zu_Dnssec z, zr_CNameFlattening := zu_CNameFlattening z,
                   zr_Enabled := zu_Enabled z\<rparr> else r) (t_Zone t)\<rparr>))"

definition zone_locations :: "sql_env \<Rightarrow> ObjectId \<Rightarrow> tables \<Rightarrow> LocationRow list" where
  "zone_locations X zoneId t = filter (\<lambda>l. same X (lr_ZoneId l) zoneId) (t_Location t)"

definition location_records :: "sql_env \<Rightarrow> ObjectId \<Rightarrow> tables \<Rightarrow> RecordRow list" where
  "location_records X locationId t = filter (\<lambda>r. same X (rr_LocationId r) locationId) (t_RecordSet t)"

definition deleteZone :: "sql_env \<Rightarrow> ObjectId \<Rightarrow> unit db_op" where
  "deleteZone X zoneId = Exec X [''deleteZone'', zoneId] (\<lambda>t.
     let locations = zone_locations X zoneId t;
         records = concat (map (\<lambda>l. location_records X (lr_Id l) t) locations)
     in delete_where X ({x_key X zoneId} \<union> x_key X ` rr_Id ` set records \<union> x_key X ` lr_Id ` set locations) t)"

definition addLocation :: "sql_env \<Rightarrow> ObjectId \<Rightarrow> ObjectId \<Rightarrow> NewLocation \<Rightarrow> unit db_op" where
  "addLocation X zoneId resourceId l = Exec X [''addLocation'', zoneId, resourceId, nl_Location l] (\<lambda>t.
     constrained (\<exists>r \<in> set (t_Location t). same X (lr_Id r) resourceId \<or>
           same X (lr_ZoneId r) zoneId \<and> same X (lr_Name r) (nl_Location l))
       (has_resource X t resourceId \<and> has_zone X t zoneId)
       (t\<lparr>t_Location := t_Location t @ [\<lparr>lr_Id = resourceId, lr_Name = nl_Location l, lr_Enabled = nl_Enabled l,
                                        lr_ZoneId = zoneId\<rparr>]\<rparr>))"

definition updateLocation :: "sql_env \<Rightarrow> ObjectId \<Rightarrow> LocationUpdate \<Rightarrow> unit db_op" where
  "updateLocation X locationId l = Exec X [''updateLocation'', locationId, lu_Location l] (\<lambda>t.
     constrained (\<exists>r \<in> set (t_Location t). \<exists>r' \<in> set (t_Location t).
           same X (lr_Id r) locationId \<and> \<not> same X (lr_Id r') locationId \<and>
           same X (lr_ZoneId r') (lr_ZoneId r) \<and> same X (lr_Name r') (lu_Location l)) True
       (t\<lparr>t_Location := map (\<lambda>r. if same X (lr_Id r) locationId
            then r\<lparr>lr_Name := lu_Location l, lr_Enabled := lu_Enabled l\<rparr> else r) (t_Location t)\<rparr>))"

definition deleteLocation :: "sql_env \<Rightarrow> ObjectId \<Rightarrow> unit db_op" where
  "deleteLocation X locationId = Exec X [''deleteLocation'', locationId] (\<lambda>t.
     delete_where X ({x_key X locationId} \<union> x_key X ` rr_Id ` set (location_records X locationId t)) t)"

definition deleteZoneData :: "sql_env \<Rightarrow> ObjectId \<Rightarrow> unit db_op" where
  "deleteZoneData X zoneId = Exec X [''deleteZoneData'', zoneId] (\<lambda>t.
     delete_where X (x_key X ` lr_Id ` set (zone_locations X zoneId t)) t)"

definition updateSerial :: "sql_env \<Rightarrow> ObjectId \<Rightarrow> unit db_op" where
  "updateSerial X zoneId = db_return ()"

definition addRecordSet :: "sql_env \<Rightarrow> ObjectId \<Rightarrow> ObjectId \<Rightarrow> NewRecordSet \<Rightarrow> unit db_op" where
  "addRecordSet X locationId resourceId r =
     db_bind (db_lift (j_MarshalRRSet (x_json X) (nr_Value r))) (\<lambda>value.
     Exec X [''addRecordSet'', locationId, resourceId, nr_Type r, value] (\<lambda>t.
       constrained (\<exists>q \<in> set (t_RecordSet t). same X (rr_Id q) resourceId \<or>
             same X (rr_Type q) (nr_Type r) \<and> same X (rr_LocationId q) locationId)
         (has_resource X t resourceId \<and> has_location X t locationId)
         (t\<lparr>t_RecordSet := t_RecordSet t @ [\<lparr>rr_Id = resourceId, rr_LocationId = locationId, rr_Type = nr_Type r,
                                            rr_Value = x_column X value, rr_Enabled = nr_Enabled r\<rparr>]\<rparr>)))"

definition updateRecordSet :: "sql_env \<Rightarrow> ObjectId \<Rightarrow> RecordSetUpdate \<Rightarrow> unit db_op" where
  "updateRecordSet X recordId r =
     db_bind (db_lift (j_MarshalRRSet (x_json X) (ru_Value r))) (\<lambda>value.
     Exec X [''updateRecordSet'', recordId, value] (\<lambda>t.
       Inr (t\<lparr>t_RecordSet := map (\<lambda>q. if same X (rr_Id q) recordId
            then q\<lparr>rr_Value := x_column X value, rr_Enabled := ru_Enabled r\<rparr> else q) (t_RecordSet t)\<rparr>)))"

definition deleteRecordSet :: "sql_env \<Rightarrow> ObjectId \<Rightarrow> unit db_op" where
  "deleteRecordSet X recordId = Exec X [''deleteRecordSet'', recordId] (delete_where X {x_key X recordId})"

definition setZoneKeys :: "sql_env \<Rightarrow> ObjectId \<Rightarrow> ZoneKeys \<Rightarrow> unit db_op" where
  "setZoneKeys X zoneId zoneKeys = Exec X [''setZoneKeys'', zoneId] (\<lambda>t.
     constrained (\<exists>r \<in> set (t_Keys t). same X (kr_ZoneId r) zoneId) (has_zone X t zoneId)
       (t\<lparr>t_Keys := t_Keys t @ [\<lparr>kr_Keys = zoneKeys, kr_ZoneId = zoneId\<rparr>]\<rparr>))"

section \<open>Events\<close>

text \<open>A revision that was taken from the counter is not given back.\<close>

definition addEvent :: "sql_env \<Rightarrow> ObjectId \<Rightarrow> string \<Rightarrow> event_value \<Rightarrow> int db_op" where
  "addEvent X zoneId eventType value =
     db_bind (db_lift (x_Marshal X value)) (\<lambda>jsonValue s.
     let rev = db_revision s in
     db_bind (Exec X [''addEvent'', zoneId, eventType, jsonValue] (\<lambda>t.
        Inr (t\<lparr>t_Events := t_Events t @ [\<lparr>ev_Revision = rev, ev_ZoneId = zoneId, ev_Type = eventType,
                                           ev_Value = x_column X jsonValue\<rparr>]\<rparr>))) (\<lambda>_. db_return rev)
       (s\<lparr>db_revision := rev + 1\<rparr>))"

text \<open>\<open>ALTER TABLE\<close> commits the transaction implicitly.\<close>

definition deleteEvents :: "sql_env \<Rightarrow> unit db_op" where
  "deleteEvents X =
     db_bind (Exec X [''DELETE FROM Events''] (\<lambda>t. Inr (t\<lparr>t_Events := []\<rparr>))) (\<lambda>_ s.
     db_bind (Exec X [''ALTER TABLE Events''] Inr) (\<lambda>_ s. (Inr (), s\<lparr>db_revision := 1\<rparr>))
       (s\<lparr>db_saved := db_tables s\<rparr>))"

definition getEvents :: "sql_env \<Rightarrow> int \<Rightarrow> nat \<Rightarrow> nat \<Rightarrow> Event list db_op" where
  "getEvents X revision start n = query X [''getEvents''] (\<lambda>t.
     Inr (take n (drop start (sort_key ev_Revision (filter (\<lambda>e. revision < ev_Revision e) (t_Events t))))))"

section \<open>Queries\<close>

definition getZoneId :: "sql_env \<Rightarrow> string \<Rightarrow> ObjectId db_op" where
  "getZoneId X zoneName = query X [''getZoneId'', zoneName] (\<lambda>t.
     map_sum id zr_Id (first_row (filter (\<lambda>z. same X (zr_Name z) zoneName) (t_Zone t))))"

definition zoneExists :: "sql_env \<Rightarrow> string \<Rightarrow> bool db_op" where
  "zoneExists X zoneName = query X [''zoneExists'', zoneName] (\<lambda>t.
     Inr (length (filter (\<lambda>z. same X (zr_Name z) zoneName) (t_Zone t)) = 1))"

text \<open>\<open>LIMIT\<close> does not take negative numbers.\<close>

definition page :: "int \<Rightarrow> int \<Rightarrow> 'a list \<Rightarrow> db_error + 'a list" where
  "page start n rows =
     (if start < 0 \<or> n < 0 then Inl (OtherError (Err ''incorrect arguments to LIMIT''))
      else Inr (take (nat n) (drop (nat start) rows)))"

text \<open>\<open>x_order\<close> gives the positions of the rows in ascending or descending order.\<close>

definition order_by :: "sql_env \<Rightarrow> bool \<Rightarrow> ('a \<Rightarrow> string) \<Rightarrow> 'a list \<Rightarrow> 'a list" where
  "order_by X ascending column rows = map (\<lambda>i. rows ! i) (x_order X ascending (map column rows))"

definition user_zones :: "sql_env \<Rightarrow> ObjectId \<Rightarrow> string \<Rightarrow> tables \<Rightarrow> ListItem list" where
  "user_zones X userId pattern t =
     concat (map (\<lambda>uz. map (\<lambda>z. \<lparr>li_Id = zr_Name z, li_Enabled = zr_Enabled z\<rparr>)
         (filter (\<lambda>z. same X (zr_Id z) (uz_ZoneId uz) \<and> x_like X (zr_Name z) pattern) (t_Zone t)))
       (filter (\<lambda>uz. same X (uz_UserId uz) userId) (t_UserZone t)))"

definition getZones :: "sql_env \<Rightarrow> ObjectId \<Rightarrow> int \<Rightarrow> int \<Rightarrow> string \<Rightarrow> bool \<Rightarrow> db_List db_op" where
  "getZones X userId start n q ascendingOrder =
     (let like = ''%'' @ q @ ''%'' in
      db_bind (query X [''getZones'', userId, like] (\<lambda>t.
         page start n (order_by X ascendingOrder li_Id (user_zones X userId like t)))) (\<lambda>items.
      db_bind (query X [''getZones count'', userId, like] (\<lambda>t. Inr (int (length (user_zones X userId like t)))))
        (\<lambda>total. db_return \<lparr>lst_Items = items, lst_Total = total\<rparr>)))"

text \<open>A zone without SOA or keys gives NULL columns, which cannot be scanned.\<close>

definition null_error :: db_error where
  "null_error = OtherError (Err ''converting NULL is unsupported'')"

definition getZone :: "sql_env \<Rightarrow> ObjectId \<Rightarrow> database_Zone db_op" where
  "getZone X zoneId = query X [''getZone'', zoneId] (\<lambda>t.
     andThen (first_row (filter (\<lambda>z. same X (zr_Id z) zoneId) (t_Zone t))) (\<lambda>z.
       case (filter (\<lambda>r. same X (sr_ZoneId r) zoneId) (t_SOA t), filter (\<lambda>r. same X (kr_ZoneId r) zoneId) (t_Keys t)) of
         (soa # _, keys # _) \<Rightarrow>
           Inr \<lparr>dz_Id = zr_Id z, dz_Name = zr_Name z, dz_Enabled = zr_Enabled z, dz_Dnssec = zr_Dnssec z,
                dz_CNameFlattening = zr_CNameFlattening z, dz_SOA = (sr_SOA soa)\<lparr>soa_Data := None\<rparr>,
                dz_DS = ZoneKeys_DS (kr_Keys keys)\<rparr>
       | _ \<Rightarrow> Inl null_error))"

definition location_items :: "sql_env \<Rightarrow> ObjectId \<Rightarrow> string \<Rightarrow> tables \<Rightarrow> ListItem list" where
  "location_items X zoneId pattern t =
     map (\<lambda>l. \<lparr>li_Id = lr_Name l, li_Enabled = lr_Enabled l\<rparr>)
       (filter (\<lambda>l. x_like X (lr_Name l) pattern) (zone_locations X zoneId t))"

definition getLocations :: "sql_env \<Rightarrow> ObjectId \<Rightarrow> int \<Rightarrow> int \<Rightarrow> string \<Rightarrow> bool \<Rightarrow> db_List db_op" where
  "getLocations X zoneId start n q ascendingOrder =
     (let like = ''%'' @ q @ ''%'' in
      db_bind (query X [''getLocations'', zoneId, like] (\<lambda>t.
         page start n (order_by X ascendingOrder li_Id (location_items X zoneId like t)))) (\<lambda>items.
      db_bind (query X [''getLocations count'', zoneId, like] (\<lambda>t. Inr (int (length (location_items X zoneId like t)))))
        (\<lambda>total. db_return \<lparr>lst_Items = items, lst_Total = total\<rparr>)))"

definition getLocation :: "sql_env \<Rightarrow> ObjectId \<Rightarrow> Location db_op" where
  "getLocation X locationId = query X [''getLocation'', locationId] (\<lambda>t.
     map_sum id (\<lambda>l. \<lparr>loc_Id = lr_Id l, loc_Name = lr_Name l, loc_Enabled = lr_Enabled l\<rparr>)
       (first_row (filter (\<lambda>l. same X (lr_Id l) locationId) (t_Location t))))"

definition locations_named :: "sql_env \<Rightarrow> string \<Rightarrow> string \<Rightarrow> tables \<Rightarrow> (ObjectId \<times> ObjectId) list" where
  "locations_named X zoneName location t =
     concat (map (\<lambda>z. map (\<lambda>l. (zr_Id z, lr_Id l))
         (filter (\<lambda>l. same X (lr_Name l) location) (zone_locations X (zr_Id z) t)))
       (filter (\<lambda>z. same X (zr_Name z) zoneName) (t_Zone t)))"

definition getLocationId :: "sql_env \<Rightarrow> string \<Rightarrow> string \<Rightarrow> (ObjectId \<times> ObjectId) db_op" where
  "getLocationId X zoneName location = query X [''getLocationId'', zoneName, location] (\<lambda>t.
     first_row (locations_named X zoneName location t))"

definition getRecordId :: "sql_env \<Rightarrow> string \<Rightarrow> string \<Rightarrow> string \<Rightarrow> (ObjectId \<times> ObjectId \<times> ObjectId) db_op" where
  "getRecordId X zoneName location recordType = query X [''getRecordId'', zoneName, location, recordType] (\<lambda>t.
     first_row (concat (map (\<lambda>(zi, li). map (\<lambda>r. (zi, li, rr_Id r))
         (filter (\<lambda>r. same X (rr_Type r) recordType) (location_records X li t)))
       (locations_named X zoneName location t))))"

definition record_items :: "sql_env \<Rightarrow> ObjectId \<Rightarrow> tables \<Rightarrow> ListItem list" where
  "record_items X locationId t =
     map (\<lambda>r. \<lparr>li_Id = rr_Type r, li_Enabled = rr_Enabled r\<rparr>) (location_records X locationId t)"

definition getRecordSets :: "sql_env \<Rightarrow> ObjectId \<Rightarrow> db_List db_op" where
  "getRecordSets X locationId =
     db_bind (query X [''getRecordSets'', locationId] (\<lambda>t. Inr (order_by X True li_Id (record_items X locationId t)))) (\<lambda>items.
     db_bind (query X [''getRecordSets count'', locationId] (\<lambda>t. Inr (int (length (record_items X locationId t)))))
       (\<lambda>total. db_return \<lparr>lst_Items = items, lst_Total = total\<rparr>))"

text \<open>
  The error of the scan is overwritten by that of decoding the value, which is empty when there
  is no row.
\<close>

definition getRecordSet :: "sql_env \<Rightarrow> ObjectId \<Rightarrow> string \<Rightarrow> RecordSet db_op" where
  "getRecordSet X recordId recordType s =
     (let row = fst (query X [''getRecordSet'', recordId] (\<lambda>t.
                  first_row (filter (\<lambda>r. same X (rr_Id r) recordId) (t_RecordSet t))) s);
          r = (case row of
                 Inl _ \<Rightarrow> \<lparr>rr_Id = [], rr_LocationId = [], rr_Type = [], rr_Value = [], rr_Enabled = False\<rparr>
               | Inr r \<Rightarrow> r)
      in db_bind (db_lift (x_Unmarshal X (rr_Value r) (TypeStrToRRSet (x_tables X) recordType))) (\<lambda>rrset.
           db_return \<lparr>rs_Id = rr_Id r, rs_Type = rr_Type r, rs_Value = rrset, rs_Enabled = rr_Enabled r\<rparr>) s)"

end
