(* ===== verification/ControlPlane.thy ===== *)
theory ControlPlane
  imports Database
begin

text \<open>
  The operations of the control plane: \<open>src/internal/api/database/db.go\<close>, the transactions of
  \<open>transaction.go\<close>, and the parts of \<open>internal.go\<close> about ownership, verification codes and API keys.

  The methods carry the prefix \<open>db_\<close>, since the types of events have the same names.  The calls of one
  method are not interleaved with those of other clients.  Random codes and keys are arguments.
\<close>

section \<open>Random strings\<close>

definition letterBytes :: string where
  "letterBytes = ''0123456789abcdefghijklmnopqrstuvwxyzABCDEFGHIJKLMNOPQRSTUVWXYZ''"

text \<open>
  \<open>src\<close> is the sequence of 63 bit numbers of the generator; ten groups of six bits are taken from
  each, and groups that are not the index of a letter are skipped.
\<close>

partial_function (option) random_loop ::
  "(nat \<Rightarrow> int) \<Rightarrow> nat \<Rightarrow> nat \<Rightarrow> int \<Rightarrow> nat \<Rightarrow> string \<Rightarrow> string option" where
  "random_loop src k i cache remain b =
     (if i = 0 then Some b
      else let (k, cache, remain) = (if remain = 0 then (Suc k, src k, 10) else (k, cache, remain));
               idx = nat (cache mod 64);
               (i, b) = (if idx < length letterBytes then (i - 1, letterBytes ! idx # b) else (i, b))
           in random_loop src k i (cache div 64) (remain - 1) b)"

definition randomString :: "(nat \<Rightarrow> int) \<Rightarrow> nat \<Rightarrow> string option" where
  "randomString src n = random_loop src 1 n (src 0) 10 []"

section \<open>Transactions\<close>

text \<open>A failed body is rolled back; so is a panic, which none of the bodies raises.\<close>

definition withTransaction :: "sql_env \<Rightarrow> 'a db_op \<Rightarrow> 'a db_op" where
  "withTransaction X fn s =
     (case x_fails X [''BEGIN''] (db_tables s) of
        Some e \<Rightarrow> (Inl e, s)
      | None \<Rightarrow>
          (case fn (s\<lparr>db_saved := db_tables s\<rparr>) of
             (Inl e, s) \<Rightarrow> (Inl e, s\<lparr>db_tables := db_saved s\<rparr>)
           | (Inr x, s) \<Rightarrow>
               (case x_commit X (db_tables s) of
                  None \<Rightarrow> (Inr x, s)
                | Some (e, applied) \<Rightarrow> (Inl e, if applied then s else s\<lparr>db_tables := db_saved s\<rparr>))))"

definition parsed :: "'a db_op \<Rightarrow> 'a db_op" where
  "parsed m s = (case m s of (Inl e, s) \<Rightarrow> (Inl (parseError e), s) | (Inr x, s) \<Rightarrow> (Inr x, s))"

definition HashPassword :: "sql_env \<Rightarrow> string \<Rightarrow> go_error + string" where
  "HashPassword X password = x_hash X password"

definition CheckPasswordHash :: "sql_env \<Rightarrow> string \<Rightarrow> string \<Rightarrow> bool" where
  "CheckPasswordHash X password hash = x_compare X hash password"

section \<open>Ownership\<close>

definition getZoneOwner :: "sql_env \<Rightarrow> ObjectId \<Rightarrow> ObjectId db_op" where
  "getZoneOwner X zoneId s =
     (case query X [''getZoneOwner'', zoneId] (\<lambda>t.
        map_sum id uz_UserId (first_row (filter (\<lambda>r. same X (uz_ZoneId r) zoneId \<and> same X (uz_Role r) UserRoleOwner)
          (t_UserZone t)))) s of
        (Inl ErrNoRows, s) \<Rightarrow> (Inr EmptyObjectId, s)
      | r \<Rightarrow> r)"

definition isAuthorized :: "sql_env \<Rightarrow> ObjectId \<Rightarrow> ObjectId \<Rightarrow> bool db_op" where
  "isAuthorized X userId zoneId s =
     (case getZoneOwner X zoneId s of
        (Inl _, s) \<Rightarrow> (Inr False, s)
      | (Inr owner, s) \<Rightarrow> (Inr (owner = userId), s))"

definition authorized :: "sql_env \<Rightarrow> ObjectId \<Rightarrow> ObjectId \<Rightarrow> 'a db_op \<Rightarrow> 'a db_op" where
  "authorized X userId zoneId m =
     db_bind (isAuthorized X userId zoneId) (\<lambda>ok. if ok then m else db_fail ErrUnauthorized)"

definition resourceExists :: "sql_env \<Rightarrow> ObjectId \<Rightarrow> bool db_op" where
  "resourceExists X i = query X [''resourceExists'', i] (\<lambda>t.
     Inr (length (filter (\<lambda>r. same X r i) (t_Resource t)) = 1))"

text \<open>\<open>ImportZone\<close> and \<open>AddAPIKey\<close> compare the owner themselves and return the error of the query.\<close>

definition owned :: "sql_env \<Rightarrow> ObjectId \<Rightarrow> ObjectId \<Rightarrow> 'a db_op \<Rightarrow> 'a db_op" where
  "owned X userId zoneId m =
     db_bind (parsed (getZoneOwner X zoneId)) (\<lambda>owner. if owner \<noteq> userId then db_fail ErrUnauthorized else m)"

section \<open>Users\<close>

definition db_Clear :: "sql_env \<Rightarrow> bool \<Rightarrow> unit db_op" where
  "db_Clear X removeUsers = parsed (withTransaction X
     (db_bind (deleteResources X) (\<lambda>_.
      db_bind (deleteVerifications X) (\<lambda>_.
      db_bind (deleteEvents X) (\<lambda>_.
        if removeUsers then deleteUsers X else db_return ())))))"

definition db_AddUser :: "sql_env \<Rightarrow> string \<Rightarrow> NewUser \<Rightarrow> (ObjectId \<times> string) db_op" where
  "db_AddUser X code u =
     db_bind (db_lift (HashPassword X (nu_Password u))) (\<lambda>hash.
     let u = u\<lparr>nu_Password := hash\<rparr> in
     db_bind (NewObjectId X) (\<lambda>userId.
     parsed (withTransaction X
       (db_bind (addUser X userId u) (\<lambda>_.
        db_bind (if nu_Status u = UserStatusPending
                 then setVerification X userId \<lparr>v_Code = code, v_Type = VerificationTypeSignup\<rparr>
                 else db_return ()) (\<lambda>_.
        db_return (userId, code)))))))"

definition applyVerifiedAction ::
  "sql_env \<Rightarrow> string \<Rightarrow> string \<Rightarrow> (ObjectId \<Rightarrow> unit db_op) \<Rightarrow> unit db_op" where
  "applyVerifiedAction X code verificationType action =
     db_bind (query X [''applyVerifiedAction'', code] (\<lambda>t.
        andThen (first_row (filter (\<lambda>v. same X (vr_Code v) code) (t_Verification t))) (\<lambda>v.
        case filter (\<lambda>u. same X (u_Id u) (vr_UserId v)) (t_User t) of
          [] \<Rightarrow> Inl null_error
        | u # _ \<Rightarrow> Inr (u_Id u, vr_Type v)))) (\<lambda>(userId, storedType).
     if storedType \<noteq> verificationType then db_fail (OtherError (Err ''unknown verification type''))
     else withTransaction X
       (db_bind (action userId) (\<lambda>_.
        Exec X [''DELETE FROM Verification'', code] (\<lambda>t.
          Inr (t\<lparr>t_Verification := filter (\<lambda>v. \<not> same X (vr_Code v) code) (t_Verification t)\<rparr>)))))"

definition db_Verify :: "sql_env \<Rightarrow> string \<Rightarrow> unit db_op" where
  "db_Verify X code = parsed (applyVerifiedAction X code VerificationTypeSignup (\<lambda>userId.
     setUserStatus X userId UserStatusActive))"

definition db_SetRecoveryCode :: "sql_env \<Rightarrow> string \<Rightarrow> ObjectId \<Rightarrow> string db_op" where
  "db_SetRecoveryCode X code userId = parsed (db_bind (withTransaction X
     (setVerification X userId \<lparr>v_Code = code, v_Type = VerificationTypeRecover\<rparr>)) (\<lambda>_. db_return code))"

definition db_ResetPassword :: "sql_env \<Rightarrow> string \<Rightarrow> string \<Rightarrow> unit db_op" where
  "db_ResetPassword X code newPassword =
     db_bind (db_lift (HashPassword X newPassword)) (\<lambda>hash.
     parsed (applyVerifiedAction X code VerificationTypeRecover (\<lambda>userId. setUserPassword X userId hash)))"

definition db_GetUser :: "sql_env \<Rightarrow> string \<Rightarrow> User db_op" where
  "db_GetUser X name = parsed (getUser X name)"

definition db_DeleteUser :: "sql_env \<Rightarrow> string \<Rightarrow> unit db_op" where
  "db_DeleteUser X name = parsed (deleteUser X name)"

definition db_GetVerification :: "sql_env \<Rightarrow> ObjectId \<Rightarrow> string \<Rightarrow> string db_op" where
  "db_GetVerification X userId verificationType = parsed (getVerification X userId verificationType)"

section \<open>API keys\<close>

definition addAPIKey :: "sql_env \<Rightarrow> ObjectId \<Rightarrow> ObjectId \<Rightarrow> APIKeyItem \<Rightarrow> string \<Rightarrow> unit db_op" where
  "addAPIKey X userId zoneId apiKey hash = Exec X [''addAPIKey'', userId, zoneId, aki_Name apiKey, aki_Scope apiKey] (\<lambda>t.
     constrained (\<exists>k \<in> set (t_APIKeys t). same X (ak_Name k) (aki_Name apiKey) \<and> same X (ak_UserId k) userId)
       (has_user X t userId \<and> has_zone X t zoneId)
       (t\<lparr>t_APIKeys := t_APIKeys t @ [\<lparr>ak_Name = aki_Name apiKey, ak_Scope = aki_Scope apiKey, ak_Hash = hash,
            ak_Enabled = aki_Enabled apiKey, ak_ZoneId = zoneId, ak_UserId = userId\<rparr>]\<rparr>))"

text \<open>The zone of a key exists, as the schema demands; a missing one gives a NULL name.\<close>

definition key_item :: "sql_env \<Rightarrow> tables \<Rightarrow> APIKey \<Rightarrow> db_error + APIKeyItem" where
  "key_item X t k =
     (case filter (\<lambda>z. same X (zr_Id z) (ak_ZoneId k)) (t_Zone t) of
        [] \<Rightarrow> Inl null_error
      | z # _ \<Rightarrow> Inr \<lparr>aki_Name = ak_Name k, aki_Scope = ak_Scope k, aki_ZoneName = zr_Name z, aki_Enabled = ak_Enabled k\<rparr>)"

definition getAPIKeys :: "sql_env \<Rightarrow> ObjectId \<Rightarrow> APIKeyItem list db_op" where
  "getAPIKeys X userId = query X [''getAPIKeys'', userId] (\<lambda>t.
     traverse (key_item X t) (order_by X True ak_Name (filter (\<lambda>k. same X (ak_UserId k) userId) (t_APIKeys t))))"

definition getAPIKey :: "sql_env \<Rightarrow> ObjectId \<Rightarrow> string \<Rightarrow> APIKeyItem db_op" where
  "getAPIKey X userId name = query X [''getAPIKey'', userId, name] (\<lambda>t.
     andThen (first_row (filter (\<lambda>k. same X (ak_UserId k) userId \<and> same X (ak_Name k) name) (t_APIKeys t))) (key_item X t))"

definition updateAPIKey :: "sql_env \<Rightarrow> ObjectId \<Rightarrow> APIKeyUpdate \<Rightarrow> unit db_op" where
  "updateAPIKey X userId model = Exec X [''updateAPIKey'', userId, aku_Name model, aku_Scope model] (\<lambda>t.
     Inr (t\<lparr>t_APIKeys := map (\<lambda>k. if same X (ak_UserId k) userId \<and> same X (ak_Name k) (aku_Name model)
        then k\<lparr>ak_Enabled := aku_Enabled model, ak_Scope := aku_Scope model\<rparr> else k) (t_APIKeys t)\<rparr>))"

definition deleteAPIKey :: "sql_env \<Rightarrow> ObjectId \<Rightarrow> string \<Rightarrow> unit db_op" where
  "deleteAPIKey X userId name = Exec X [''deleteAPIKey'', userId, name] (\<lambda>t.
     Inr (t\<lparr>t_APIKeys := filter (\<lambda>k. \<not> (same X (ak_UserId k) userId \<and> same X (ak_Name k) name)) (t_APIKeys t)\<rparr>))"

definition db_AddAPIKey :: "sql_env \<Rightarrow> string \<Rightarrow> ObjectId \<Rightarrow> APIKeyItem \<Rightarrow> string db_op" where
  "db_AddAPIKey X key userId newAPIKey =
     db_bind (parsed (getZoneId X (aki_ZoneName newAPIKey))) (\<lambda>zoneId.
     owned X userId zoneId
       (db_bind (db_lift (HashPassword X key)) (\<lambda>hash.
        db_bind (parsed (addAPIKey X userId zoneId newAPIKey hash)) (\<lambda>_. db_return key))))"

definition db_GetAPIKeys :: "sql_env \<Rightarrow> ObjectId \<Rightarrow> APIKeyItem list db_op" where
  "db_GetAPIKeys X userId = parsed (getAPIKeys X userId)"

definition db_GetAPIKey :: "sql_env \<Rightarrow> ObjectId \<Rightarrow> string \<Rightarrow> APIKeyItem db_op" where
  "db_GetAPIKey X userId name = parsed (getAPIKey X userId name)"

definition db_UpdateAPIKey :: "sql_env \<Rightarrow> ObjectId \<Rightarrow> APIKeyUpdate \<Rightarrow> unit db_op" where
  "db_UpdateAPIKey X userId model = parsed (updateAPIKey X userId model)"

definition db_DeleteAPIKey :: "sql_env \<Rightarrow> ObjectId \<Rightarrow> string \<Rightarrow> unit db_op" where
  "db_DeleteAPIKey X userId name = parsed (deleteAPIKey X userId name)"

section \<open>Zones\<close>

definition db_GetEvents :: "sql_env \<Rightarrow> int \<Rightarrow> nat \<Rightarrow> nat \<Rightarrow> Event list db_op" where
  "db_GetEvents X revision start n = parsed (getEvents X revision start n)"

definition logged :: "sql_env \<Rightarrow> ObjectId \<Rightarrow> string \<Rightarrow> event_value \<Rightarrow> 'a \<Rightarrow> 'a db_op" where
  "logged X zoneId eventType value x = db_bind (addEvent X zoneId eventType value) (\<lambda>_. db_return x)"

definition import_record :: "sql_env \<Rightarrow> string \<Rightarrow> ObjectId \<Rightarrow> string \<times> RRSet \<Rightarrow> unit db_op" where
  "import_record X zoneName locationId = (\<lambda>(rtype, rset).
     db_bind (addResource X EmptyObjectId) (\<lambda>recordId.
     addRecordSet X locationId recordId
       \<lparr>nr_ZoneName = zoneName, nr_Location = [], nr_Type = rtype, nr_Value = Some rset, nr_Enabled = True\<rparr>))"

fun db_each :: "('a \<Rightarrow> unit db_op) \<Rightarrow> 'a list \<Rightarrow> unit db_op" where
  "db_each f [] = db_return ()"
| "db_each f (x # xs) = db_bind (f x) (\<lambda>_. db_each f xs)"

definition import_location :: "sql_env \<Rightarrow> string \<Rightarrow> ObjectId \<Rightarrow> string \<times> (string \<times> RRSet) list \<Rightarrow> unit db_op" where
  "import_location X zoneName zoneId = (\<lambda>(label, location).
     db_bind (addResource X EmptyObjectId) (\<lambda>locationId.
     db_bind (addLocation X zoneId locationId \<lparr>nl_ZoneName = zoneName, nl_Location = label, nl_Enabled = True\<rparr>) (\<lambda>_.
     db_each (import_record X zoneName locationId) location)))"

text \<open>The maps are visited in the order of the lists.\<close>

definition db_ImportZone :: "sql_env \<Rightarrow> ObjectId \<Rightarrow> ZoneImport \<Rightarrow> unit db_op" where
  "db_ImportZone X userId z =
     db_bind (parsed (getZoneId X (zi_Name z))) (\<lambda>zoneId.
     owned X userId zoneId (parsed (withTransaction X
       (db_bind (deleteZoneData X zoneId) (\<lambda>_.
        db_bind (db_each (import_location X (zi_Name z) zoneId) (zi_Entries z)) (\<lambda>_.
        db_bind (updateSerial X zoneId) (\<lambda>_.
        logged X zoneId ImportZone (V_ZoneImport z) ())))))))"

definition db_AddZone :: "sql_env \<Rightarrow> ObjectId \<Rightarrow> database_NewZone \<Rightarrow> ObjectId db_op" where
  "db_AddZone X userId z =
     db_bind (parsed (zoneExists X (nz_Name z))) (\<lambda>exists.
     if exists then db_fail ErrDuplicateEntry
     else parsed (withTransaction X
       (db_bind (addResource X EmptyObjectId) (\<lambda>zoneId.
        db_bind (addZone X zoneId z) (\<lambda>_.
        db_bind (addUserZone X userId zoneId) (\<lambda>_.
        db_bind (setSOA X zoneId (nz_SOA z)) (\<lambda>_.
        db_bind (addResource X EmptyObjectId) (\<lambda>locationId.
        db_bind (addLocation X zoneId locationId \<lparr>nl_ZoneName = nz_Name z, nl_Location = ''@'', nl_Enabled = True\<rparr>) (\<lambda>_.
        db_bind (addResource X EmptyObjectId) (\<lambda>nsId.
        db_bind (addRecordSet X locationId nsId \<lparr>nr_ZoneName = [], nr_Location = [], nr_Type = ''ns'',
                    nr_Value = Some (NS_Set (nz_NS z)), nr_Enabled = True\<rparr>) (\<lambda>_.
        db_bind (setZoneKeys X zoneId (nz_Keys z)) (\<lambda>_.
        logged X zoneId AddZone (V_NewZone z) zoneId))))))))))))"

definition db_GetZones :: "sql_env \<Rightarrow> ObjectId \<Rightarrow> int \<Rightarrow> int \<Rightarrow> string \<Rightarrow> bool \<Rightarrow> db_List db_op" where
  "db_GetZones X userId start n q ascendingOrder = parsed (getZones X userId start n q ascendingOrder)"

definition db_GetZone :: "sql_env \<Rightarrow> ObjectId \<Rightarrow> string \<Rightarrow> database_Zone db_op" where
  "db_GetZone X userId zoneName =
     db_bind (parsed (getZoneId X zoneName)) (\<lambda>zoneId.
     authorized X userId zoneId (parsed (getZone X zoneId)))"

definition db_UpdateZone :: "sql_env \<Rightarrow> ObjectId \<Rightarrow> ZoneUpdate \<Rightarrow> unit db_op" where
  "db_UpdateZone X userId z =
     db_bind (parsed (getZoneId X (zu_Name z))) (\<lambda>zoneId.
     authorized X userId zoneId (parsed (withTransaction X
       (db_bind (updateZone X zoneId z) (\<lambda>_.
        db_bind (setSOA X zoneId (zu_SOA z)) (\<lambda>_.
        logged X zoneId UpdateZone (V_ZoneUpdate z) ()))))))"

text \<open>The event holds the name of the zone as a JSON string.\<close>

definition db_DeleteZone :: "sql_env \<Rightarrow> ObjectId \<Rightarrow> ZoneDelete \<Rightarrow> unit db_op" where
  "db_DeleteZone X userId z =
     db_bind (parsed (getZoneId X (zd_Name z))) (\<lambda>zoneId.
     authorized X userId zoneId (parsed (withTransaction X
       (db_bind (deleteUserZone X userId zoneId) (\<lambda>_.
        db_bind (deleteZone X zoneId) (\<lambda>_.
        logged X zoneId DeleteZone (V_String (zd_Name z)) ()))))))"

section \<open>Locations\<close>

definition db_AddLocation :: "sql_env \<Rightarrow> ObjectId \<Rightarrow> NewLocation \<Rightarrow> ObjectId db_op" where
  "db_AddLocation X userId l =
     db_bind (parsed (getZoneId X (nl_ZoneName l))) (\<lambda>zoneId.
     authorized X userId zoneId (parsed (withTransaction X
       (db_bind (addResource X EmptyObjectId) (\<lambda>locationId.
        db_bind (addLocation X zoneId locationId l) (\<lambda>_.
        logged X zoneId AddLocation (V_NewLocation l) locationId))))))"

definition db_GetLocations ::
  "sql_env \<Rightarrow> ObjectId \<Rightarrow> string \<Rightarrow> int \<Rightarrow> int \<Rightarrow> string \<Rightarrow> bool \<Rightarrow> db_List db_op" where
  "db_GetLocations X userId zoneName start n q ascendingOrder =
     db_bind (parsed (getZoneId X zoneName)) (\<lambda>zoneId.
     authorized X userId zoneId (parsed (getLocations X zoneId start n q ascendingOrder)))"

definition db_GetLocation :: "sql_env \<Rightarrow> ObjectId \<Rightarrow> string \<Rightarrow> string \<Rightarrow> Location db_op" where
  "db_GetLocation X userId zoneName location =
     db_bind (parsed (getLocationId X zoneName location)) (\<lambda>(zoneId, locationId).
     authorized X userId zoneId (parsed (getLocation X locationId)))"

definition db_UpdateLocation :: "sql_env \<Rightarrow> ObjectId \<Rightarrow> LocationUpdate \<Rightarrow> unit db_op" where
  "db_UpdateLocation X userId l =
     db_bind (parsed (getLocationId X (lu_ZoneName l) (lu_Location l))) (\<lambda>(zoneId, locationId).
     authorized X userId zoneId (parsed (withTransaction X
       (db_bind (updateLocation X locationId l) (\<lambda>_.
        logged X zoneId UpdateLocation (V_LocationUpdate l) ())))))"

definition db_DeleteLocation :: "sql_env \<Rightarrow> ObjectId \<Rightarrow> LocationDelete \<Rightarrow> unit db_op" where
  "db_DeleteLocation X userId l =
     db_bind (parsed (getLocationId X (ld_ZoneName l) (ld_Location l))) (\<lambda>(zoneId, locationId).
     authorized X userId zoneId (parsed (withTransaction X
       (db_bind (deleteLocation X locationId) (\<lambda>_.
        logged X zoneId DeleteLocation (V_LocationDelete l) ())))))"

section \<open>Record sets\<close>

definition db_AddRecordSet :: "sql_env \<Rightarrow> ObjectId \<Rightarrow> NewRecordSet \<Rightarrow> ObjectId db_op" where
  "db_AddRecordSet X userId r =
     db_bind (parsed (getLocationId X (nr_ZoneName r) (nr_Location r))) (\<lambda>(zoneId, locationId).
     authorized X userId zoneId (parsed (withTransaction X
       (db_bind (addResource X EmptyObjectId) (\<lambda>recordId.
        db_bind (addRecordSet X locationId recordId r) (\<lambda>_.
        logged X zoneId AddRecord (V_NewRecordSet r) recordId))))))"

definition db_GetRecordSets :: "sql_env \<Rightarrow> ObjectId \<Rightarrow> string \<Rightarrow> string \<Rightarrow> db_List db_op" where
  "db_GetRecordSets X userId zoneName location =
     db_bind (parsed (getLocationId X zoneName location)) (\<lambda>(zoneId, locationId).
     authorized X userId zoneId (parsed (getRecordSets X locationId)))"

definition db_GetRecordSet :: "sql_env \<Rightarrow> ObjectId \<Rightarrow> string \<Rightarrow> string \<Rightarrow> string \<Rightarrow> RecordSet db_op" where
  "db_GetRecordSet X userId zoneName location recordType =
     db_bind (parsed (getRecordId X zoneName location recordType)) (\<lambda>(zoneId, _, recordId).
     authorized X userId zoneId (parsed (getRecordSet X recordId recordType)))"

definition db_UpdateRecordSet :: "sql_env \<Rightarrow> ObjectId \<Rightarrow> RecordSetUpdate \<Rightarrow> unit db_op" where
  "db_UpdateRecordSet X userId r =
     db_bind (parsed (getRecordId X (ru_ZoneName r) (ru_Location r) (ru_Type r))) (\<lambda>(zoneId, _, recordId).
     authorized X userId zoneId (parsed (withTransaction X
       (db_bind (updateRecordSet X recordId r) (\<lambda>_.
        logged X zoneId UpdateRecord (V_RecordSetUpdate r) ())))))"

definition db_DeleteRecordSet :: "sql_env \<Rightarrow> ObjectId \<Rightarrow> RecordSetDelete \<Rightarrow> unit db_op" where
  "db_DeleteRecordSet X userId r =
     db_bind (parsed (getRecordId X (rd_ZoneName r) (rd_Location r) (rd_Type r))) (\<lambda>(zoneId, _, recordId).
     authorized X userId zoneId (parsed (withTransaction X
       (db_bind (parsed (deleteRecordSet X recordId)) (\<lambda>_.
        logged X zoneId DeleteRecord (V_RecordSetDelete r) ())))))"

end
