(* ===== verification/ControlPlaneProps.thy ===== *)
theory ControlPlaneProps
  imports ControlPlane StorageProps
begin

text \<open>
  What the operations of the control plane guarantee: only the owner of a zone changes it, a change is made
  completely and recorded as one event or not made at all, and the tables keep the keys and
  references of the schema.
\<close>

section \<open>Changes\<close>

text \<open>The operations on zones that are recorded as events.\<close>

datatype change =
    C_ImportZone ZoneImport
  | C_AddZone database_NewZone
  | C_UpdateZone ZoneUpdate
  | C_DeleteZone ZoneDelete
  | C_AddLocation NewLocation
  | C_UpdateLocation LocationUpdate
  | C_DeleteLocation LocationDelete
  | C_AddRecordSet NewRecordSet
  | C_UpdateRecordSet RecordSetUpdate
  | C_DeleteRecordSet RecordSetDelete

definition no_result :: "'a db_op \<Rightarrow> unit db_op" where
  "no_result m = db_bind m (\<lambda>_. db_return ())"

fun perform :: "sql_env \<Rightarrow> ObjectId \<Rightarrow> change \<Rightarrow> unit db_op" where
  "perform X userId (C_ImportZone z) = db_ImportZone X userId z"
| "perform X userId (C_AddZone z) = no_result (db_AddZone X userId z)"
| "perform X userId (C_UpdateZone z) = db_UpdateZone X userId z"
| "perform X userId (C_DeleteZone z) = db_DeleteZone X userId z"
| "perform X userId (C_AddLocation l) = no_result (db_AddLocation X userId l)"
| "perform X userId (C_UpdateLocation l) = db_UpdateLocation X userId l"
| "perform X userId (C_DeleteLocation l) = db_DeleteLocation X userId l"
| "perform X userId (C_AddRecordSet r) = no_result (db_AddRecordSet X userId r)"
| "perform X userId (C_UpdateRecordSet r) = db_UpdateRecordSet X userId r"
| "perform X userId (C_DeleteRecordSet r) = db_DeleteRecordSet X userId r"

fun change_zone :: "change \<Rightarrow> string" where
  "change_zone (C_ImportZone z) = zi_Name z"
| "change_zone (C_AddZone z) = nz_Name z"
| "change_zone (C_UpdateZone z) = zu_Name z"
| "change_zone (C_DeleteZone z) = zd_Name z"
| "change_zone (C_AddLocation l) = nl_ZoneName l"
| "change_zone (C_UpdateLocation l) = lu_ZoneName l"
| "change_zone (C_DeleteLocation l) = ld_ZoneName l"
| "change_zone (C_AddRecordSet r) = nr_ZoneName r"
| "change_zone (C_UpdateRecordSet r) = ru_ZoneName r"
| "change_zone (C_DeleteRecordSet r) = rd_ZoneName r"

fun change_event :: "change \<Rightarrow> string \<times> event_value" where
  "change_event (C_ImportZone z) = (ImportZone, V_ZoneImport z)"
| "change_event (C_AddZone z) = (AddZone, V_NewZone z)"
| "change_event (C_UpdateZone z) = (UpdateZone, V_ZoneUpdate z)"
| "change_event (C_DeleteZone z) = (DeleteZone, V_String (zd_Name z))"
| "change_event (C_AddLocation l) = (AddLocation, V_NewLocation l)"
| "change_event (C_UpdateLocation l) = (UpdateLocation, V_LocationUpdate l)"
| "change_event (C_DeleteLocation l) = (DeleteLocation, V_LocationDelete l)"
| "change_event (C_AddRecordSet r) = (AddRecord, V_NewRecordSet r)"
| "change_event (C_UpdateRecordSet r) = (UpdateRecord, V_RecordSetUpdate r)"
| "change_event (C_DeleteRecordSet r) = (DeleteRecord, V_RecordSetDelete r)"

lemmas change_defs =
  db_ImportZone_def db_AddZone_def db_UpdateZone_def db_DeleteZone_def db_AddLocation_def db_UpdateLocation_def
  db_DeleteLocation_def db_AddRecordSet_def db_UpdateRecordSet_def db_DeleteRecordSet_def

section \<open>Only the owner changes a zone\<close>

definition owner_of :: "sql_env \<Rightarrow> tables \<Rightarrow> ObjectId \<Rightarrow> ObjectId" where
  "owner_of X t zoneId =
     (case filter (\<lambda>r. same X (uz_ZoneId r) zoneId \<and> same X (uz_Role r) UserRoleOwner) (t_UserZone t) of
        [] \<Rightarrow> EmptyObjectId
      | r # _ \<Rightarrow> uz_UserId r)"

definition owns :: "sql_env \<Rightarrow> tables \<Rightarrow> ObjectId \<Rightarrow> string \<Rightarrow> bool" where
  "owns X t userId zoneName \<longleftrightarrow>
     (\<exists>z \<in> set (t_Zone t). same X (zr_Name z) zoneName \<and> owner_of X t (zr_Id z) = userId)"

text \<open>A query that finds nothing and a user who is not the owner end the same way.\<close>

definition refusal :: "sql_env \<Rightarrow> tables \<Rightarrow> db_error \<Rightarrow> bool" where
  "refusal X t e \<longleftrightarrow>
     e \<in> {ErrUnauthorized, ErrNotFound} \<or> (\<exists>stmt e'. x_fails X stmt t = Some e' \<and> e = parseError e')"

definition refused :: "sql_env \<Rightarrow> DataBase \<Rightarrow> (db_error + 'a) \<times> DataBase \<Rightarrow> bool" where
  "refused X s = (\<lambda>(r, s'). s' = s \<and> (\<exists>e. r = Inl e \<and> refusal X (db_tables s) e))"

lemma refusal_intros: "refusal X t ErrUnauthorized" "refusal X t ErrNotFound"
  "x_fails X stmt t = Some e \<Longrightarrow> refusal X t (parseError e)"
  by (auto simp: refusal_def)

lemma refused_no_result: "refused X s (m s) \<Longrightarrow> refused X s (no_result m s)"
  by (cases "m s") (auto simp: refused_def no_result_def db_bind_def)

lemma owner_query:
  "getZoneOwner X zoneId s =
     (case x_fails X [''getZoneOwner'', zoneId] (db_tables s) of
        Some ErrNoRows \<Rightarrow> (Inr EmptyObjectId, s)
      | Some e \<Rightarrow> (Inl e, s)
      | None \<Rightarrow> (Inr (owner_of X (db_tables s) zoneId), s))"
  by (auto simp: getZoneOwner_def query_def owner_of_def first_row_def EmptyObjectId_def
      split: option.splits list.splits db_error.splits)

lemma query_refused:
  assumes "\<And>x. f (db_tables s) = Inr x \<Longrightarrow> refused X s (g x s)" and "f (db_tables s) \<in> range Inr \<union> {Inl ErrNoRows}"
  shows "refused X s (db_bind (parsed (query X stmt f)) g s)"
proof (cases "x_fails X stmt (db_tables s)")
  case None
  then show ?thesis
    using assms by (cases "f (db_tables s)")
      (auto simp: refused_def db_bind_def parsed_def query_def parseError_def refusal_intros)
next
  case (Some e)
  then show ?thesis by (auto simp: refused_def db_bind_def parsed_def query_def refusal_intros)
qed

lemma authorized_refused:
  assumes "owner_of X (db_tables s) zoneId \<noteq> userId" and "userId \<noteq> EmptyObjectId"
  shows "refused X s (authorized X userId zoneId m s)"
  using assms by (auto simp: refused_def authorized_def isAuthorized_def owner_query db_bind_def db_fail_def refusal_intros
      split: option.splits db_error.splits)

lemma owned_refused:
  assumes "owner_of X (db_tables s) zoneId \<noteq> userId" and "userId \<noteq> EmptyObjectId"
  shows "refused X s (owned X userId zoneId m s)"
  using assms by (auto simp: refused_def owned_def parsed_def owner_query db_bind_def db_fail_def refusal_intros
      split: option.splits db_error.splits)

lemma first_row_cases: "first_row xs \<in> range Inr \<union> {Inl ErrNoRows}"
  by (cases xs) (auto simp: first_row_def)

lemma map_sum_cases: "r \<in> range Inr \<union> {Inl e} \<Longrightarrow> map_sum id f r \<in> range Inr \<union> {Inl e}"
  by auto

lemma first_row_mem: "first_row xs = Inr x \<Longrightarrow> x \<in> set xs"
  by (cases xs) (auto simp: first_row_def)

lemma not_owner:
  "\<not> owns X t userId zoneName \<Longrightarrow> z \<in> set (t_Zone t) \<Longrightarrow> same X (zr_Name z) zoneName \<Longrightarrow> owner_of X t (zr_Id z) \<noteq> userId"
  by (auto simp: owns_def)

lemma zone_id_refused:
  assumes "\<not> owns X (db_tables s) userId zoneName"
    and "\<And>zoneId. owner_of X (db_tables s) zoneId \<noteq> userId \<Longrightarrow> refused X s (g zoneId s)"
  shows "refused X s (db_bind (parsed (getZoneId X zoneName)) g s)"
  unfolding getZoneId_def
proof (rule query_refused)
  fix zoneId
  assume "map_sum id zr_Id (first_row (filter (\<lambda>z. same X (zr_Name z) zoneName) (t_Zone (db_tables s)))) = Inr zoneId"
  then obtain z where "first_row (filter (\<lambda>z. same X (zr_Name z) zoneName) (t_Zone (db_tables s))) = Inr z" "zoneId = zr_Id z"
    by (cases "first_row (filter (\<lambda>z. same X (zr_Name z) zoneName) (t_Zone (db_tables s)))") auto
  then show "refused X s (g zoneId s)"
    using first_row_mem not_owner [OF assms(1)] assms(2) by fastforce
qed (intro map_sum_cases first_row_cases)

lemma locations_named_zone:
  assumes "(zi, li) \<in> set (locations_named X zoneName location t)"
  shows "\<exists>z \<in> set (t_Zone t). same X (zr_Name z) zoneName \<and> zi = zr_Id z"
  using assms by (auto simp: locations_named_def)

lemma location_id_refused:
  assumes "\<not> owns X (db_tables s) userId zoneName"
    and "\<And>zoneId locationId. owner_of X (db_tables s) zoneId \<noteq> userId \<Longrightarrow> refused X s (g (zoneId, locationId) s)"
  shows "refused X s (db_bind (parsed (getLocationId X zoneName location)) g s)"
  unfolding getLocationId_def
proof (rule query_refused)
  fix x assume "first_row (locations_named X zoneName location (db_tables s)) = Inr x"
  then have "x \<in> set (locations_named X zoneName location (db_tables s))" by (rule first_row_mem)
  moreover obtain zi li where x: "x = (zi, li)" by (cases x)
  ultimately obtain z where "z \<in> set (t_Zone (db_tables s))" "same X (zr_Name z) zoneName" "zi = zr_Id z"
    using locations_named_zone by blast
  then show "refused X s (g x s)" using not_owner [OF assms(1)] assms(2) x by simp
qed (rule first_row_cases)

lemma record_id_refused:
  assumes "\<not> owns X (db_tables s) userId zoneName"
    and "\<And>zoneId locationId recordId. owner_of X (db_tables s) zoneId \<noteq> userId \<Longrightarrow>
      refused X s (g (zoneId, locationId, recordId) s)"
  shows "refused X s (db_bind (parsed (getRecordId X zoneName location recordType)) g s)"
  unfolding getRecordId_def
proof (rule query_refused)
  let ?rows = "concat (map (\<lambda>(zi, li). map (\<lambda>r. (zi, li, rr_Id r))
         (filter (\<lambda>r. same X (rr_Type r) recordType) (location_records X li (db_tables s))))
       (locations_named X zoneName location (db_tables s)))"
  fix x assume "first_row ?rows = Inr x"
  then have "x \<in> set ?rows" by (rule first_row_mem)
  then obtain zi li ri where x: "x = (zi, li, ri)" "(zi, li) \<in> set (locations_named X zoneName location (db_tables s))"
    by auto
  then obtain z where "z \<in> set (t_Zone (db_tables s))" "same X (zr_Name z) zoneName" "zi = zr_Id z"
    using locations_named_zone by blast
  then show "refused X s (g x s)" using not_owner [OF assms(1)] assms(2) x(1) by simp
qed (rule first_row_cases)

lemmas refused_rules = zone_id_refused location_id_refused record_id_refused authorized_refused owned_refused

lemma perform_refused:
  assumes "\<not> owns X (db_tables s) userId (change_zone c)" and "userId \<noteq> EmptyObjectId"
    and "\<forall>z. c \<noteq> C_AddZone z"
  shows "refused X s (perform X userId c s)"
proof (cases c)
  case (C_AddLocation l)
  then show ?thesis using assms unfolding C_AddLocation perform.simps
    by (intro refused_no_result) (auto simp: db_AddLocation_def intro!: refused_rules)
next
  case (C_AddRecordSet r)
  then show ?thesis using assms unfolding C_AddRecordSet perform.simps
    by (intro refused_no_result) (auto simp: db_AddRecordSet_def intro!: refused_rules)
qed (use assms in \<open>auto simp: change_defs intro!: refused_rules\<close>)

text \<open>
  Only the owner changes a zone.  Any change to a zone that the user does not own, or that does not exist,
  leaves the whole database as it is.  It is refused with \<open>ErrUnauthorized\<close> or \<open>ErrNotFound\<close>, unless the
  server itself reports an error.
\<close>

lemma foreign_change_refused:
  assumes "\<not> owns X (db_tables s) userId (change_zone c)" and "userId \<noteq> EmptyObjectId"
    and "\<forall>z. c \<noteq> C_AddZone z"
  shows "\<exists>e. perform X userId c s = (Inl e, s) \<and>
    (e \<in> {ErrUnauthorized, ErrNotFound} \<or> (\<exists>stmt e'. x_fails X stmt (db_tables s) = Some e' \<and> e = parseError e'))"
  using perform_refused [OF assms] by (cases "perform X userId c s") (auto simp: refused_def refusal_def)

section \<open>A change is recorded or not made\<close>

text \<open>Operations that do not touch the events, the revision and the start of the transaction.\<close>

definition quiet :: "'a db_op \<Rightarrow> bool" where
  "quiet m \<longleftrightarrow> (\<forall>s r s'. m s = (r, s') \<longrightarrow>
     t_Events (db_tables s') = t_Events (db_tables s) \<and> db_saved s' = db_saved s \<and> db_revision s' = db_revision s)"

lemma quiet_return: "quiet (db_return x)"
  by (simp add: quiet_def db_return_def)

lemma quiet_lift: "quiet (db_lift r)"
  by (simp add: quiet_def db_lift_def)

lemma quiet_uuid: "quiet (NewObjectId X)"
  by (simp add: quiet_def NewObjectId_def)

lemma quiet_if: "(b \<Longrightarrow> quiet m) \<Longrightarrow> (\<not> b \<Longrightarrow> quiet n) \<Longrightarrow> quiet (if b then m else n)"
  by simp

lemma quiet_bind:
  assumes "quiet m" and "\<And>x. quiet (f x)"
  shows "quiet (db_bind m f)"
  unfolding quiet_def
proof (intro allI impI)
  fix s r s' assume run: "db_bind m f s = (r, s')"
  obtain q s1 where m: "m s = (q, s1)" by (cases "m s")
  note 1 = assms(1) [unfolded quiet_def, rule_format, OF m]
  show "t_Events (db_tables s') = t_Events (db_tables s) \<and> db_saved s' = db_saved s \<and> db_revision s' = db_revision s"
  proof (cases q)
    case (Inl e)
    then show ?thesis using run m 1 by (simp add: db_bind_def)
  next
    case (Inr x)
    then have "f x s1 = (r, s')" using run m by (simp add: db_bind_def)
    then show ?thesis using assms(2) [unfolded quiet_def, rule_format] 1 by metis
  qed
qed

lemma quiet_exec:
  assumes "\<And>t t'. f t = Inr t' \<Longrightarrow> t_Events t' = t_Events t"
  shows "quiet (Exec X stmt f)"
  using assms by (auto simp: quiet_def Exec_def split: option.splits sum.splits)

lemma quiet_parsed: "quiet m \<Longrightarrow> quiet (parsed m)"
  unfolding quiet_def parsed_def by (auto split: prod.splits sum.splits)

lemma quiet_each: "(\<And>x. quiet (f x)) \<Longrightarrow> quiet (db_each f xs)"
  by (induction xs) (auto intro: quiet_return quiet_bind)

lemma constrained_Inr: "constrained a b t = Inr t' \<longleftrightarrow> \<not> a \<and> b \<and> t' = t"
  by (auto simp: constrained_def)

lemma delete_where_events: "delete_where X ids t = Inr t' \<Longrightarrow> t_Events t' = t_Events t"
  by (auto simp: delete_where_def Let_def split: if_splits)

lemmas quiet_rules = quiet_return quiet_lift quiet_uuid quiet_if quiet_bind quiet_parsed quiet_each

lemmas statement_defs =
  setSOA_def addResource_def addZone_def addUserZone_def deleteUserZone_def updateZone_def deleteZone_def
  addLocation_def updateLocation_def deleteLocation_def deleteZoneData_def updateSerial_def addRecordSet_def
  updateRecordSet_def deleteRecordSet_def setZoneKeys_def import_record_def import_location_def

lemma statements_quiet:
  "quiet (setSOA X zi soa)" "quiet (addResource X i)" "quiet (addZone X zi z)" "quiet (addUserZone X u zi)"
  "quiet (deleteUserZone X u zi)" "quiet (updateZone X zi zu)" "quiet (deleteZone X zi)" "quiet (addLocation X zi li l)"
  "quiet (updateLocation X li lu)" "quiet (deleteLocation X li)" "quiet (deleteZoneData X zi)" "quiet (updateSerial X zi)"
  "quiet (addRecordSet X li ri r)" "quiet (updateRecordSet X ri ru)" "quiet (deleteRecordSet X ri)" "quiet (setZoneKeys X zi k)"
  unfolding statement_defs Let_def
  by (auto intro!: quiet_rules quiet_exec simp: constrained_Inr delete_where_events)

lemma import_quiet: "quiet (import_record X n li e)" "quiet (import_location X n zi l)"
  unfolding import_record_def import_location_def
  by (auto intro!: quiet_rules statements_quiet simp: import_record_def split: prod.split)

text \<open>The events after an operation that records one.\<close>

definition event_added :: "sql_env \<Rightarrow> ObjectId \<Rightarrow> string \<times> event_value \<Rightarrow> DataBase \<Rightarrow> DataBase \<Rightarrow> bool" where
  "event_added X zoneId ev s s' \<longleftrightarrow>
     (\<exists>j. x_Marshal X (snd ev) = Inr j \<and> db_revision s' = db_revision s + 1 \<and>
        t_Events (db_tables s') = t_Events (db_tables s) @
          [\<lparr>ev_Revision = db_revision s, ev_ZoneId = zoneId, ev_Type = fst ev, ev_Value = x_column X j\<rparr>])"

definition records :: "sql_env \<Rightarrow> ObjectId set \<Rightarrow> string \<times> event_value \<Rightarrow> 'a db_op \<Rightarrow> bool" where
  "records X zs ev m \<longleftrightarrow> (\<forall>s r s'. m s = (r, s') \<longrightarrow> db_saved s' = db_saved s \<and>
     db_revision s \<le> db_revision s' \<and> (\<forall>x. r = Inr x \<longrightarrow> (\<exists>zoneId \<in> zs. event_added X zoneId ev s s')))"

lemma records_bind:
  assumes "quiet m" and "\<And>x. records X zs ev (f x)"
  shows "records X zs ev (db_bind m f)"
  unfolding records_def
proof (intro allI impI)
  fix s r s' assume run: "db_bind m f s = (r, s')"
  obtain q s1 where m: "m s = (q, s1)" by (cases "m s")
  note 1 = assms(1) [unfolded quiet_def, rule_format, OF m]
  show "db_saved s' = db_saved s \<and> db_revision s \<le> db_revision s' \<and> (\<forall>x. r = Inr x \<longrightarrow> (\<exists>zoneId \<in> zs. event_added X zoneId ev s s'))"
  proof (cases q)
    case (Inl e)
    then show ?thesis using run m 1 by (auto simp: db_bind_def)
  next
    case (Inr x)
    then have "f x s1 = (r, s')" using run m by (simp add: db_bind_def)
    then show ?thesis using assms(2) [unfolded records_def, rule_format, of x s1 r s'] 1
      by (simp add: event_added_def)
  qed
qed

lemma records_logged: "zoneId \<in> zs \<Longrightarrow> records X zs (ty, v) (logged X zoneId ty v x)"
  by (cases "x_Marshal X v") (auto simp: records_def logged_def addEvent_def db_bind_def db_lift_def Exec_def db_return_def
      event_added_def Let_def split: sum.splits option.splits prod.splits)

lemmas records_rules = records_bind records_logged statements_quiet quiet_each import_quiet quiet_parsed

text \<open>
  How a change can end: an error leaves the tables alone, unless a commit failed although it was
  applied; a success adds the event.
\<close>

definition commits_cleanly :: "sql_env \<Rightarrow> bool" where
  "commits_cleanly X \<longleftrightarrow> (\<forall>t e. x_commit X t \<noteq> Some (e, True))"

definition settled ::
  "sql_env \<Rightarrow> ObjectId set \<Rightarrow> string \<times> event_value \<Rightarrow> DataBase \<Rightarrow> (db_error + 'a) \<times> DataBase \<Rightarrow> bool" where
  "settled X zs ev s = (\<lambda>(r, s'). db_revision s \<le> db_revision s' \<and>
     (case r of
        Inl _ \<Rightarrow> commits_cleanly X \<longrightarrow> db_tables s' = db_tables s
      | Inr _ \<Rightarrow> \<exists>zoneId \<in> zs. event_added X zoneId ev s s'))"

lemma settled_transaction:
  assumes "records X zs ev m"
  shows "settled X zs ev s (withTransaction X m s)"
proof (cases "x_fails X [''BEGIN''] (db_tables s)")
  case None
  obtain r s1 where m: "m (s\<lparr>db_saved := db_tables s\<rparr>) = (r, s1)" by (cases "m (s\<lparr>db_saved := db_tables s\<rparr>)")
  from assms(1) [unfolded records_def, rule_format, OF m] None m show ?thesis
    by (cases r) (auto simp: settled_def withTransaction_def event_added_def commits_cleanly_def split: option.splits)
qed (simp add: settled_def withTransaction_def)

lemma settled_parsed: "settled X zs ev s (m s) \<Longrightarrow> settled X zs ev s (parsed m s)"
  by (auto simp: settled_def parsed_def split: prod.splits sum.splits)

lemma settled_no_result: "settled X zs ev s (m s) \<Longrightarrow> settled X zs ev s (no_result m s)"
  by (auto simp: settled_def no_result_def db_bind_def db_return_def split: prod.splits sum.splits)

lemma settled_fail: "settled X zs ev s (db_fail e s)"
  by (simp add: settled_def db_fail_def)

lemma settled_authorized: "settled X zs ev s (m s) \<Longrightarrow> settled X zs ev s (authorized X userId zoneId m s)"
  by (auto simp: authorized_def isAuthorized_def owner_query db_bind_def settled_fail
      split: option.splits db_error.splits)

lemma settled_owned: "settled X zs ev s (m s) \<Longrightarrow> settled X zs ev s (owned X userId zoneId m s)"
  by (auto simp: owned_def owner_query db_bind_def parsed_def settled_fail settled_def db_fail_def
      split: option.splits db_error.splits)

text \<open>The ids of the zones of a name.\<close>

definition zone_ids :: "sql_env \<Rightarrow> tables \<Rightarrow> string \<Rightarrow> ObjectId set" where
  "zone_ids X t n = zr_Id ` {z \<in> set (t_Zone t). same X (zr_Name z) n}"

lemma settled_query:
  assumes "\<And>x. f (db_tables s) = Inr x \<Longrightarrow> settled X zs ev s (g x s)"
  shows "settled X zs ev s (db_bind (parsed (query X stmt f)) g s)"
  using assms by (cases "f (db_tables s)")
    (auto simp: settled_def db_bind_def parsed_def query_def split: option.splits)

lemma settled_zone_id:
  assumes "\<And>zoneId. zoneId \<in> zone_ids X (db_tables s) n \<Longrightarrow> settled X zs ev s (g zoneId s)"
  shows "settled X zs ev s (db_bind (parsed (getZoneId X n)) g s)"
  unfolding getZoneId_def
proof (rule settled_query)
  let ?rows = "filter (\<lambda>z. same X (zr_Name z) n) (t_Zone (db_tables s))"
  fix x assume "map_sum id zr_Id (first_row ?rows) = Inr x"
  then obtain z where "first_row ?rows = Inr z" "x = zr_Id z" by (cases "first_row ?rows") auto
  then show "settled X zs ev s (g x s)"
    using first_row_mem [of ?rows z] assms by (auto simp: zone_ids_def)
qed

lemma settled_location_id:
  assumes "\<And>zoneId li. zoneId \<in> zone_ids X (db_tables s) n \<Longrightarrow> settled X zs ev s (g (zoneId, li) s)"
  shows "settled X zs ev s (db_bind (parsed (getLocationId X n l)) g s)"
  unfolding getLocationId_def
proof (rule settled_query)
  fix x assume "first_row (locations_named X n l (db_tables s)) = Inr x"
  then have "x \<in> set (locations_named X n l (db_tables s))" by (rule first_row_mem)
  moreover obtain zi li where x: "x = (zi, li)" by (cases x)
  ultimately have "zi \<in> zone_ids X (db_tables s) n" using locations_named_zone by (fastforce simp: zone_ids_def)
  then show "settled X zs ev s (g x s)" unfolding x by (rule assms)
qed

lemma settled_record_id:
  assumes "\<And>zoneId li ri. zoneId \<in> zone_ids X (db_tables s) n \<Longrightarrow> settled X zs ev s (g (zoneId, li, ri) s)"
  shows "settled X zs ev s (db_bind (parsed (getRecordId X n l ty)) g s)"
  unfolding getRecordId_def
proof (rule settled_query)
  let ?rows = "concat (map (\<lambda>(zi, li). map (\<lambda>r. (zi, li, rr_Id r))
         (filter (\<lambda>r. same X (rr_Type r) ty) (location_records X li (db_tables s)))) (locations_named X n l (db_tables s)))"
  fix x assume "first_row ?rows = Inr x"
  then have "x \<in> set ?rows" by (rule first_row_mem)
  then obtain zi li ri where x: "x = (zi, li, ri)" and "(zi, li) \<in> set (locations_named X n l (db_tables s))" by auto
  then have "zi \<in> zone_ids X (db_tables s) n" using locations_named_zone by (fastforce simp: zone_ids_def)
  then show "settled X zs ev s (g x s)" unfolding x by (rule assms)
qed

lemmas settled_rules = settled_zone_id settled_location_id settled_record_id settled_authorized settled_owned
  settled_parsed settled_no_result settled_transaction settled_fail

definition event_zones :: "sql_env \<Rightarrow> tables \<Rightarrow> change \<Rightarrow> ObjectId set" where
  "event_zones X t c = (case c of C_AddZone _ \<Rightarrow> UNIV | _ \<Rightarrow> zone_ids X t (change_zone c))"

lemma perform_settled: "settled X (event_zones X (db_tables s) c) (change_event c) s (perform X userId c s)"
proof (cases c)
  case (C_AddZone z)
  then show ?thesis
    by (auto simp: db_AddZone_def zoneExists_def event_zones_def
        intro!: settled_rules settled_query records_rules)
qed (auto simp: change_defs event_zones_def intro!: settled_rules records_rules)

text \<open>
  C6: a change is made and recorded, or not made.  When a change succeeds, exactly one event is added
  to the log: it has the next revision, the id of a zone of the name, the type of the change and the
  change itself.  When it fails, the tables are as before, provided that a commit that fails
  has not been applied.
\<close>

theorem change_recorded:
  assumes "commits_cleanly X" and "perform X userId c s = (r, s')"
  shows "(case r of
      Inl _ \<Rightarrow> db_tables s' = db_tables s
    | Inr _ \<Rightarrow> \<exists>zoneId \<in> event_zones X (db_tables s) c. \<exists>j.
        x_Marshal X (snd (change_event c)) = Inr j \<and> db_revision s' = db_revision s + 1 \<and>
        t_Events (db_tables s') = t_Events (db_tables s) @
          [\<lparr>ev_Revision = db_revision s, ev_ZoneId = zoneId, ev_Type = fst (change_event c), ev_Value = x_column X j\<rparr>])"
  using perform_settled [of X s c userId] assms
  by (auto simp: settled_def event_added_def split: sum.splits)

section \<open>A database\<close>

text \<open>A server that compares strings exactly and never fails, and a database with a zone of the user \<open>u\<close>.\<close>

definition toy_sql :: sql_env where
  "toy_sql = \<lparr>x_key = id, x_like = (\<lambda>_ _. True), x_order = (\<lambda>_ rows. [0..<length rows]), x_column = id,
     x_fails = (\<lambda>_ _. None), x_commit = (\<lambda>_. None), x_uuid = (\<lambda>n. ''id'' @ replicate n (CHR ''i'')),
     x_Marshal = (\<lambda>_. Inr ''{v}''), x_json = toy_json, x_Unmarshal = (\<lambda>_ r. Inr r), x_tables = std_tables,
     x_hash = (\<lambda>p. Inr (''hash of '' @ p)), x_compare = (\<lambda>h p. h = ''hash of '' @ p)\<rparr>"

definition toy_tables :: tables where
  "toy_tables =
     \<lparr>t_User = [\<lparr>u_Id = ''u'', u_Email = ''u@z'', u_Password = ''hash of p'', u_Status = UserStatusActive\<rparr>],
      t_Resource = [''1'', ''2'', ''3''],
      t_Zone = [\<lparr>zr_Id = ''1'', zr_Name = ''z.'', zr_CNameFlattening = False, zr_Dnssec = False, zr_Enabled = True\<rparr>],
      t_Location = [\<lparr>lr_Id = ''2'', lr_Name = ''a'', lr_Enabled = True, lr_ZoneId = ''1''\<rparr>],
      t_RecordSet = [\<lparr>rr_Id = ''3'', rr_LocationId = ''2'', rr_Type = ''txt'', rr_Value = ''{t}'', rr_Enabled = True\<rparr>],
      t_Verification = [], t_Events = [], t_SOA = [], t_Keys = [], t_APIKeys = [],
      t_UserZone = [\<lparr>uz_UserId = ''u'', uz_ZoneId = ''1'', uz_Role = UserRoleOwner\<rparr>]\<rparr>"

definition toy_db :: DataBase where
  "toy_db = \<lparr>db_tables = toy_tables, db_saved = toy_tables, db_revision = 1, db_uuids = 0\<rparr>"

definition toy_update :: RecordSetUpdate where
  "toy_update = \<lparr>ru_ZoneName = ''z.'', ru_Location = ''a'', ru_Type = ''txt'', ru_Value = Some toy_txt, ru_Enabled = True\<rparr>"

lemma toy_sql_sel [simp]:
  "x_key toy_sql = id" "x_column toy_sql = id" "x_fails toy_sql = (\<lambda>_ _. None)" "x_commit toy_sql = (\<lambda>_. None)"
  "x_Marshal toy_sql = (\<lambda>_. Inr ''{v}'')" "x_json toy_sql = toy_json"
  by (simp_all add: toy_sql_def)

lemma toy_db_sel [simp]: "db_tables toy_db = toy_tables" "db_revision toy_db = 1" "db_saved toy_db = toy_tables"
  by (simp_all add: toy_db_def)

lemma toy_update_performs:
  "\<exists>s'. perform toy_sql ''u'' (C_UpdateRecordSet toy_update) toy_db = (Inr (), s')"
proof -
  have "getRecordId toy_sql ''z.'' ''a'' ''txt'' toy_db = (Inr (''1'', ''2'', ''3''), toy_db)"
    by (simp add: getRecordId_def query_def first_row_def locations_named_def zone_locations_def location_records_def
        toy_tables_def)
  moreover have "isAuthorized toy_sql ''u'' ''1'' toy_db = (Inr True, toy_db)"
    by (simp add: isAuthorized_def owner_query owner_of_def toy_tables_def)
  ultimately show ?thesis
    by (simp add: db_UpdateRecordSet_def db_bind_def parsed_def authorized_def withTransaction_def toy_update_def
        updateRecordSet_def logged_def addEvent_def Exec_def db_lift_def db_return_def toy_json_def Let_def)
qed

theorem change_recorded_witness:
  "\<exists>s'. perform toy_sql ''u'' (C_UpdateRecordSet toy_update) toy_db = (Inr (), s') \<and>
     map (\<lambda>e. (ev_Revision e, ev_ZoneId e, ev_Type e)) (t_Events (db_tables s')) = [(1, ''1'', UpdateRecord)]"
proof -
  obtain s' where s': "perform toy_sql ''u'' (C_UpdateRecordSet toy_update) toy_db = (Inr (), s')"
    using toy_update_performs by blast
  have "commits_cleanly toy_sql" by (simp add: commits_cleanly_def)
  from change_recorded [OF this s'] s' show ?thesis
    by (auto simp: event_zones_def zone_ids_def toy_update_def toy_tables_def)
qed

end
