(* ===== verification/DatabaseIntegrity.thy ===== *)
theory DatabaseIntegrity
  imports ControlPlaneProps
begin

text \<open>
  The schema of the database as an invariant: unique and foreign keys hold after every operation
  of the control plane, whatever errors the server reports.
\<close>

section \<open>Keys and references\<close>

definition unique :: "('a \<Rightarrow> 'k) \<Rightarrow> 'a list \<Rightarrow> bool" where
  "unique f xs \<longleftrightarrow> distinct (map f xs)"

definition refers :: "('a \<Rightarrow> 'k) \<Rightarrow> 'a list \<Rightarrow> ('b \<Rightarrow> 'k) \<Rightarrow> 'b list \<Rightarrow> bool" where
  "refers f xs g ys \<longleftrightarrow> f ` set xs \<subseteq> g ` set ys"

lemma unique_empty [simp]: "unique f []"
  by (simp add: unique_def)

lemma unique_append [simp]: "unique f (xs @ [x]) \<longleftrightarrow> unique f xs \<and> f x \<notin> f ` set xs"
  by (auto simp: unique_def)

lemma unique_filter: "unique f xs \<Longrightarrow> unique f (filter P xs)"
  by (simp add: unique_def distinct_map_filter)

lemma unique_map: "(\<And>x. x \<in> set xs \<Longrightarrow> f (h x) = f x) \<Longrightarrow> unique f xs \<Longrightarrow> unique f (map h xs)"
  by (simp add: unique_def comp_def cong: map_cong)

lemma unique_update:
  assumes "unique g xs" and "unique f xs"
    and "\<And>x y. x \<in> set xs \<Longrightarrow> y \<in> set xs \<Longrightarrow> g x = i \<Longrightarrow> g y \<noteq> i \<Longrightarrow> f (h x) \<noteq> f y"
  shows "unique f (map (\<lambda>x. if g x = i then h x else x) xs)"
  using assms
proof (induction xs)
  case (Cons x xs)
  let ?h = "\<lambda>x. if g x = i then h x else x"
  from Cons have IH: "unique f (map ?h xs)" by (auto simp: unique_def)
  have "f (?h x) \<noteq> f (?h y)" if y: "y \<in> set xs" for y
  proof -
    have "g x \<noteq> g y" "f x \<noteq> f y" using Cons.prems(1,2) y by (auto simp: unique_def)
    then show ?thesis using Cons.prems(3) [of x y] Cons.prems(3) [of y x] y by auto
  qed
  then have "f (?h x) \<notin> set (map f (map ?h xs))" unfolding set_map by blast
  then show ?case using IH unfolding unique_def list.map distinct.simps by blast
qed simp

lemma refers_empty [simp]: "refers f [] g ys"
  by (simp add: refers_def)

lemma refers_append_left [simp]: "refers f (xs @ [x]) g ys \<longleftrightarrow> refers f xs g ys \<and> f x \<in> g ` set ys"
  by (auto simp: refers_def)

lemma refers_append_right: "refers f xs g ys \<Longrightarrow> refers f xs g (ys @ [y])"
  by (auto simp: refers_def)

lemma refers_filter_left: "refers f xs g ys \<Longrightarrow> refers f (filter P xs) g ys"
  by (auto simp: refers_def)

lemma refers_filter:
  assumes "refers f xs g ys"
    and "\<And>x y. x \<in> set xs \<Longrightarrow> y \<in> set ys \<Longrightarrow> P x \<Longrightarrow> g y = f x \<Longrightarrow> Q y"
  shows "refers f (filter P xs) g (filter Q ys)"
  unfolding refers_def
proof
  fix k assume "k \<in> f ` set (filter P xs)"
  then obtain x where x: "x \<in> set xs" "P x" "k = f x" by auto
  then obtain y where "y \<in> set ys" "g y = f x" using assms(1) by (auto simp: refers_def)
  with x assms(2) show "k \<in> g ` set (filter Q ys)" by force
qed

lemma refers_filter_right:
  assumes "refers f xs g ys" and "\<And>x y. x \<in> set xs \<Longrightarrow> y \<in> set ys \<Longrightarrow> g y = f x \<Longrightarrow> Q y"
  shows "refers f xs g (filter Q ys)"
  using refers_filter [of f xs g ys "\<lambda>_. True" Q] assms by simp

lemma refers_map_left: "(\<And>x. x \<in> set xs \<Longrightarrow> f (h x) = f x) \<Longrightarrow> refers f xs g ys \<Longrightarrow> refers f (map h xs) g ys"
  by (auto simp: refers_def)

lemma refers_map_right: "(\<And>y. y \<in> set ys \<Longrightarrow> g (h y) = g y) \<Longrightarrow> refers f xs g ys \<Longrightarrow> refers f xs g (map h ys)"
  unfolding refers_def set_map image_image by (metis (no_types, lifting) image_cong)

lemmas key_rules = unique_filter unique_map refers_append_right refers_filter_left refers_map_left refers_map_right

section \<open>The schema\<close>

definition keys_ok :: "sql_env \<Rightarrow> tables \<Rightarrow> bool" where
  "keys_ok X t \<longleftrightarrow> (let K = x_key X in
     unique (\<lambda>u. K (u_Id u)) (t_User t) \<and> unique (\<lambda>u. K (u_Email u)) (t_User t) \<and>
     unique K (t_Resource t) \<and>
     unique (\<lambda>z. K (zr_Id z)) (t_Zone t) \<and> unique (\<lambda>z. K (zr_Name z)) (t_Zone t) \<and>
     unique (\<lambda>l. K (lr_Id l)) (t_Location t) \<and> unique (\<lambda>l. (K (lr_ZoneId l), K (lr_Name l))) (t_Location t) \<and>
     unique (\<lambda>r. K (rr_Id r)) (t_RecordSet t) \<and> unique (\<lambda>r. (K (rr_Type r), K (rr_LocationId r))) (t_RecordSet t) \<and>
     unique (\<lambda>v. K (vr_Code v)) (t_Verification t) \<and> unique (\<lambda>v. (K (vr_UserId v), K (vr_Type v))) (t_Verification t) \<and>
     unique (\<lambda>r. K (sr_ZoneId r)) (t_SOA t) \<and> unique (\<lambda>r. K (kr_ZoneId r)) (t_Keys t) \<and>
     unique (\<lambda>k. (K (ak_Name k), K (ak_UserId k))) (t_APIKeys t) \<and>
     unique (\<lambda>r. (K (uz_UserId r), K (uz_ZoneId r))) (t_UserZone t))"

definition refs_ok :: "sql_env \<Rightarrow> tables \<Rightarrow> bool" where
  "refs_ok X t \<longleftrightarrow> (let K = x_key X; users = (\<lambda>u. K (u_Id u)); zones = (\<lambda>z. K (zr_Id z)); locations = (\<lambda>l. K (lr_Id l)) in
     refers zones (t_Zone t) K (t_Resource t) \<and>
     refers locations (t_Location t) K (t_Resource t) \<and>
     refers (\<lambda>l. K (lr_ZoneId l)) (t_Location t) zones (t_Zone t) \<and>
     refers (\<lambda>r. K (rr_Id r)) (t_RecordSet t) K (t_Resource t) \<and>
     refers (\<lambda>r. K (rr_LocationId r)) (t_RecordSet t) locations (t_Location t) \<and>
     refers (\<lambda>v. K (vr_UserId v)) (t_Verification t) users (t_User t) \<and>
     refers (\<lambda>r. K (sr_ZoneId r)) (t_SOA t) zones (t_Zone t) \<and>
     refers (\<lambda>r. K (kr_ZoneId r)) (t_Keys t) zones (t_Zone t) \<and>
     refers (\<lambda>k. K (ak_UserId k)) (t_APIKeys t) users (t_User t) \<and>
     refers (\<lambda>k. K (ak_ZoneId k)) (t_APIKeys t) zones (t_Zone t) \<and>
     refers (\<lambda>r. K (uz_UserId r)) (t_UserZone t) users (t_User t) \<and>
     refers (\<lambda>r. K (uz_ZoneId r)) (t_UserZone t) zones (t_Zone t))"

text \<open>The revisions of the log increase, and the counter is ahead of them.\<close>

definition log_ok :: "Event list \<Rightarrow> int \<Rightarrow> bool" where
  "log_ok es counter \<longleftrightarrow> sorted_wrt (<) (map ev_Revision es) \<and> (\<forall>e \<in> set es. ev_Revision e < counter)"

definition schema_ok :: "sql_env \<Rightarrow> tables \<Rightarrow> int \<Rightarrow> bool" where
  "schema_ok X t counter \<longleftrightarrow> keys_ok X t \<and> refs_ok X t \<and> log_ok (t_Events t) counter"

section \<open>Operations that keep the schema\<close>

definition keeps :: "(tables \<Rightarrow> int \<Rightarrow> bool) \<Rightarrow> 'a db_op \<Rightarrow> bool" where
  "keeps I m \<longleftrightarrow> (\<forall>s r s'. m s = (r, s') \<longrightarrow> I (db_tables s) (db_revision s) \<and> I (db_saved s) (db_revision s) \<longrightarrow>
     I (db_tables s') (db_revision s') \<and> I (db_saved s') (db_revision s'))"

lemma keeps_return: "keeps I (db_return x)"
  by (simp add: keeps_def db_return_def)

lemma keeps_fail: "keeps I (db_fail e)"
  by (simp add: keeps_def db_fail_def)

lemma keeps_lift: "keeps I (db_lift r)"
  by (simp add: keeps_def db_lift_def)

lemma keeps_uuid: "keeps I (NewObjectId X)"
  by (simp add: keeps_def NewObjectId_def)

lemma keeps_if: "(b \<Longrightarrow> keeps I m) \<Longrightarrow> (\<not> b \<Longrightarrow> keeps I n) \<Longrightarrow> keeps I (if b then m else n)"
  by simp

lemma keeps_bind:
  assumes "keeps I m" and "\<And>x. keeps I (f x)"
  shows "keeps I (db_bind m f)"
  unfolding keeps_def
proof (intro allI impI)
  fix s r s' assume run: "db_bind m f s = (r, s')" and s: "I (db_tables s) (db_revision s) \<and> I (db_saved s) (db_revision s)"
  obtain q s1 where m: "m s = (q, s1)" by (cases "m s")
  note 1 = assms(1) [unfolded keeps_def, rule_format, OF m s]
  show "I (db_tables s') (db_revision s') \<and> I (db_saved s') (db_revision s')"
  proof (cases q)
    case (Inl e)
    then show ?thesis using run m 1 by (simp add: db_bind_def)
  next
    case (Inr x)
    then have "f x s1 = (r, s')" using run m by (simp add: db_bind_def)
    then show ?thesis using assms(2) [unfolded keeps_def, rule_format] 1 by blast
  qed
qed

lemma keeps_query: "keeps I (query X stmt f)"
  by (auto simp: keeps_def query_def split: option.splits)

lemma keeps_exec:
  assumes "\<And>t counter t'. I t counter \<Longrightarrow> f t = Inr t' \<Longrightarrow> I t' counter"
  shows "keeps I (Exec X stmt f)"
  using assms by (auto simp: keeps_def Exec_def split: option.splits sum.splits)

lemma keeps_parsed: "keeps I m \<Longrightarrow> keeps I (parsed m)"
  unfolding keeps_def parsed_def by (auto split: prod.splits sum.splits)

lemma keeps_each: "(\<And>x. keeps I (f x)) \<Longrightarrow> keeps I (db_each f xs)"
  by (induction xs) (auto intro: keeps_return keeps_bind)

lemma keeps_transaction: "keeps I m \<Longrightarrow> keeps I (withTransaction X m)"
  unfolding keeps_def withTransaction_def
  by (fastforce split: option.splits sum.splits prod.splits if_splits)

lemma keeps_authorized: "keeps I m \<Longrightarrow> keeps I (authorized X u z m)"
  unfolding authorized_def isAuthorized_def owner_query [abs_def]
  by (intro keeps_bind keeps_if keeps_fail) (auto simp: keeps_def split: option.splits db_error.splits)

lemma keeps_owned: "keeps I m \<Longrightarrow> keeps I (owned X u z m)"
  unfolding owned_def owner_query [abs_def]
  by (intro keeps_bind keeps_if keeps_fail keeps_parsed) (auto simp: keeps_def split: option.splits db_error.splits)

lemmas keeps_rules = keeps_return keeps_fail keeps_lift keeps_uuid keeps_if keeps_bind keeps_query keeps_parsed keeps_each
  keeps_transaction keeps_authorized keeps_owned


lemmas schema_defs = schema_ok_def keys_ok_def refs_ok_def Let_def

lemma has_images:
  "has_user X t i \<longleftrightarrow> x_key X i \<in> (\<lambda>u. x_key X (u_Id u)) ` set (t_User t)"
  "has_resource X t i \<longleftrightarrow> x_key X i \<in> x_key X ` set (t_Resource t)"
  "has_zone X t i \<longleftrightarrow> x_key X i \<in> (\<lambda>z. x_key X (zr_Id z)) ` set (t_Zone t)"
  "has_location X t i \<longleftrightarrow> x_key X i \<in> (\<lambda>l. x_key X (lr_Id l)) ` set (t_Location t)"
  unfolding has_user_def has_resource_def has_zone_def has_location_def by (auto intro: rev_image_eqI [OF _ sym])

text \<open>Inserting a row whose keys are new and whose references exist.\<close>

lemma inserts_keep_schema:
  "keeps (schema_ok X) (addUser X u nu)" "keeps (schema_ok X) (addZone X zi z)"
  "keeps (schema_ok X) (addUserZone X u zi)" "keeps (schema_ok X) (addLocation X zi li l)"
  "keeps (schema_ok X) (setZoneKeys X zi k)" "keeps (schema_ok X) (addAPIKey X u zi item hash)"
  unfolding addUser_def addZone_def addUserZone_def addLocation_def setZoneKeys_def addAPIKey_def
  by (rule keeps_exec, auto simp: schema_defs constrained_Inr has_images intro!: key_rules)+

lemma addResource_keeps_schema: "keeps (schema_ok X) (addResource X i)"
  unfolding addResource_def
  by (intro keeps_rules keeps_exec) (auto simp: schema_defs constrained_Inr has_images intro!: key_rules)

lemma addRecordSet_keeps_schema: "keeps (schema_ok X) (addRecordSet X li ri r)"
  unfolding addRecordSet_def
  by (intro keeps_rules keeps_exec) (auto simp: schema_defs constrained_Inr has_images intro!: key_rules)

text \<open>\<open>REPLACE\<close> removes what the new row collides with.\<close>

lemma replaces_keep_schema:
  "keeps (schema_ok X) (setSOA X zi soa)" "keeps (schema_ok X) (setVerification X u v)"
  unfolding setSOA_def setVerification_def
  by (rule keeps_exec, auto simp: schema_defs constrained_Inr has_images intro!: key_rules)+

lemma updates_keep_schema:
  "keeps (schema_ok X) (setUserStatus X u st)" "keeps (schema_ok X) (setUserPassword X u p)"
  "keeps (schema_ok X) (updateAPIKey X u m)"
  unfolding setUserStatus_def setUserPassword_def updateAPIKey_def
  by (rule keeps_exec, auto simp: schema_defs intro!: key_rules)+

lemma updateRecordSet_keeps_schema: "keeps (schema_ok X) (updateRecordSet X ri r)"
  unfolding updateRecordSet_def
  by (intro keeps_rules keeps_exec) (auto simp: schema_defs intro!: key_rules)


lemma updateZone_keeps_schema: "keeps (schema_ok X) (updateZone X zi z)"
  unfolding updateZone_def
proof (rule keeps_exec)
  fix t t' :: tables and counter :: int
  let ?K = "x_key X" and ?h = "\<lambda>r. if same X (zr_Id r) zi
      then r\<lparr>zr_Name := zu_Name z, zr_Dnssec := zu_Dnssec z, zr_CNameFlattening := zu_CNameFlattening z,
             zr_Enabled := zu_Enabled z\<rparr> else r"
  assume ok: "schema_ok X t counter" and run: "constrained (has_zone X t zi \<and>
         (\<exists>r \<in> set (t_Zone t). \<not> same X (zr_Id r) zi \<and> same X (zr_Name r) (zu_Name z))) True
       (t\<lparr>t_Zone := map ?h (t_Zone t)\<rparr>) = Inr t'"
  have "unique (\<lambda>r. ?K (zr_Name r)) (map ?h (t_Zone t))"
  proof (rule unique_update)
    show "unique (\<lambda>r. ?K (zr_Id r)) (t_Zone t)" "unique (\<lambda>r. ?K (zr_Name r)) (t_Zone t)"
      using ok by (simp_all add: schema_defs)
    fix x y assume "x \<in> set (t_Zone t)" "y \<in> set (t_Zone t)" "same X (zr_Id x) zi" "\<not> same X (zr_Id y) zi"
    then show "?K (zr_Name (x\<lparr>zr_Name := zu_Name z, zr_Dnssec := zu_Dnssec z, zr_CNameFlattening := zu_CNameFlattening z,
             zr_Enabled := zu_Enabled z\<rparr>)) \<noteq> ?K (zr_Name y)"
      using run by (auto simp: constrained_Inr has_zone_def)
  qed
  then show "schema_ok X t' counter" using ok run
    by (auto simp: schema_defs constrained_Inr intro!: key_rules)
qed

lemma updateLocation_keeps_schema: "keeps (schema_ok X) (updateLocation X li l)"
  unfolding updateLocation_def
proof (rule keeps_exec)
  fix t t' :: tables and counter :: int
  let ?K = "x_key X" and ?h = "\<lambda>r. if same X (lr_Id r) li
      then r\<lparr>lr_Name := lu_Location l, lr_Enabled := lu_Enabled l\<rparr> else r"
  assume ok: "schema_ok X t counter" and run: "constrained (\<exists>r \<in> set (t_Location t). \<exists>r' \<in> set (t_Location t).
           same X (lr_Id r) li \<and> \<not> same X (lr_Id r') li \<and>
           same X (lr_ZoneId r') (lr_ZoneId r) \<and> same X (lr_Name r') (lu_Location l)) True
       (t\<lparr>t_Location := map ?h (t_Location t)\<rparr>) = Inr t'"
  have "unique (\<lambda>r. (?K (lr_ZoneId r), ?K (lr_Name r))) (map ?h (t_Location t))"
  proof (rule unique_update)
    show "unique (\<lambda>r. ?K (lr_Id r)) (t_Location t)" "unique (\<lambda>r. (?K (lr_ZoneId r), ?K (lr_Name r))) (t_Location t)"
      using ok by (simp_all add: schema_defs)
    fix x y assume xy: "x \<in> set (t_Location t)" "y \<in> set (t_Location t)" "same X (lr_Id x) li" "\<not> same X (lr_Id y) li"
    have "\<not> (same X (lr_ZoneId y) (lr_ZoneId x) \<and> same X (lr_Name y) (lu_Location l))"
      using run xy unfolding constrained_Inr by blast
    then show "(?K (lr_ZoneId (x\<lparr>lr_Name := lu_Location l, lr_Enabled := lu_Enabled l\<rparr>)),
        ?K (lr_Name (x\<lparr>lr_Name := lu_Location l, lr_Enabled := lu_Enabled l\<rparr>))) \<noteq> (?K (lr_ZoneId y), ?K (lr_Name y))"
      by auto
  qed
  then show "schema_ok X t' counter" using ok run
    by (auto simp: schema_defs constrained_Inr intro!: key_rules)
qed

text \<open>Deleting rows together with the rows that refer to them.\<close>

lemma delete_where_keys: "keys_ok X t \<Longrightarrow> delete_where X ids t = Inr t' \<Longrightarrow> keys_ok X t'"
  by (simp add: keys_ok_def Let_def delete_where_def split: if_splits) (clarify, simp add: unique_filter)

lemma delete_where_refs:
  assumes ok: "refs_ok X t" and run: "delete_where X ids t = Inr t'"
  shows "refs_ok X t'"
proof -
  define K where "K = x_key X"
  define zs where "zs = K ` zr_Id ` set (filter (\<lambda>z. K (zr_Id z) \<in> ids) (t_Zone t))"
  define gone where "gone = (\<lambda>l :: LocationRow. K (lr_Id l) \<in> ids \<or> K (lr_ZoneId l) \<in> zs)"
  define ls where "ls = K ` lr_Id ` set (filter gone (t_Location t))"
  have used: "\<forall>uz \<in> set (t_UserZone t). K (uz_ZoneId uz) \<notin> zs"
    and t': "t' = t\<lparr>t_Resource := filter (\<lambda>r. K r \<notin> ids) (t_Resource t),
                     t_Zone := filter (\<lambda>z. K (zr_Id z) \<notin> ids) (t_Zone t),
                     t_Location := filter (\<lambda>l. \<not> gone l) (t_Location t),
                     t_RecordSet := filter (\<lambda>r. K (rr_Id r) \<notin> ids \<and> K (rr_LocationId r) \<notin> ls) (t_RecordSet t),
                     t_SOA := filter (\<lambda>r. K (sr_ZoneId r) \<notin> zs) (t_SOA t),
                     t_Keys := filter (\<lambda>r. K (kr_ZoneId r) \<notin> zs) (t_Keys t),
                     t_APIKeys := filter (\<lambda>r. K (ak_ZoneId r) \<notin> zs) (t_APIKeys t)\<rparr>"
    using run by (simp_all add: delete_where_def Let_def K_def zs_def gone_def ls_def split: if_splits)
  have zone: "k \<notin> ids" if "z \<in> set (t_Zone t)" "K (zr_Id z) = k" "k \<notin> zs" for z k
    using that by (auto simp: zs_def)
  have location: "\<not> gone l" if "l \<in> set (t_Location t)" "K (lr_Id l) = k" "k \<notin> ls" for l k
    using that by (auto simp: ls_def)
  note refs = ok [unfolded refs_ok_def Let_def, folded K_def]
  have "refers (\<lambda>l. K (lr_Id l)) (t_Location t') K (t_Resource t')"
    "refers (\<lambda>l. K (lr_ZoneId l)) (t_Location t') (\<lambda>z. K (zr_Id z)) (t_Zone t')"
    using refs zone by (auto simp: t' gone_def intro!: refers_filter)
  moreover have "refers (\<lambda>z. K (zr_Id z)) (t_Zone t') K (t_Resource t')"
    "refers (\<lambda>r. K (rr_Id r)) (t_RecordSet t') K (t_Resource t')"
    "refers (\<lambda>r. K (rr_LocationId r)) (t_RecordSet t') (\<lambda>l. K (lr_Id l)) (t_Location t')"
    using refs location by (auto simp: t' intro!: refers_filter)
  moreover have "refers (\<lambda>r. K (sr_ZoneId r)) (t_SOA t') (\<lambda>z. K (zr_Id z)) (t_Zone t')"
    "refers (\<lambda>r. K (kr_ZoneId r)) (t_Keys t') (\<lambda>z. K (zr_Id z)) (t_Zone t')"
    "refers (\<lambda>k. K (ak_ZoneId k)) (t_APIKeys t') (\<lambda>z. K (zr_Id z)) (t_Zone t')"
    using refs zone by (auto simp: t' intro!: refers_filter)
  moreover have "refers (\<lambda>r. K (uz_ZoneId r)) (t_UserZone t') (\<lambda>z. K (zr_Id z)) (t_Zone t')"
    using refs zone used by (auto simp: t' intro!: refers_filter_right)
  moreover have "refers (\<lambda>k. K (ak_UserId k)) (t_APIKeys t') (\<lambda>u. K (u_Id u)) (t_User t')"
    using refs by (auto simp: t' intro!: refers_filter_left)
  ultimately show ?thesis using refs by (simp add: refs_ok_def Let_def t' flip: K_def)
qed

lemma delete_where_schema: "schema_ok X t counter \<Longrightarrow> delete_where X ids t = Inr t' \<Longrightarrow> schema_ok X t' counter"
  by (auto simp: schema_ok_def delete_where_keys delete_where_refs delete_where_events)

lemma delete_users_keys: "keys_ok X t \<Longrightarrow> delete_users X gone t = Inr t' \<Longrightarrow> keys_ok X t'"
  by (simp add: keys_ok_def Let_def delete_users_def split: if_splits) (clarify, simp add: unique_filter)

lemma delete_users_refs:
  assumes ok: "refs_ok X t" and run: "delete_users X gone t = Inr t'"
  shows "refs_ok X t'"
proof -
  define K where "K = x_key X"
  define us where "us = K ` u_Id ` set (filter gone (t_User t))"
  have used: "\<forall>uz \<in> set (t_UserZone t). K (uz_UserId uz) \<notin> us"
    and t': "t' = t\<lparr>t_User := filter (\<lambda>u. \<not> gone u) (t_User t),
                     t_Verification := filter (\<lambda>v. K (vr_UserId v) \<notin> us) (t_Verification t),
                     t_APIKeys := filter (\<lambda>k. K (ak_UserId k) \<notin> us) (t_APIKeys t)\<rparr>"
    using run by (simp_all add: delete_users_def Let_def K_def us_def split: if_splits)
  have user: "\<not> gone u" if "u \<in> set (t_User t)" "K (u_Id u) = k" "k \<notin> us" for u k
    using that by (auto simp: us_def)
  note refs = ok [unfolded refs_ok_def Let_def, folded K_def]
  have "refers (\<lambda>v. K (vr_UserId v)) (t_Verification t') (\<lambda>u. K (u_Id u)) (t_User t')"
    "refers (\<lambda>k. K (ak_UserId k)) (t_APIKeys t') (\<lambda>u. K (u_Id u)) (t_User t')"
    using refs user by (auto simp: t' intro!: refers_filter)
  moreover have "refers (\<lambda>r. K (uz_UserId r)) (t_UserZone t') (\<lambda>u. K (u_Id u)) (t_User t')"
    using refs user used by (auto simp: t' intro!: refers_filter_right)
  moreover have "refers (\<lambda>k. K (ak_ZoneId k)) (t_APIKeys t') (\<lambda>z. K (zr_Id z)) (t_Zone t')"
    using refs by (auto simp: t' intro!: refers_filter_left)
  ultimately show ?thesis using refs by (simp add: refs_ok_def Let_def t' flip: K_def)
qed

lemma delete_users_events: "delete_users X gone t = Inr t' \<Longrightarrow> t_Events t' = t_Events t"
  by (auto simp: delete_users_def Let_def split: if_splits)

lemma delete_users_schema: "schema_ok X t counter \<Longrightarrow> delete_users X gone t = Inr t' \<Longrightarrow> schema_ok X t' counter"
  by (auto simp: schema_ok_def delete_users_keys delete_users_refs delete_users_events)


lemma deletes_keep_schema:
  "keeps (schema_ok X) (deleteZone X zi)" "keeps (schema_ok X) (deleteLocation X li)"
  "keeps (schema_ok X) (deleteZoneData X zi)" "keeps (schema_ok X) (deleteRecordSet X ri)" "keeps (schema_ok X) (deleteUsers X)"
  unfolding deleteZone_def deleteLocation_def deleteZoneData_def deleteRecordSet_def deleteUsers_def Let_def
  by (rule keeps_exec, erule (1) delete_where_schema delete_users_schema)+

lemma removals_keep_schema:
  "keeps (schema_ok X) (deleteUserZone X u zi)" "keeps (schema_ok X) (deleteVerifications X)"
  "keeps (schema_ok X) (deleteAPIKey X u n)"
  unfolding deleteUserZone_def deleteVerifications_def deleteAPIKey_def
  by (rule keeps_exec, auto simp: schema_defs intro!: key_rules)+

lemma deleteUser_keeps_schema: "keeps (schema_ok X) (deleteUser X n)"
proof -
  let ?m = "Exec X [''deleteUser'', n] (delete_users X (\<lambda>u. same X (u_Email u) n))"
  have "keeps (schema_ok X) ?m" by (rule keeps_exec, erule (1) delete_users_schema)
  then show ?thesis unfolding keeps_def deleteUser_def
    by (fastforce split: prod.splits sum.splits if_splits)
qed

lemma deleteResources_keeps_schema: "keeps (schema_ok X) (deleteResources X)"
proof -
  have "keeps (schema_ok X) (Exec X [''DELETE FROM UserZone''] (\<lambda>t. Inr (t\<lparr>t_UserZone := []\<rparr>)))"
    by (rule keeps_exec) (auto simp: schema_defs)
  moreover have "keeps (schema_ok X) (Exec X [''DELETE FROM Resource''] (\<lambda>t. delete_where X (x_key X ` set (t_Resource t)) t))"
    by (rule keeps_exec, erule (1) delete_where_schema)
  ultimately show ?thesis unfolding deleteResources_def by (intro keeps_bind)
qed

lemma log_appended: "log_ok es counter \<Longrightarrow> log_ok (es @ [\<lparr>ev_Revision = counter, ev_ZoneId = z, ev_Type = ty, ev_Value = v\<rparr>]) (counter + 1)"
  by (auto simp: log_ok_def sorted_wrt_append)

lemma log_later: "log_ok es counter \<Longrightarrow> log_ok es (counter + 1)"
  by (auto simp: log_ok_def)

lemma addEvent_keeps_schema: "keeps (schema_ok X) (addEvent X zi ty v)"
  unfolding keeps_def addEvent_def
  by (auto simp: db_bind_def db_lift_def Exec_def db_return_def Let_def schema_ok_def keys_ok_def refs_ok_def
      log_appended log_later split: sum.splits option.splits prod.splits)

lemma deleteEvents_keeps_schema: "keeps (schema_ok X) (deleteEvents X)"
  unfolding keeps_def deleteEvents_def
  by (auto simp: db_bind_def Exec_def schema_ok_def keys_ok_def refs_ok_def log_ok_def
      split: sum.splits option.splits prod.splits)

lemmas schema_rules = inserts_keep_schema addResource_keeps_schema addRecordSet_keeps_schema replaces_keep_schema
  updates_keep_schema updateRecordSet_keeps_schema updateZone_keeps_schema updateLocation_keeps_schema deletes_keep_schema
  removals_keep_schema deleteUser_keeps_schema deleteResources_keeps_schema addEvent_keeps_schema deleteEvents_keeps_schema


section \<open>All operations\<close>

datatype operation =
    Op_Change ObjectId change
  | Op_AddUser string NewUser
  | Op_Verify string
  | Op_SetRecoveryCode string ObjectId
  | Op_ResetPassword string string
  | Op_DeleteUser string
  | Op_AddAPIKey string ObjectId APIKeyItem
  | Op_UpdateAPIKey ObjectId APIKeyUpdate
  | Op_DeleteAPIKey ObjectId string
  | Op_Clear bool

fun operate :: "sql_env \<Rightarrow> operation \<Rightarrow> unit db_op" where
  "operate X (Op_Change u c) = perform X u c"
| "operate X (Op_AddUser code u) = no_result (db_AddUser X code u)"
| "operate X (Op_Verify code) = db_Verify X code"
| "operate X (Op_SetRecoveryCode code u) = no_result (db_SetRecoveryCode X code u)"
| "operate X (Op_ResetPassword code p) = db_ResetPassword X code p"
| "operate X (Op_DeleteUser n) = db_DeleteUser X n"
| "operate X (Op_AddAPIKey key u item) = no_result (db_AddAPIKey X key u item)"
| "operate X (Op_UpdateAPIKey u m) = db_UpdateAPIKey X u m"
| "operate X (Op_DeleteAPIKey u n) = db_DeleteAPIKey X u n"
| "operate X (Op_Clear users) = db_Clear X users"

lemma keeps_case_prod: "(\<And>a b. keeps I (f a b)) \<Longrightarrow> keeps I (case p of (a, b) \<Rightarrow> f a b)"
  by (cases p) simp

lemma lookups_keep: "keeps I (getZoneId X n)" "keeps I (getLocationId X n l)" "keeps I (getRecordId X n l ty)"
  "keeps I (zoneExists X n)"
  by (simp_all add: getZoneId_def getLocationId_def getRecordId_def zoneExists_def keeps_query)

lemma logged_keeps: "keeps (schema_ok X) (logged X zi ty v x)"
  unfolding logged_def by (intro keeps_rules schema_rules)

lemma import_keeps:
  "keeps (schema_ok X) (import_record X n li e)" "keeps (schema_ok X) (import_location X n zi l)"
  unfolding import_record_def import_location_def
  by (auto intro!: keeps_rules schema_rules keeps_case_prod)

lemma perform_keeps_schema: "keeps (schema_ok X) (perform X u c)"
  by (cases c) (auto simp: change_defs no_result_def updateSerial_def
      intro!: keeps_rules schema_rules keeps_case_prod lookups_keep logged_keeps import_keeps)

lemma verified_keeps:
  assumes "\<And>u. keeps (schema_ok X) (action u)"
  shows "keeps (schema_ok X) (applyVerifiedAction X code ty action)"
proof -
  have "keeps (schema_ok X) (Exec X [''DELETE FROM Verification'', code] (\<lambda>t.
      Inr (t\<lparr>t_Verification := filter (\<lambda>v. \<not> same X (vr_Code v) code) (t_Verification t)\<rparr>)))"
    by (rule keeps_exec) (auto simp: schema_defs intro!: key_rules)
  then show ?thesis
    unfolding applyVerifiedAction_def by (intro keeps_rules keeps_case_prod assms)
qed

lemma operate_keeps_schema: "keeps (schema_ok X) (operate X oper)"
  by (cases oper) (auto simp: perform_keeps_schema no_result_def db_AddUser_def db_Verify_def db_SetRecoveryCode_def
      db_ResetPassword_def db_DeleteUser_def db_AddAPIKey_def db_UpdateAPIKey_def db_DeleteAPIKey_def db_Clear_def Let_def
      intro!: keeps_rules schema_rules keeps_case_prod lookups_keep verified_keeps)

text \<open>
  The life of a database: operations one after the other, each with its own errors of the server.
\<close>

definition empty_tables :: tables where
  "empty_tables = \<lparr>t_User = [], t_Resource = [], t_Zone = [], t_Location = [], t_RecordSet = [], t_Verification = [],
     t_Events = [], t_SOA = [], t_Keys = [], t_APIKeys = [], t_UserZone = []\<rparr>"

definition empty_db :: DataBase where
  "empty_db = \<lparr>db_tables = empty_tables, db_saved = empty_tables, db_revision = 1, db_uuids = 0\<rparr>"

inductive database_of :: "sql_env \<Rightarrow> DataBase \<Rightarrow> bool" for X where
  created: "database_of X empty_db"
| operated: "database_of X s \<Longrightarrow> database_of X (snd (operate (X\<lparr>x_fails := fails, x_commit := commits\<rparr>) oper s))"

lemma schema_ok_env: "schema_ok (X\<lparr>x_fails := fails, x_commit := commits\<rparr>) = schema_ok X"
  by (intro ext) (simp add: schema_defs)

lemma database_of_ok:
  "database_of X s \<Longrightarrow> schema_ok X (db_tables s) (db_revision s) \<and> schema_ok X (db_saved s) (db_revision s)"
proof (induction rule: database_of.induct)
  case created
  then show ?case by (simp add: empty_db_def empty_tables_def schema_defs log_ok_def)
next
  case (operated s commits fails oper)
  let ?X = "X\<lparr>x_fails := fails, x_commit := commits\<rparr>"
  have "operate ?X oper s = (fst (operate ?X oper s), snd (operate ?X oper s))" by simp
  from operate_keeps_schema [of ?X oper, unfolded keeps_def, rule_format, OF this] operated.IH
  show ?case by (simp add: schema_ok_env)
qed



end
