(* ===== verification/ApplyEvents.thy ===== *)
theory ApplyEvents
  imports StorageProps
begin

text \<open>
  Applying the events of the control plane to redis: \<open>ApplyEvent\<close> of
  \<open>src/internal/storage/data_handler.go\<close>, and what it leaves behind.

  The method builds one transaction per event.  Several statements call a method of the
  transaction and drop its result; \<open>discard\<close> keeps the buffered command but not the error.
\<close>

section \<open>Transactions of an event\<close>

abbreviation ev_SAdd where "ev_SAdd E s \<equiv> Tx_SAdd (e_server E) (dc_Redis (e_config E)) s"
abbreviation ev_SRem where "ev_SRem E s \<equiv> Tx_SRem (e_server E) (dc_Redis (e_config E)) s"
abbreviation ev_Set where "ev_Set E s \<equiv> Tx_Set (e_server E) (dc_Redis (e_config E)) s"
abbreviation ev_Del where "ev_Del E s \<equiv> Tx_Del (e_server E) (dc_Redis (e_config E)) s"

definition dropped :: "(Transaction \<Rightarrow> Transaction) \<Rightarrow> Transaction \<Rightarrow> Transaction" where
  "dropped f t = discard t (f t)"

definition event_config :: "string \<Rightarrow> SOA_RRSet \<Rightarrow> bool \<Rightarrow> bool \<Rightarrow> ZoneConfig" where
  "event_config zoneId soa dnssec flattening =
     \<lparr>zc_DomainId = zoneId, zc_SOA = Some soa, zc_DnsSec = dnssec, zc_CnameFlattening = flattening\<rparr>"

definition tx_add_zone ::
  "('s, 'r, 't, 'zc, 'rc) storage_env \<Rightarrow> 's \<Rightarrow> Event \<Rightarrow> go_error + Transaction" where
  "tx_add_zone E s event =
     andThen (j_NewZone (e_json E) (ev_Value event)) (\<lambda>newZone.
     andThen (j_MarshalConfig (e_json E) (event_config (ev_ZoneId event) (nz_SOA newZone) (nz_Dnssec newZone)
                (nz_CNameFlattening newZone))) (\<lambda>configJson.
     andThen (j_MarshalRRSet (e_json E) (Some (NS_Set (nz_NS newZone)))) (\<lambda>nsValue.
       let n = nz_Name newZone;
           t = Start (e_server E) s;
           t = (if nz_Enabled newZone then dropped (ev_SAdd E s zonesKey n) t else t)
       in Inr (dropped
            (ev_Set E s (zonePrivKey n ''zsk'') (ZSKPrivate (nz_Keys newZone)) \<circ>
             ev_Set E s (zonePubKey n ''zsk'') (ZSKPublic (nz_Keys newZone)) \<circ>
             ev_Set E s (zonePrivKey n ''ksk'') (KSKPrivate (nz_Keys newZone)) \<circ>
             ev_Set E s (zonePubKey n ''ksk'') (KSKPublic (nz_Keys newZone)) \<circ>
             ev_Set E s (zoneLocationRRSetKey n ''@'' (TypeToString (e_tables E) TypeNS)) nsValue \<circ>
             ev_Set E s (zoneConfigKey n) configJson \<circ>
             ev_SAdd E s (zoneLocationsKey n) ''@'' \<circ>
             ev_Del E s (zoneWildcard n)) t))))"

definition marshal_or_empty :: "json_api \<Rightarrow> RRSet option \<Rightarrow> string" where
  "marshal_or_empty J v = (case j_MarshalRRSet J v of Inl _ \<Rightarrow> [] | Inr str \<Rightarrow> str)"

definition tx_import_entry ::
  "('s, 'r, 't, 'zc, 'rc) storage_env \<Rightarrow> 's \<Rightarrow> string \<Rightarrow> string \<times> (string \<times> RRSet) list \<Rightarrow>
   Transaction \<Rightarrow> Transaction" where
  "tx_import_entry E s n = (\<lambda>(location, entry) t.
     fold (\<lambda>(recordType, recordValue).
         dropped (ev_Set E s (zoneLocationRRSetKey n location recordType)
           (marshal_or_empty (e_json E) (Some recordValue)))) entry
       (dropped (ev_SAdd E s (zoneLocationsKey n) location) t))"

definition tx_import_zone ::
  "('s, 'r, 't, 'zc, 'rc) storage_env \<Rightarrow> 's \<Rightarrow> Event \<Rightarrow> go_error + Transaction" where
  "tx_import_zone E s event =
     andThen (ZoneImport_UnmarshalJSON (e_json E) (e_tables E) (ev_Value event)) (\<lambda>importZone.
       Inr (fold (tx_import_entry E s (zi_Name importZone)) (zi_Entries importZone)
         (dropped (ev_Del E s (zoneLocationsWildcard (zi_Name importZone))) (Start (e_server E) s))))"

definition tx_update_zone ::
  "('s, 'r, 't, 'zc, 'rc) storage_env \<Rightarrow> 's \<Rightarrow> Event \<Rightarrow> go_error + Transaction" where
  "tx_update_zone E s event =
     andThen (j_ZoneUpdate (e_json E) (ev_Value event)) (\<lambda>zoneUpdate.
     andThen (j_MarshalConfig (e_json E) (event_config (ev_ZoneId event) (zu_SOA zoneUpdate) (zu_Dnssec zoneUpdate)
                (zu_CNameFlattening zoneUpdate))) (\<lambda>configJson.
       let n = zu_Name zoneUpdate;
           t = Start (e_server E) s;
           t = (if zu_Enabled zoneUpdate then dropped (ev_SAdd E s zonesKey n) t
                else dropped (ev_SRem E s zonesKey n) t)
       in Inr (dropped (ev_Set E s (zoneConfigKey n) configJson \<circ> ev_SAdd E s (zoneLocationsKey n) ''@'') t)))"

definition tx_delete_zone ::
  "('s, 'r, 't, 'zc, 'rc) storage_env \<Rightarrow> 's \<Rightarrow> Event \<Rightarrow> go_error + Transaction" where
  "tx_delete_zone E s event =
     andThen (j_ZoneDelete (e_json E) (ev_Value event)) (\<lambda>zoneDelete.
       Inr (dropped (ev_Del E s (zoneWildcard (zd_Name zoneDelete)) \<circ> ev_SRem E s zonesKey (zd_Name zoneDelete))
         (Start (e_server E) s)))"

definition tx_add_location ::
  "('s, 'r, 't, 'zc, 'rc) storage_env \<Rightarrow> 's \<Rightarrow> Event \<Rightarrow> go_error + Transaction" where
  "tx_add_location E s event =
     andThen (j_NewLocation (e_json E) (ev_Value event)) (\<lambda>l.
       let t = Start (e_server E) s in
       Inr (if nl_Enabled l then dropped (ev_SAdd E s (zoneLocationsKey (nl_ZoneName l)) (nl_Location l)) t else t))"

definition tx_update_location ::
  "('s, 'r, 't, 'zc, 'rc) storage_env \<Rightarrow> 's \<Rightarrow> Event \<Rightarrow> go_error + Transaction" where
  "tx_update_location E s event =
     andThen (j_LocationUpdate (e_json E) (ev_Value event)) (\<lambda>l.
       let t = Start (e_server E) s in
       Inr (if lu_Enabled l then dropped (ev_SAdd E s (zoneLocationsKey (lu_ZoneName l)) (lu_Location l)) t
            else dropped (ev_SRem E s (zoneLocationsKey (lu_ZoneName l)) (lu_Location l)) t))"

definition tx_delete_location ::
  "('s, 'r, 't, 'zc, 'rc) storage_env \<Rightarrow> 's \<Rightarrow> Event \<Rightarrow> go_error + Transaction" where
  "tx_delete_location E s event =
     andThen (j_LocationDelete (e_json E) (ev_Value event)) (\<lambda>l.
       Inr (dropped (ev_Del E s (locationWildcard (ld_ZoneName l) (ld_Location l)) \<circ>
                     ev_SRem E s (zoneLocationsKey (ld_ZoneName l)) (ld_Location l)) (Start (e_server E) s)))"

definition tx_add_record ::
  "('s, 'r, 't, 'zc, 'rc) storage_env \<Rightarrow> 's \<Rightarrow> Event \<Rightarrow> go_error + Transaction" where
  "tx_add_record E s event =
     andThen (NewRecordSet_UnmarshalJSON (e_json E) (e_tables E) (ev_Value event)) (\<lambda>r.
       let t = Start (e_server E) s in
       Inr (if nr_Enabled r
            then dropped (ev_Set E s (zoneLocationRRSetKey (nr_ZoneName r) (nr_Location r) (nr_Type r))
                   (marshal_or_empty (e_json E) (nr_Value r))) t
            else t))"

definition tx_update_record ::
  "('s, 'r, 't, 'zc, 'rc) storage_env \<Rightarrow> 's \<Rightarrow> Event \<Rightarrow> go_error + Transaction" where
  "tx_update_record E s event =
     andThen (RecordSetUpdate_UnmarshalJSON (e_json E) (e_tables E) (ev_Value event)) (\<lambda>r.
       let t = Start (e_server E) s;
           key = zoneLocationRRSetKey (ru_ZoneName r) (ru_Location r) (ru_Type r) in
       Inr (if ru_Enabled r then dropped (ev_Set E s key (marshal_or_empty (e_json E) (ru_Value r))) t
            else dropped (ev_Del E s key) t))"

definition tx_delete_record ::
  "('s, 'r, 't, 'zc, 'rc) storage_env \<Rightarrow> 's \<Rightarrow> Event \<Rightarrow> go_error + Transaction" where
  "tx_delete_record E s event =
     andThen (j_RecordSetDelete (e_json E) (ev_Value event)) (\<lambda>r.
       Inr (dropped (ev_Del E s (zoneLocationRRSetKey (rd_ZoneName r) (rd_Location r) (rd_Type r)))
         (Start (e_server E) s)))"

definition event_transaction ::
  "('s, 'r, 't, 'zc, 'rc) storage_env \<Rightarrow> 's \<Rightarrow> Event \<Rightarrow> go_error + Transaction" where
  "event_transaction E s event =
     (let t = ev_Type event in
      if t = AddZone then tx_add_zone E s event
      else if t = ImportZone then tx_import_zone E s event
      else if t = UpdateZone then tx_update_zone E s event
      else if t = DeleteZone then tx_delete_zone E s event
      else if t = AddLocation then tx_add_location E s event
      else if t = UpdateLocation then tx_update_location E s event
      else if t = DeleteLocation then tx_delete_location E s event
      else if t = AddRecord then tx_add_record E s event
      else if t = UpdateRecord then tx_update_record E s event
      else if t = DeleteRecord then tx_delete_record E s event
      else Inl (Err (''invalid event type: '' @ t)))"

definition ApplyEvent ::
  "('s, 'r, 't, 'zc, 'rc) storage_env \<Rightarrow> 's \<Rightarrow> Event \<Rightarrow> go_error option \<times> 's" where
  "ApplyEvent E s event =
     (case event_transaction E s event of
        Inl e \<Rightarrow> (Some e, s)
      | Inr tx \<Rightarrow> Commit (e_server E) s (ev_Set E s revisionKey (Itoa (ev_Revision event)) tx))"

section \<open>What an event leaves in redis\<close>

text \<open>A transaction without an error so far, and the commands it holds.\<close>

definition holds :: "Transaction \<Rightarrow> string list list \<Rightarrow> bool" where
  "holds t cmds \<longleftrightarrow> t = \<lparr>t_connection = True, t_buffer = [''MULTI''] # cmds, t_error = None\<rparr>"

lemma holds_dropped: "holds t cmds \<Longrightarrow> holds (f t) cmds' \<Longrightarrow> holds (dropped f t) cmds'"
  by (auto simp: holds_def dropped_def discard_def)

text \<open>Steps that add commands to such a transaction.\<close>

definition clean_step :: "(Transaction \<Rightarrow> Transaction) \<Rightarrow> bool" where
  "clean_step f \<longleftrightarrow> (\<forall>t cmds. holds t cmds \<longrightarrow> (\<exists>cmds'. holds (f t) cmds'))"

lemma clean_comp: "clean_step f \<Longrightarrow> clean_step g \<Longrightarrow> clean_step (f \<circ> g)"
  unfolding clean_step_def comp_def by metis

lemma clean_dropped: "clean_step f \<Longrightarrow> clean_step (dropped f)"
  unfolding clean_step_def by (metis holds_dropped)

lemma clean_fold: "(\<And>x. clean_step (f x)) \<Longrightarrow> clean_step (fold f xs)"
proof (induction xs)
  case Nil
  then show ?case by (auto simp: clean_step_def)
next
  case (Cons x xs)
  have "clean_step (fold f xs)" using Cons by blast
  from clean_comp [OF this Cons.prems [of x]] show ?case by (simp add: comp_def)
qed

lemma clean_apply: "clean_step f \<Longrightarrow> \<exists>cmds. holds t cmds \<Longrightarrow> \<exists>cmds. holds (f t) cmds"
  by (auto simp: clean_step_def)

context redis_laws
begin

lemma holds_start: "up s \<Longrightarrow> holds (Start S s) []"
  by (simp add: holds_def tx_starts)

lemma holds_send: "up s \<Longrightarrow> holds t cmds \<Longrightarrow> holds (tx_send S s t cmd) (cmds @ [cmd])"
  by (auto simp: holds_def tx_sends)

lemma holds_ops:
  assumes "up s" and "holds t cmds"
  shows "holds (Tx_SAdd S cfg s k m t) (cmds @ [[''SADD'', rkey cfg k, m]])"
    and "holds (Tx_SRem S cfg s k m t) (cmds @ [[''SREM'', rkey cfg k, m]])"
    and "holds (Tx_Set S cfg s k v t) (cmds @ [[''SET'', rkey cfg k, v]])"
    and "holds (Tx_Del S cfg s k t) (cmds @ [[''DEL'', rkey cfg k]])"
  using holds_send [OF assms] by (simp_all add: Tx_SAdd_def Tx_SRem_def Tx_Set_def Tx_Del_def)

lemma run_all_append: "run_all S s (xs @ [x]) = snd (conn_Do S (run_all S s xs) x)"
  by (simp add: run_all_def)

lemma run_all_up: "up s \<Longrightarrow> up (run_all S s cmds)"
  by (induction cmds rule: rev_induct) (auto simp: run_all_append stays_up, simp add: run_all_def)

lemma commit_holds: "up s \<Longrightarrow> holds t cmds \<Longrightarrow> Commit S s t = (None, run_all S s cmds)"
  by (auto simp: holds_def tx_commits)

text \<open>The effect of the commands of an event on the keyspace.\<close>

lemma run_set: "up s \<Longrightarrow> keys (snd (conn_Do S s [''SET'', k, v])) = (keys s)(k \<mapsto> RString v)"
  using set_string [of s k v] by auto

lemma run_del: "up s \<Longrightarrow> keys (snd (conn_Do S s [''DEL'', k])) = (keys s)(k := None)"
  using delete [of s "[k]"] by auto

lemma run_sadd:
  "up s \<Longrightarrow> set_at (keys s) k = Some A \<Longrightarrow> keys (snd (conn_Do S s [''SADD'', k, m])) = put_set (keys s) k (insert m A)"
  using add_member [of s k A m] by auto

lemma run_srem:
  "up s \<Longrightarrow> set_at (keys s) k = Some A \<Longrightarrow> keys (snd (conn_Do S s [''SREM'', k, m])) = put_set (keys s) k (A - {m})"
  using rem_member [of s k A m] by auto

lemma commit_revision:
  assumes "up s" and "holds t cmds"
  shows "\<exists>s'. Commit S s (Tx_Set S cfg s revisionKey v t) = (None, s') \<and> up s' \<and>
    keys s' = (keys (run_all S s cmds))(rkey cfg revisionKey \<mapsto> RString v)"
  using commit_holds [OF assms(1) holds_ops(3) [OF assms]] run_all_up [OF assms(1)]
  by (simp add: run_all_append run_set stays_up)

lemma clean_ops:
  assumes "up s"
  shows "clean_step (Tx_SAdd S cfg s k m)" "clean_step (Tx_SRem S cfg s k m)"
    "clean_step (Tx_Set S cfg s k v)" "clean_step (Tx_Del S cfg s k)"
  unfolding clean_step_def using holds_ops [OF assms] by blast+

lemma clean_start: "up s \<Longrightarrow> \<exists>cmds. holds (Start S s) cmds"
  using holds_start by blast

end

lemma clean_import_entry:
  assumes "redis_laws (e_server E) up ks glob" and "up s"
  shows "clean_step (tx_import_entry E s n entry)"
proof -
  obtain location rs where e: "entry = (location, rs)" by force
  have "tx_import_entry E s n entry =
      fold (\<lambda>(recordType, recordValue).
         dropped (ev_Set E s (zoneLocationRRSetKey n location recordType)
           (marshal_or_empty (e_json E) (Some recordValue)))) rs \<circ>
      dropped (ev_SAdd E s (zoneLocationsKey n) location)"
    by (auto simp: tx_import_entry_def e)
  then show ?thesis
    using redis_laws.clean_ops [OF assms]
    by (auto intro!: clean_comp clean_fold clean_dropped)
qed

lemma event_transaction_holds:
  assumes "redis_laws (e_server E) up ks glob" and "up s" and "event_transaction E s event = Inr t"
  shows "\<exists>cmds. holds t cmds"
proof -
  note start = redis_laws.clean_start [OF assms(1,2)]
  note ops = redis_laws.clean_ops [OF assms(1,2)]
  have one: "\<exists>cmds. holds (dropped f (Start (e_server E) s)) cmds" if "clean_step f" for f
    using clean_apply [OF clean_dropped [OF that] start] .
  have two: "\<exists>cmds. holds (dropped g (dropped f (Start (e_server E) s))) cmds"
    if "clean_step f" "clean_step g" for f g
    using clean_apply [OF clean_dropped [OF that(2)] one [OF that(1)]] .
  have imp: "\<exists>cmds. holds (fold (tx_import_entry E s n) es (dropped f (Start (e_server E) s))) cmds"
    if "clean_step f" for n es f
    by (rule clean_apply [OF clean_fold [OF clean_import_entry [OF assms(1,2)]] one [OF that]])
  note defs = tx_add_zone_def tx_import_zone_def tx_update_zone_def tx_delete_zone_def tx_add_location_def
    tx_update_location_def tx_delete_location_def tx_add_record_def tx_update_record_def tx_delete_record_def
  from assms(3) show ?thesis
    unfolding event_transaction_def Let_def
    by (auto simp: andThen_Inr_iff defs Let_def start split: if_splits intro!: one two imp clean_comp ops)
qed

lemma event_applied:
  assumes "redis_laws (e_server E) up ks glob" and "up s" and "ends (event_transaction E s event)"
    and "- (2 ^ 63) \<le> ev_Revision event" "ev_Revision event < 2 ^ 63"
  shows "\<exists>s'. ApplyEvent E s event = (None, s') \<and> up s' \<and> GetRevision E s' = (Inr (ev_Revision event), s')"
proof -
  let ?c = "dc_Redis (e_config E)" and ?v = "Itoa (ev_Revision event)"
  obtain t where t: "event_transaction E s event = Inr t" using assms(3) by (auto simp: ends_def)
  obtain cmds where "holds t cmds" using event_transaction_holds [OF assms(1,2) t] by blast
  then obtain s' where s': "Commit (e_server E) s (Tx_Set (e_server E) ?c s revisionKey ?v t) = (None, s')" "up s'"
    "ks s' = (ks (run_all (e_server E) s cmds))(rkey ?c revisionKey \<mapsto> RString ?v)"
    using redis_laws.commit_revision [OF assms(1,2)] by blast
  then have "redis_Get (e_server E) ?c s' revisionKey = (Inr ?v, s')"
    by (intro redis_laws.get_found [OF assms(1)]) simp_all
  with s' t show ?thesis
    using Atoi_Itoa [OF assms(4,5)] by (simp add: ApplyEvent_def GetRevision_def)
qed

text \<open>
  C24: every event that decodes is recorded.  When redis is reachable, applying it succeeds and
  the revision read back afterwards is that of the event.
\<close>

theorem event_revision_recorded:
  assumes "redis_laws (e_server E) up ks glob" and "up s" and "ends (event_transaction E s event)"
    and "- (2 ^ 63) \<le> ev_Revision event" "ev_Revision event < 2 ^ 63"
  shows "\<exists>s'. ApplyEvent E s event = (None, s') \<and> up s' \<and> GetRevision E s' = (Inr (ev_Revision event), s')"
  using assms by (rule event_applied)

definition toy_event :: "string \<Rightarrow> string \<Rightarrow> Event" where
  "toy_event t v = \<lparr>ev_Revision = 7, ev_ZoneId = ''id'', ev_Type = t, ev_Value = v\<rparr>"

lemma toy_tables_txt: "TypeStrToRRSet std_tables ''txt'' = Some (TXT_Set zero_TXT)"
  by code_simp

lemma toy_record: "record_value toy_json std_tables v =
    Inr (\<lparr>rh_ZoneName = ''z.'', rh_Location = ''a'', rh_Type = ''txt'', rh_Enabled = True\<rparr>, Some toy_txt)"
  by (simp add: record_value_def toy_json_def toy_tables_txt)

theorem event_revision_recorded_witness:
  "\<exists>s'. ApplyEvent toy_env [] (toy_event UpdateRecord ''{}'') = (None, s') \<and> GetRevision toy_env s' = (Inr 7, s')"
proof -
  have "ends (event_transaction toy_env [] (toy_event UpdateRecord ''{}''))"
    by (simp add: event_transaction_def toy_event_def event_types Let_def tx_update_record_def
        RecordSetUpdate_UnmarshalJSON_def toy_env_sel toy_record)
  then show ?thesis
    using event_revision_recorded [of toy_env "\<lambda>_. True" mem_keys mem_glob "[]" "toy_event UpdateRecord ''{}''"]
      memory.redis_laws_axioms
    by (simp add: toy_env_sel toy_event_def)
qed

lemma record_update_stored:
  assumes "redis_laws (e_server E) up ks glob" and "up s" and "ev_Type event = UpdateRecord"
    and "RecordSetUpdate_UnmarshalJSON (e_json E) (e_tables E) (ev_Value event) = Inr r"
  shows "\<exists>s'. ApplyEvent E s event = (None, s') \<and> up s' \<and>
    ks s' = (ks s)
      (rkey (dc_Redis (e_config E)) (zoneLocationRRSetKey (ru_ZoneName r) (ru_Location r) (ru_Type r)) :=
         (if ru_Enabled r then Some (RString (marshal_or_empty (e_json E) (ru_Value r))) else None),
       rkey (dc_Redis (e_config E)) revisionKey \<mapsto> RString (Itoa (ev_Revision event)))"
proof -
  let ?c = "dc_Redis (e_config E)" and ?S = "e_server E"
  let ?k = "zoneLocationRRSetKey (ru_ZoneName r) (ru_Location r) (ru_Type r)"
  let ?v = "marshal_or_empty (e_json E) (ru_Value r)"
  let ?f = "if ru_Enabled r then ev_Set E s ?k ?v else ev_Del E s ?k"
  let ?cmd = "if ru_Enabled r then [''SET'', rkey ?c ?k, ?v] else [''DEL'', rkey ?c ?k]"
  have t: "event_transaction E s event = Inr (dropped ?f (Start ?S s))"
    using assms(3,4) by (simp add: event_transaction_def event_types Let_def tx_update_record_def)
  note start = redis_laws.holds_start [OF assms(1,2)]
  have "holds (?f (Start ?S s)) [?cmd]"
    using redis_laws.holds_ops(3,4) [OF assms(1,2) start] by simp
  then have "holds (dropped ?f (Start ?S s)) [?cmd]" using holds_dropped [OF start] by blast
  then obtain s' where "Commit ?S s (Tx_Set ?S ?c s revisionKey (Itoa (ev_Revision event)) (dropped ?f (Start ?S s))) =
      (None, s')" "up s'"
    "ks s' = (ks (run_all ?S s [?cmd]))(rkey ?c revisionKey \<mapsto> RString (Itoa (ev_Revision event)))"
    using redis_laws.commit_revision [OF assms(1,2)] by blast
  moreover have "ks (run_all ?S s [?cmd]) = (ks s)(rkey ?c ?k := (if ru_Enabled r then Some (RString ?v) else None))"
    using redis_laws.run_set [OF assms(1,2)] redis_laws.run_del [OF assms(1,2)]
    by (simp add: run_all_def)
  ultimately show ?thesis using t by (simp add: ApplyEvent_def)
qed

text \<open>
  Updates of records.  An enabled update stores exactly the JSON form of the new set under
  the key of its zone, location and type, a disabled one removes that key; apart from the
  revision no other key changes.
\<close>

lemma update_record_applied:
  assumes "redis_laws (e_server E) up ks glob" and "up s" and "ev_Type event = UpdateRecord"
    and "RecordSetUpdate_UnmarshalJSON (e_json E) (e_tables E) (ev_Value event) = Inr r"
  shows "\<exists>s'. ApplyEvent E s event = (None, s') \<and> up s' \<and>
    ks s' = (ks s)
      (rkey (dc_Redis (e_config E)) (zoneLocationRRSetKey (ru_ZoneName r) (ru_Location r) (ru_Type r)) :=
         (if ru_Enabled r then Some (RString (marshal_or_empty (e_json E) (ru_Value r))) else None),
       rkey (dc_Redis (e_config E)) revisionKey \<mapsto> RString (Itoa (ev_Revision event)))"
  using assms by (rule record_update_stored)

text \<open>
  Deleting a zone keeps its data.  The event takes the zone out of the list of zones, but
  the wildcard that is given to \<open>DEL\<close> is a literal key there, so the locations, the
  configuration, the keys and the records of the zone all stay.
\<close>

lemma delete_zone_keeps_data:
  assumes "redis_laws (e_server E) up ks glob" and "up s" and "ev_Type event = DeleteZone"
    and "j_ZoneDelete (e_json E) (ev_Value event) = Inr d"
    and "set_at (ks s) (rkey (dc_Redis (e_config E)) zonesKey) = Some A"
  shows "\<exists>s'. ApplyEvent E s event = (None, s') \<and>
    set_at (ks s') (rkey (dc_Redis (e_config E)) zonesKey) = Some (A - {zd_Name d}) \<and>
    (\<forall>k. k \<notin> (rkey (dc_Redis (e_config E))) ` {zonesKey, revisionKey, zoneWildcard (zd_Name d)} \<longrightarrow>
       ks s' k = ks s k)"
proof -
  let ?c = "dc_Redis (e_config E)" and ?S = "e_server E" and ?n = "zd_Name d"
  let ?f = "ev_Del E s (zoneWildcard ?n) \<circ> ev_SRem E s zonesKey ?n"
  let ?cmds = "[[''SREM'', rkey ?c zonesKey, ?n], [''DEL'', rkey ?c (zoneWildcard ?n)]]"
  have t: "event_transaction E s event = Inr (dropped ?f (Start ?S s))"
    using assms(3,4) by (simp add: event_transaction_def event_types Let_def tx_delete_zone_def)
  note start = redis_laws.holds_start [OF assms(1,2)]
  have "holds (?f (Start ?S s)) ?cmds"
    using redis_laws.holds_ops(4) [OF assms(1,2) redis_laws.holds_ops(2) [OF assms(1,2) start]] by simp
  then have "holds (dropped ?f (Start ?S s)) ?cmds" using holds_dropped [OF start] by blast
  then obtain s' where s': "Commit ?S s (Tx_Set ?S ?c s revisionKey (Itoa (ev_Revision event)) (dropped ?f (Start ?S s))) =
      (None, s')" "ks s' = (ks (run_all ?S s ?cmds))(rkey ?c revisionKey \<mapsto> RString (Itoa (ev_Revision event)))"
    using redis_laws.commit_revision [OF assms(1,2)] by blast
  have "ks (run_all ?S s ?cmds) = (put_set (ks s) (rkey ?c zonesKey) (A - {?n}))(rkey ?c (zoneWildcard ?n) := None)"
    using redis_laws.run_srem [OF assms(1,2,5)] redis_laws.run_del [OF assms(1)] redis_laws.stays_up [OF assms(1,2)]
    by (simp add: run_all_def)
  then have k: "ks s' = (put_set (ks s) (rkey ?c zonesKey) (A - {?n}))
      (rkey ?c (zoneWildcard ?n) := None, rkey ?c revisionKey \<mapsto> RString (Itoa (ev_Revision event)))"
    using s'(2) by simp
  have "zonesKey \<noteq> zoneWildcard ?n" "zonesKey \<noteq> revisionKey"
    by (simp_all add: storage_keys)
  then have "set_at (ks s') (rkey ?c zonesKey) = Some (A - {?n})"
    by (simp add: k set_at_def put_set_def)
  moreover have "ks s' k' = ks s k'" if "k' \<notin> rkey ?c ` {zonesKey, revisionKey, zoneWildcard ?n}" for k'
    using that by (simp add: k put_set_def)
  ultimately show ?thesis using s'(1) t by (auto simp: ApplyEvent_def)
qed

end
