(* ===== verification/ZoneUpdater.thy ===== *)
theory ZoneUpdater
  imports DatabaseIntegrity ApplyEvents
begin

text \<open>
  The zone updater: the loop of \<open>src/cmd/zone_updater/zone_updater.go\<close>, which copies the events of the control plane
  to redis.  A fatal error ends the program with the states it has reached; the pause between the
  rounds is left out.
\<close>

section \<open>The loop\<close>

datatype updater_error = RedisError go_error | DatabaseError db_error

fun apply_events ::
  "('s, 'r, 't, 'zc, 'rc) storage_env \<Rightarrow> 's \<Rightarrow> Event list \<Rightarrow> go_error option \<times> 's" where
  "apply_events E s [] = (None, s)"
| "apply_events E s (event # events) =
     (case ApplyEvent E s event of
        (Some err, s) \<Rightarrow> (Some err, s)
      | (None, s) \<Rightarrow> apply_events E s events)"

definition updater_round ::
  "('s, 'r, 't, 'zc, 'rc) storage_env \<Rightarrow> sql_env \<Rightarrow> 's \<times> DataBase \<Rightarrow> updater_error option \<times> 's \<times> DataBase" where
  "updater_round E X = (\<lambda>(s, db).
     case GetRevision E s of
       (Inl err, s) \<Rightarrow> (Some (RedisError err), s, db)
     | (Inr revision, s) \<Rightarrow>
         (case db_GetEvents X revision 0 100 db of
            (Inl err, db) \<Rightarrow> (Some (DatabaseError err), s, db)
          | (Inr events, db) \<Rightarrow>
              (case apply_events E s events of
                 (err, s) \<Rightarrow> (map_option RedisError err, s, db))))"

fun updater_rounds ::
  "nat \<Rightarrow> ('s, 'r, 't, 'zc, 'rc) storage_env \<Rightarrow> sql_env \<Rightarrow> 's \<times> DataBase \<Rightarrow>
   updater_error option \<times> 's \<times> DataBase" where
  "updater_rounds 0 E X st = (None, st)"
| "updater_rounds (Suc k) E X st =
     (case updater_round E X st of
        (Some err, st) \<Rightarrow> (Some err, st)
      | (None, st) \<Rightarrow> updater_rounds k E X st)"

section \<open>Catching up\<close>

definition pending :: "DataBase \<Rightarrow> int \<Rightarrow> Event list" where
  "pending db r = filter (\<lambda>e. r < ev_Revision e) (t_Events (db_tables db))"

definition readable :: "sql_env \<Rightarrow> DataBase \<Rightarrow> bool" where
  "readable X db \<longleftrightarrow> x_fails X [''getEvents''] (db_tables db) = None \<and>
     sorted_wrt (<) (map ev_Revision (t_Events (db_tables db)))"

lemma strict_sorted_key: "sorted_wrt (<) (map f xs) \<Longrightarrow> sort_key f xs = (xs :: 'a list)" for f :: "'a \<Rightarrow> int"
  by (rule sort_key_id_if_sorted) (simp add: strict_sorted_imp_sorted)

lemma pending_sorted: "readable X db \<Longrightarrow> sorted_wrt (<) (map ev_Revision (pending db r))"
  by (simp add: readable_def pending_def sorted_wrt_map sorted_wrt_filter)

lemma GetEvents_pending: "readable X db \<Longrightarrow> db_GetEvents X r 0 n db = (Inr (take n (pending db r)), db)"
  using strict_sorted_key [OF pending_sorted, of X db r]
  by (simp add: db_GetEvents_def parsed_def getEvents_def query_def readable_def pending_def)

lemma filter_above:
  fixes f :: "'a \<Rightarrow> int"
  assumes "sorted_wrt (<) (map f (xs @ [x] @ ys))"
  shows "filter (\<lambda>e. f x < f e) (xs @ [x] @ ys) = ys"
proof -
  have "\<forall>e \<in> set xs. f e < f x" "\<forall>e \<in> set ys. f x < f e"
    using assms by (auto simp: sorted_wrt_append)
  then have "filter (\<lambda>e. f x < f e) xs = []" "filter (\<lambda>e. f x < f e) ys = ys"
    by (force simp: filter_empty_conv filter_id_conv)+
  then show ?thesis by simp
qed

text \<open>What is left after some of the pending events have been applied.\<close>

lemma pending_rest:
  assumes "readable X db" and "pending db r = es @ [e] @ rest"
  shows "pending db (ev_Revision e) = rest"
proof -
  have "e \<in> set (pending db r)" using assms(2) by simp
  then have "r < ev_Revision e" by (simp add: pending_def)
  then have "pending db (ev_Revision e) = filter (\<lambda>x. ev_Revision e < ev_Revision x) (pending db r)"
    unfolding pending_def by (auto intro: filter_cong)
  also have "\<dots> = rest"
    using filter_above [of ev_Revision es e rest] pending_sorted [OF assms(1), of r] unfolding assms(2) by simp
  finally show ?thesis .
qed


text \<open>Events that decode, with revisions that fit an int.\<close>

definition applicable :: "('s, 'r, 't, 'zc, 'rc) storage_env \<Rightarrow> Event \<Rightarrow> bool" where
  "applicable E e \<longleftrightarrow> (\<forall>s. ends (event_transaction E s e)) \<and> 0 \<le> ev_Revision e \<and> ev_Revision e < 2 ^ 63"

lemma apply_events_append:
  "apply_events E s (xs @ ys) =
     (case apply_events E s xs of (None, s) \<Rightarrow> apply_events E s ys | (Some err, s) \<Rightarrow> (Some err, s))"
  by (induction xs arbitrary: s) (auto split: prod.splits option.splits)

lemma apply_events_applied:
  assumes "redis_laws (e_server E) up ks glob" and "up s" and "\<forall>e \<in> set es. applicable E e"
  shows "\<exists>s'. apply_events E s es = (None, s') \<and> up s' \<and>
    (es \<noteq> [] \<longrightarrow> GetRevision E s' = (Inr (ev_Revision (last es)), s'))"
  using assms(2,3)
proof (induction es arbitrary: s)
  case (Cons e es)
  obtain s1 where s1: "ApplyEvent E s e = (None, s1)" "up s1" "GetRevision E s1 = (Inr (ev_Revision e), s1)"
    using event_applied [OF assms(1) Cons.prems(1), of e] Cons.prems(2) by (auto simp: applicable_def)
  then show ?case using Cons.IH [OF s1(2)] Cons.prems(2) by (cases es) auto
qed simp

lemma round_applies:
  assumes "redis_laws (e_server E) up ks glob" and "up s" and "readable X db"
    and "GetRevision E s = (Inr r, s)" and "\<forall>e \<in> set (pending db r). applicable E e"
  shows "\<exists>s' r'. updater_round E X (s, db) = (None, s', db) \<and> up s' \<and> GetRevision E s' = (Inr r', s') \<and>
    apply_events E s (take 100 (pending db r)) = (None, s') \<and> pending db r' = drop 100 (pending db r)"
proof -
  let ?es = "take 100 (pending db r)"
  have "\<forall>e \<in> set ?es. applicable E e" using assms(5) by (meson in_set_takeD)
  from apply_events_applied [OF assms(1,2) this] obtain s' where s': "apply_events E s ?es = (None, s')" "up s'"
    "?es \<noteq> [] \<longrightarrow> GetRevision E s' = (Inr (ev_Revision (last ?es)), s')" by blast
  have round: "updater_round E X (s, db) = (None, s', db)"
    using assms(4) s'(1) GetEvents_pending [OF assms(3)] by (simp add: updater_round_def)
  show ?thesis
  proof (cases "pending db r = []")
    case True
    then show ?thesis using round s' assms(4) by auto
  next
    case False
    then have ne: "?es \<noteq> []" by simp
    then have "pending db r = butlast ?es @ [last ?es] @ drop 100 (pending db r)"
      by (metis append_assoc append_butlast_last_id append_take_drop_id)
    then have "pending db (ev_Revision (last ?es)) = drop 100 (pending db r)"
      by (rule pending_rest [OF assms(3)])
    then show ?thesis using round s' ne by blast
  qed
qed

text \<open>
  C10: the updater catches up.  When the events that are pending after the revision in redis can be decoded, the
  updater does not fail, and after \<open>k\<close> rounds it has applied exactly the first \<open>100 k\<close> of them, each
  once and in the order of their revisions.
\<close>

theorem updater_catches_up:
  assumes "redis_laws (e_server E) up ks glob" and "up s" and "readable X db"
    and "GetRevision E s = (Inr r, s)" and "\<forall>e \<in> set (pending db r). applicable E e"
  shows "\<exists>s' r'. updater_rounds k E X (s, db) = (None, s', db) \<and>
    apply_events E s (take (100 * k) (pending db r)) = (None, s') \<and>
    GetRevision E s' = (Inr r', s') \<and> pending db r' = drop (100 * k) (pending db r)"
  using assms(2,4,5)
proof (induction k arbitrary: s r)
  case (Suc k)
  from round_applies [OF assms(1) Suc.prems(1) assms(3) Suc.prems(2,3)] obtain s1 r1 where
    1: "updater_round E X (s, db) = (None, s1, db)" "up s1" "GetRevision E s1 = (Inr r1, s1)"
      "apply_events E s (take 100 (pending db r)) = (None, s1)" "pending db r1 = drop 100 (pending db r)"
    by blast
  have "\<forall>e \<in> set (pending db r1). applicable E e" using Suc.prems(3) 1(5) by (metis in_set_dropD)
  from Suc.IH [OF 1(2,3) this] obtain s' r' where 2: "updater_rounds k E X (s1, db) = (None, s', db)"
    "apply_events E s1 (take (100 * k) (pending db r1)) = (None, s')"
    "GetRevision E s' = (Inr r', s')" "pending db r' = drop (100 * k) (pending db r1)" by blast
  have "take (100 * Suc k) (pending db r) = take 100 (pending db r) @ take (100 * k) (pending db r1)"
    using take_add [of 100 "100 * k" "pending db r"] 1(5) by simp
  then have "apply_events E s (take (100 * Suc k) (pending db r)) = (None, s')"
    using 1(4) 2(2) by (simp add: apply_events_append)
  then show ?case using 1(1,5) 2 by (simp add: add.commute)
qed auto


text \<open>The database in memory after one update, and an empty redis.\<close>

definition toy_updated :: DataBase where
  "toy_updated = snd (perform toy_sql ''u'' (C_UpdateRecordSet toy_update) toy_db)"

lemma toy_updated_events:
  "t_Events (db_tables toy_updated) = [\<lparr>ev_Revision = 1, ev_ZoneId = ''1'', ev_Type = UpdateRecord, ev_Value = ''{v}''\<rparr>]"
proof -
  obtain s' where s': "perform toy_sql ''u'' (C_UpdateRecordSet toy_update) toy_db = (Inr (), s')"
    using toy_update_performs by blast
  with perform_settled [of toy_sql toy_db "C_UpdateRecordSet toy_update" "''u''"] show ?thesis
    by (auto simp: toy_updated_def settled_def event_added_def event_zones_def zone_ids_def toy_update_def toy_tables_def)
qed

lemma toy_applicable: "applicable toy_env \<lparr>ev_Revision = 1, ev_ZoneId = ''1'', ev_Type = UpdateRecord, ev_Value = v\<rparr>"
  by (simp add: applicable_def event_transaction_def event_types Let_def tx_update_record_def
      RecordSetUpdate_UnmarshalJSON_def toy_env_sel toy_record)

theorem updater_catches_up_witness:
  "\<exists>s' r'. updater_rounds 1 toy_env toy_sql ([], toy_updated) = (None, s', toy_updated) \<and>
     GetRevision toy_env s' = (Inr r', s') \<and> pending toy_updated r' = []"
proof -
  have "readable toy_sql toy_updated" by (simp add: readable_def toy_updated_events)
  moreover have "GetRevision toy_env [] = (Inr 0, [])"
    using redis_laws.get_missing [OF memory.redis_laws_axioms, of "[]" "dc_Redis toy_config" revisionKey]
    by (simp add: GetRevision_def toy_env_sel mem_keys_def)
  moreover have "\<forall>e \<in> set (pending toy_updated 0). applicable toy_env e"
    by (simp add: pending_def toy_updated_events toy_applicable)
  moreover have "length (pending toy_updated 0) \<le> 100" by (simp add: pending_def toy_updated_events)
  ultimately show ?thesis
    using updater_catches_up [of toy_env "\<lambda>_. True" mem_keys mem_glob "[]" toy_sql toy_updated 0 1]
      memory.redis_laws_axioms
    by (auto simp: toy_env_sel)
qed

section \<open>Deleting a zone\<close>

lemma ApplyEvent_undecodable: "event_transaction E s e = Inl err \<Longrightarrow> ApplyEvent E s e = (Some err, s)"
  by (simp add: ApplyEvent_def)

lemma round_fails:
  assumes "readable X db" and "GetRevision E s = (Inr r, s)" and "pending db r = e # rest"
    and "event_transaction E s e = Inl err"
  shows "updater_round E X (s, db) = (Some (RedisError err), s, db)"
  using assms GetEvents_pending [OF assms(1)] ApplyEvent_undecodable [OF assms(4)] by (simp add: updater_round_def)

text \<open>
  C23: deleting a zone stops all updates.  The event of a deletion holds the name of the zone as a JSON string, but the
  updater decodes an object.  Once a zone has been deleted and the events before it have been applied, every
  run of the updater fails and leaves redis as it is, whatever is recorded later.
\<close>

theorem zone_deletion_stops_updates:
  assumes "perform X userId (C_DeleteZone z) db = (Inr (), db')"
    and "\<forall>j. x_Marshal X (V_String (zd_Name z)) = Inr j \<longrightarrow> (\<exists>err. j_ZoneDelete (e_json E) (x_column X j) = Inl err)"
    and "GetRevision E s = (Inr r, s)" and "\<forall>e \<in> set (t_Events (db_tables db)). ev_Revision e \<le> r" and "r < db_revision db"
    and "t_Events (db_tables later) = t_Events (db_tables db') @ events" and "readable X later"
  shows "\<exists>err. updater_rounds (Suc k) E X (s, later) = (Some (RedisError err), s, later)"
proof -
  obtain zoneId j where j: "x_Marshal X (V_String (zd_Name z)) = Inr j" and
    ev: "t_Events (db_tables db') = t_Events (db_tables db) @
      [\<lparr>ev_Revision = db_revision db, ev_ZoneId = zoneId, ev_Type = DeleteZone, ev_Value = x_column X j\<rparr>]"
    using perform_settled [of X db "C_DeleteZone z" userId] assms(1) by (auto simp: settled_def event_added_def)
  let ?d = "\<lparr>ev_Revision = db_revision db, ev_ZoneId = zoneId, ev_Type = DeleteZone, ev_Value = x_column X j\<rparr>"
  obtain err where "j_ZoneDelete (e_json E) (x_column X j) = Inl err" using assms(2) j by blast
  then have "event_transaction E s ?d = Inl err"
    by (simp add: event_transaction_def event_types Let_def tx_delete_zone_def)
  moreover have "filter (\<lambda>e. r < ev_Revision e) (t_Events (db_tables db)) = []"
    using assms(4) by (auto simp: filter_empty_conv)
  then have "\<exists>rest. pending later r = ?d # rest"
    using assms(5,6) ev by (simp add: pending_def)
  ultimately have "updater_round E X (s, later) = (Some (RedisError err), s, later)"
    using round_fails [OF assms(7,3)] by blast
  then show ?thesis by simp
qed


definition toy_deleted :: "(db_error + unit) \<times> DataBase" where
  "toy_deleted = perform toy_sql ''u'' (C_DeleteZone \<lparr>zd_Name = ''z.''\<rparr>) toy_db"

lemma toy_delete_performs: "fst toy_deleted = Inr ()" "map ev_Revision (t_Events (db_tables (snd toy_deleted))) = [1]"
  by code_simp+

theorem zone_deletion_stops_updates_witness:
  "\<exists>later err. updater_rounds 1 toy_env toy_sql ([], later) = (Some (RedisError err), [], later)"
proof -
  let ?db = "snd toy_deleted"
  have db: "perform toy_sql ''u'' (C_DeleteZone \<lparr>zd_Name = ''z.''\<rparr>) toy_db = (Inr (), ?db)"
    using toy_delete_performs(1) by (simp add: toy_deleted_def prod_eq_iff)
  have "GetRevision toy_env [] = (Inr 0, [])"
    using redis_laws.get_missing [OF memory.redis_laws_axioms, of "[]" "dc_Redis toy_config" revisionKey]
    by (simp add: GetRevision_def toy_env_sel mem_keys_def)
  moreover have "readable toy_sql ?db" by (simp add: readable_def toy_delete_performs(2))
  moreover have "\<forall>j. x_Marshal toy_sql (V_String (zd_Name \<lparr>zd_Name = ''z.''\<rparr>)) = Inr j \<longrightarrow>
      (\<exists>err. j_ZoneDelete (e_json toy_env) (x_column toy_sql j) = Inl err)"
    by (simp add: toy_env_sel toy_json_def)
  moreover have "t_Events (db_tables toy_db) = []" by (simp add: toy_tables_def)
  ultimately show ?thesis
    using zone_deletion_stops_updates [of toy_sql "''u''" "\<lparr>zd_Name = ''z.''\<rparr>" toy_db ?db toy_env "[]" 0 ?db "[]" 0] db
    by auto
qed

end
