(* ===== verification/ZoneApi.thy ===== *)
theory ZoneApi
  imports ControlPlane Dnssec Upstream "HOL-Library.AList"
begin

text \<open>
  The HTTP handlers for zones: \<open>src/internal/api/handlers/common.go\<close> and
  \<open>src/internal/api/handlers/zone\<close>.

  A handler of gin gets a context and answers through it.  Here it is a function from the context and the
  database to its answer and the database.  Decoding of queries and JSON bodies, the zone file parser, and what
  is read from the clock and the random generator during one request are fields of \<open>api_env\<close>; the rules of the
  \<open>binding\<close> tags are checked on the decoded values.
\<close>

section \<open>Requests and answers\<close>

record ListRequest =
  lq_Start :: int
  lq_Count :: int
  lq_Ascending :: bool
  lq_Q :: string

record NewZoneRequest =
  nzq_Name :: string
  nzq_Enabled :: bool
  nzq_Dnssec :: bool
  nzq_CNameFlattening :: bool

record GetZoneResponse =
  gz_Name :: string
  gz_Enabled :: bool
  gz_Dnssec :: bool
  gz_CNameFlattening :: bool
  gz_SOA :: SOA_RRSet
  gz_DS :: string

record UpdateZoneRequest =
  uzq_Enabled :: bool
  uzq_Dnssec :: bool
  uzq_CNameFlattening :: bool
  uzq_SOA :: SOA_RRSet

record NewLocationRequest =
  nlq_Name :: string
  nlq_Enabled :: bool

record GetLocationResponse =
  gl_Name :: string
  gl_Enabled :: bool

record UpdateLocationRequest =
  ulq_Enabled :: bool

record NewRecordSetRequest =
  nrq_Type :: string
  nrq_Value :: "RRSet option"
  nrq_Enabled :: bool

record GetRecordSetResponse =
  gr_Value :: "RRSet option"
  gr_Enabled :: bool

record UpdateRecordSetRequest =
  urq_Value :: "RRSet option"
  urq_Enabled :: bool

record ActiveNS =
  an_RCode :: int
  an_Hosts :: "string list"

record NewAPIKeyResponse =
  nk_Name :: string
  nk_Key :: string
  nk_ZoneName :: string
  nk_Scope :: string
  nk_Enabled :: bool

record IdentityData =
  id_Id :: ObjectId
  id_Email :: string

text \<open>The values that are sent as the data of a response.\<close>

datatype api_data =
    No_Data
  | List_Data db_List
  | Name_Data string
  | Zone_Data GetZoneResponse
  | Location_Data GetLocationResponse
  | RecordSet_Data GetRecordSetResponse
  | ActiveNS_Data ActiveNS
  | Key_Data NewAPIKeyResponse
  | KeyItem_Data APIKeyItem
  | KeyItems_Data "APIKeyItem list"

record api_Response =
  resp_Code :: int
  resp_Message :: string
  resp_Data :: api_data

text \<open>
  \<open>Download\<close> is the file that an export sends, \<open>HTML\<close> a page made from a template, \<open>TokenJSON\<close> an
  authentication token with the time it expires, \<open>Status\<close> an answer without a body of the program's own, and
  \<open>Panicked\<close> a handler that did not come to an answer.
\<close>

datatype http_answer =
    JSON int api_Response
  | Download string string
  | HTML int string
  | TokenJSON int string string
  | Status int
  | Panicked

text \<open>What a form may hold under ``file''.\<close>

datatype form_file = NoFile | CannotOpen | CannotRead | Content string

record gin_context =
  gin_Identity :: "IdentityData option"
  gin_Params :: "(string \<times> string) list"
  gin_Query :: string
  gin_Body :: string
  gin_File :: form_file

definition Param :: "gin_context \<Rightarrow> string \<Rightarrow> string" where
  "Param c k = (case map_of (gin_Params c) k of Some v \<Rightarrow> v | None \<Rightarrow> [])"

record api_env =
  a_sql :: sql_env
  a_nameServer :: string
  a_ListRequest :: "string \<Rightarrow> go_error + ListRequest"
  a_NewZoneRequest :: "string \<Rightarrow> go_error + NewZoneRequest"
  a_UpdateZoneRequest :: "string \<Rightarrow> go_error + UpdateZoneRequest"
  a_NewLocationRequest :: "string \<Rightarrow> go_error + NewLocationRequest"
  a_UpdateLocationRequest :: "string \<Rightarrow> go_error + UpdateLocationRequest"
  a_RecordRequestHead :: "string \<Rightarrow> go_error + string \<times> bool"
  a_UpdateRecordSetRequest :: "string \<Rightarrow> RRSet option \<Rightarrow> go_error + UpdateRecordSetRequest"
  a_ZoneParser :: "string \<Rightarrow> string \<Rightarrow> RR list \<times> go_error option"
  a_crypto :: dns_crypto
  a_Fqdn :: "string \<Rightarrow> string"
  a_String :: "RR \<Rightarrow> string"
  a_date :: "int \<times> int \<times> int"
  a_rand :: "nat \<times> nat"
  a_stamp :: string

abbreviation a_tables :: "api_env \<Rightarrow> dns_tables" where
  "a_tables A \<equiv> x_tables (a_sql A)"

section \<open>Common functions\<close>

definition IsClientError :: "int \<Rightarrow> bool" where "IsClientError code \<longleftrightarrow> code div 100 = 4"
definition IsServerError :: "int \<Rightarrow> bool" where "IsServerError code \<longleftrightarrow> code div 100 = 5"

definition StatusOK :: int where "StatusOK = 200"
definition StatusCreated :: int where "StatusCreated = 201"
definition StatusAccepted :: int where "StatusAccepted = 202"
definition StatusBadRequest :: int where "StatusBadRequest = 400"
definition StatusForbidden :: int where "StatusForbidden = 403"
definition StatusNotFound :: int where "StatusNotFound = 404"
definition StatusConflict :: int where "StatusConflict = 409"
definition StatusInternalServerError :: int where "StatusInternalServerError = 500"
definition StatusBadGateway :: int where "StatusBadGateway = 502"

lemmas status_defs = StatusOK_def StatusCreated_def StatusAccepted_def StatusBadRequest_def StatusForbidden_def
  StatusNotFound_def StatusConflict_def StatusInternalServerError_def StatusBadGateway_def

definition StatusFromError :: "db_error \<Rightarrow> int \<times> string" where
  "StatusFromError err =
     (case err of
        ErrInvalid \<Rightarrow> (StatusInternalServerError, ''invalid operation'')
      | ErrDuplicateEntry \<Rightarrow> (StatusConflict, ''duplicate entry'')
      | ErrNotFound \<Rightarrow> (StatusNotFound, ''entry not found'')
      | ErrUnauthorized \<Rightarrow> (StatusForbidden, ''authorization failed'')
      | _ \<Rightarrow> (StatusInternalServerError, ''internal error''))"

definition ErrorResponse :: "int \<Rightarrow> string \<Rightarrow> http_answer" where
  "ErrorResponse code message = JSON code \<lparr>resp_Code = code, resp_Message = message, resp_Data = No_Data\<rparr>"

definition SuccessResponse :: "int \<Rightarrow> string \<Rightarrow> api_data \<Rightarrow> http_answer" where
  "SuccessResponse code message data = JSON code \<lparr>resp_Code = code, resp_Message = message, resp_Data = data\<rparr>"

definition SuccessfulOperationResponse :: "int \<Rightarrow> string \<Rightarrow> string \<Rightarrow> http_answer" where
  "SuccessfulOperationResponse code message name =
     JSON code \<lparr>resp_Code = code, resp_Message = message, resp_Data = Name_Data name\<rparr>"

text \<open>\<open>ExtractUser\<close> panics when no identity was stored in the context.\<close>

definition ExtractUser :: "gin_context \<Rightarrow> http_answer + ObjectId" where
  "ExtractUser c = (case gin_Identity c of None \<Rightarrow> Inl Panicked | Some i \<Rightarrow> Inr (id_Id i))"

section \<open>Steps of a handler\<close>

text \<open>A handler is a sequence of steps; a step that answers ends it.\<close>

type_synonym 'a api_op = "DataBase \<Rightarrow> (http_answer + 'a) \<times> DataBase"
type_synonym api_handler = "DataBase \<Rightarrow> http_answer \<times> DataBase"

definition api_bind :: "'a api_op \<Rightarrow> ('a \<Rightarrow> 'b api_op) \<Rightarrow> 'b api_op" where
  "api_bind m f s = (case m s of (Inl a, s) \<Rightarrow> (Inl a, s) | (Inr x, s) \<Rightarrow> f x s)"

definition api_lift :: "http_answer + 'a \<Rightarrow> 'a api_op" where
  "api_lift r s = (r, s)"

definition run_handler :: "http_answer api_op \<Rightarrow> api_handler" where
  "run_handler m s = (case m s of (Inl a, s) \<Rightarrow> (a, s) | (Inr a, s) \<Rightarrow> (a, s))"

definition answer :: "http_answer \<Rightarrow> http_answer api_op" where
  "answer a = api_lift (Inr a)"

definition from_db :: "'a db_op \<Rightarrow> 'a api_op" where
  "from_db m s =
     (case m s of
        (Inl e, s) \<Rightarrow> (Inl (case StatusFromError e of (code, message) \<Rightarrow> ErrorResponse code message), s)
      | (Inr x, s) \<Rightarrow> (Inr x, s))"

definition bind_request :: "string \<Rightarrow> go_error + 'a \<Rightarrow> ('a \<Rightarrow> bool) \<Rightarrow> 'a api_op" where
  "bind_request message decoded required = api_lift
     (case decoded of
        Inl e \<Rightarrow> Inl (ErrorResponse StatusBadRequest message)
      | Inr r \<Rightarrow> if required r then Inr r else Inl (ErrorResponse StatusBadRequest message))"

abbreviation bind_json :: "go_error + 'a \<Rightarrow> ('a \<Rightarrow> bool) \<Rightarrow> 'a api_op" where
  "bind_json \<equiv> bind_request ''binding request failed''"

definition user_of :: "gin_context \<Rightarrow> ObjectId api_op" where
  "user_of c = api_lift
     (case ExtractUser c of
        Inl a \<Rightarrow> Inl a
      | Inr userId \<Rightarrow> if userId = [] then Inl (ErrorResponse StatusBadRequest ''user missing'') else Inr userId)"

definition param_of :: "gin_context \<Rightarrow> string \<Rightarrow> string \<Rightarrow> string api_op" where
  "param_of c k message = api_lift
     (if Param c k = [] then Inl (ErrorResponse StatusBadRequest message) else Inr (Param c k))"

definition zoneNameKey :: string where "zoneNameKey = ''zone_name''"
definition locationKey :: string where "locationKey = ''location''"
definition recordTypeKey :: string where "recordTypeKey = ''record_type''"

definition rtypeValid :: "dns_tables \<Rightarrow> string \<Rightarrow> bool" where
  "rtypeValid T rtype = IsSupported (StringToType T rtype)"

definition type_of :: "dns_tables \<Rightarrow> gin_context \<Rightarrow> string api_op" where
  "type_of T c = api_lift
     (if rtypeValid T (Param c recordTypeKey) then Inr (Param c recordTypeKey)
      else Inl (ErrorResponse StatusBadRequest ''invalid record type''))"

text \<open>The checks that the handlers below a zone and below a location begin with.\<close>

definition in_zone :: "gin_context \<Rightarrow> string \<Rightarrow> (ObjectId \<Rightarrow> string \<Rightarrow> http_answer api_op) \<Rightarrow> api_handler" where
  "in_zone c message f = run_handler
     (api_bind (user_of c) (\<lambda>userId. api_bind (param_of c zoneNameKey message) (\<lambda>zoneName. f userId zoneName)))"

definition in_location ::
  "gin_context \<Rightarrow> (ObjectId \<Rightarrow> string \<Rightarrow> string \<Rightarrow> http_answer api_op) \<Rightarrow> api_handler" where
  "in_location c f = in_zone c ''zone missing'' (\<lambda>userId zoneName.
     api_bind (param_of c locationKey ''location missing'') (\<lambda>location. f userId zoneName location))"

section \<open>Zones\<close>

definition zone_getZones :: "api_env \<Rightarrow> gin_context \<Rightarrow> api_handler" where
  "zone_getZones A c = run_handler
     (api_bind (user_of c) (\<lambda>userId.
      api_bind (bind_json (a_ListRequest A (gin_Query c)) (\<lambda>_. True)) (\<lambda>req.
      api_bind (from_db (db_GetZones (a_sql A) userId (lq_Start req) (lq_Count req) (lq_Q req) (lq_Ascending req))) (\<lambda>zones.
      answer (SuccessResponse StatusOK ''successful'' (List_Data zones))))))"

definition new_zone_model :: "api_env \<Rightarrow> NewZoneRequest \<Rightarrow> ZoneKeys \<Rightarrow> database_NewZone" where
  "new_zone_model A z keys =
     (case (a_date A, a_rand A) of ((year, month, day), (r1, r2)) \<Rightarrow>
        \<lparr>nz_Name = nzq_Name z, nz_Enabled = nzq_Enabled z, nz_Dnssec = nzq_Dnssec z,
         nz_CNameFlattening = nzq_CNameFlattening z, nz_SOA = DefaultSOA year month day (nzq_Name z),
         nz_Keys = keys, nz_NS = GenerateNS r1 r2 (a_nameServer A)\<rparr>)"

definition zone_addZone :: "api_env \<Rightarrow> gin_context \<Rightarrow> api_handler" where
  "zone_addZone A c = run_handler
     (api_bind (user_of c) (\<lambda>userId.
      api_bind (bind_json (a_NewZoneRequest A (gin_Body c)) (\<lambda>z. nzq_Name z \<noteq> [])) (\<lambda>z.
      api_bind (api_lift (case GenerateKeys (a_crypto A) (nzq_Name z) of
                  Inl e \<Rightarrow> Inl (ErrorResponse StatusInternalServerError ''cannot create zone keys'')
                | Inr keys \<Rightarrow> Inr keys)) (\<lambda>keys.
      api_bind (from_db (db_AddZone (a_sql A) userId (new_zone_model A z keys))) (\<lambda>_.
      answer (SuccessfulOperationResponse StatusCreated ''created'' (nzq_Name z)))))))"

definition zone_getZone :: "api_env \<Rightarrow> gin_context \<Rightarrow> api_handler" where
  "zone_getZone A c = in_zone c ''zone name missing'' (\<lambda>userId zoneName.
     api_bind (from_db (db_GetZone (a_sql A) userId zoneName)) (\<lambda>z.
     answer (SuccessResponse StatusOK ''successful'' (Zone_Data
       \<lparr>gz_Name = dz_Name z, gz_Enabled = dz_Enabled z, gz_Dnssec = dz_Dnssec z,
        gz_CNameFlattening = dz_CNameFlattening z, gz_SOA = dz_SOA z, gz_DS = dz_DS z\<rparr>))))"

definition zone_updateZone :: "api_env \<Rightarrow> gin_context \<Rightarrow> api_handler" where
  "zone_updateZone A c = in_zone c ''zone missing'' (\<lambda>userId zoneName.
     api_bind (bind_json (a_UpdateZoneRequest A (gin_Body c)) (\<lambda>_. True)) (\<lambda>req.
     api_bind (from_db (db_GetZone (a_sql A) userId zoneName)) (\<lambda>z.
     let soa = (uzq_SOA req)\<lparr>soa_Serial := soa_Serial (dz_SOA z) + 1\<rparr> in
     api_bind (from_db (db_UpdateZone (a_sql A) userId
         \<lparr>zu_Name = zoneName, zu_Enabled = uzq_Enabled req, zu_Dnssec = uzq_Dnssec req,
          zu_CNameFlattening = uzq_CNameFlattening req, zu_SOA = soa\<rparr>)) (\<lambda>_.
     answer (SuccessfulOperationResponse StatusOK ''successful'' zoneName)))))"

definition zone_deleteZone :: "api_env \<Rightarrow> gin_context \<Rightarrow> api_handler" where
  "zone_deleteZone A c = in_zone c ''zone missing'' (\<lambda>userId zoneName.
     api_bind (from_db (db_DeleteZone (a_sql A) userId \<lparr>zd_Name = zoneName\<rparr>)) (\<lambda>_.
     answer (SuccessfulOperationResponse StatusOK ''successful'' zoneName)))"

section \<open>Locations\<close>

definition zone_getLocations :: "api_env \<Rightarrow> gin_context \<Rightarrow> api_handler" where
  "zone_getLocations A c = in_zone c ''zone missing'' (\<lambda>userId zoneName.
     api_bind (bind_json (a_ListRequest A (gin_Query c)) (\<lambda>_. True)) (\<lambda>req.
     api_bind (from_db (db_GetLocations (a_sql A) userId zoneName (lq_Start req) (lq_Count req) (lq_Q req)
                 (lq_Ascending req))) (\<lambda>locations.
     answer (SuccessResponse StatusOK ''successful'' (List_Data locations)))))"

definition zone_addLocation :: "api_env \<Rightarrow> gin_context \<Rightarrow> api_handler" where
  "zone_addLocation A c = in_zone c ''zone missing'' (\<lambda>userId zoneName.
     api_bind (bind_json (a_NewLocationRequest A (gin_Body c)) (\<lambda>req. nlq_Name req \<noteq> [])) (\<lambda>req.
     api_bind (from_db (db_AddLocation (a_sql A) userId
         \<lparr>nl_ZoneName = zoneName, nl_Location = nlq_Name req, nl_Enabled = nlq_Enabled req\<rparr>)) (\<lambda>_.
     answer (SuccessfulOperationResponse StatusCreated ''successful'' (nlq_Name req)))))"

definition zone_getLocation :: "api_env \<Rightarrow> gin_context \<Rightarrow> api_handler" where
  "zone_getLocation A c = in_location c (\<lambda>userId zoneName location.
     api_bind (from_db (db_GetLocation (a_sql A) userId zoneName location)) (\<lambda>l.
     answer (SuccessResponse StatusOK ''successful'' (Location_Data
       \<lparr>gl_Name = loc_Name l, gl_Enabled = loc_Enabled l\<rparr>))))"

definition zone_updateLocation :: "api_env \<Rightarrow> gin_context \<Rightarrow> api_handler" where
  "zone_updateLocation A c = in_location c (\<lambda>userId zoneName location.
     api_bind (bind_json (a_UpdateLocationRequest A (gin_Body c)) (\<lambda>_. True)) (\<lambda>req.
     api_bind (from_db (db_UpdateLocation (a_sql A) userId
         \<lparr>lu_ZoneName = zoneName, lu_Location = location, lu_Enabled = ulq_Enabled req\<rparr>)) (\<lambda>_.
     answer (SuccessfulOperationResponse StatusOK ''successful'' location))))"

definition zone_deleteLocation :: "api_env \<Rightarrow> gin_context \<Rightarrow> api_handler" where
  "zone_deleteLocation A c = in_location c (\<lambda>userId zoneName location.
     api_bind (from_db (db_DeleteLocation (a_sql A) userId \<lparr>ld_ZoneName = zoneName, ld_Location = location\<rparr>)) (\<lambda>_.
     answer (SuccessfulOperationResponse StatusOK ''successful'' location)))"

section \<open>Record sets\<close>

definition zone_getRecordSets :: "api_env \<Rightarrow> gin_context \<Rightarrow> api_handler" where
  "zone_getRecordSets A c = in_location c (\<lambda>userId zoneName location.
     api_bind (from_db (db_GetRecordSets (a_sql A) userId zoneName location)) (\<lambda>rrsets.
     answer (SuccessResponse StatusOK ''successful'' (List_Data rrsets))))"

definition NewRecordSetRequest_UnmarshalJSON :: "api_env \<Rightarrow> string \<Rightarrow> go_error + NewRecordSetRequest" where
  "NewRecordSetRequest_UnmarshalJSON A data =
     andThen (a_RecordRequestHead A data) (\<lambda>(ty, enabled).
       case TypeStrToRRSet (a_tables A) ty of
         None \<Rightarrow> Inl (Err ''invalid record type'')
       | Some value \<Rightarrow>
           andThen (j_Value (x_json (a_sql A)) data value) (\<lambda>v.
             Inr \<lparr>nrq_Type = ty, nrq_Value = v, nrq_Enabled = enabled\<rparr>))"

definition zone_addRecordSet :: "api_env \<Rightarrow> gin_context \<Rightarrow> api_handler" where
  "zone_addRecordSet A c = in_location c (\<lambda>userId zoneName location.
     api_bind (bind_json (NewRecordSetRequest_UnmarshalJSON A (gin_Body c))
       (\<lambda>req. nrq_Type req \<noteq> [] \<and> nrq_Value req \<noteq> None)) (\<lambda>req.
     if \<not> rtypeValid (a_tables A) (nrq_Type req) then answer (ErrorResponse StatusBadRequest ''invalid record type'')
     else
       api_bind (from_db (db_AddRecordSet (a_sql A) userId
           \<lparr>nr_ZoneName = zoneName, nr_Location = location, nr_Type = nrq_Type req, nr_Value = nrq_Value req,
            nr_Enabled = nrq_Enabled req\<rparr>)) (\<lambda>_.
       answer (SuccessfulOperationResponse StatusCreated ''successful'' (nrq_Type req)))))"

definition zone_getRecordSet :: "api_env \<Rightarrow> gin_context \<Rightarrow> api_handler" where
  "zone_getRecordSet A c = in_location c (\<lambda>userId zoneName location.
     api_bind (type_of (a_tables A) c) (\<lambda>recordType.
     api_bind (from_db (db_GetRecordSet (a_sql A) userId zoneName location recordType)) (\<lambda>r.
     answer (SuccessResponse StatusOK ''successful'' (RecordSet_Data
       \<lparr>gr_Value = rs_Value r, gr_Enabled = rs_Enabled r\<rparr>)))))"

definition zone_updateRecordSet :: "api_env \<Rightarrow> gin_context \<Rightarrow> api_handler" where
  "zone_updateRecordSet A c = in_location c (\<lambda>userId zoneName location.
     api_bind (type_of (a_tables A) c) (\<lambda>recordType.
     api_bind (bind_json (a_UpdateRecordSetRequest A (gin_Body c) (TypeStrToRRSet (a_tables A) recordType))
       (\<lambda>req. urq_Value req \<noteq> None)) (\<lambda>req.
     api_bind (from_db (db_UpdateRecordSet (a_sql A) userId
         \<lparr>ru_ZoneName = zoneName, ru_Location = location, ru_Type = recordType, ru_Value = urq_Value req,
          ru_Enabled = urq_Enabled req\<rparr>)) (\<lambda>_.
     answer (SuccessfulOperationResponse StatusOK ''successful'' recordType)))))"

definition zone_deleteRecordSet :: "api_env \<Rightarrow> gin_context \<Rightarrow> api_handler" where
  "zone_deleteRecordSet A c = in_location c (\<lambda>userId zoneName location.
     api_bind (param_of c recordTypeKey ''record missing'') (\<lambda>recordType.
     api_bind (from_db (db_DeleteRecordSet (a_sql A) userId
         \<lparr>rd_ZoneName = zoneName, rd_Location = location, rd_Type = recordType\<rparr>)) (\<lambda>_.
     answer (SuccessfulOperationResponse StatusOK ''successful'' recordType))))"

section \<open>Import\<close>

type_synonym zone_entries = "(string \<times> (string \<times> RRSet) list) list"

definition entry_label :: "string \<Rightarrow> string \<Rightarrow> string" where
  "entry_label zoneName name = (if name = zoneName then ''@'' else TrimSuffix name (''.'' @ zoneName))"

definition entry_of :: "zone_entries \<Rightarrow> string \<Rightarrow> (string \<times> RRSet) list" where
  "entry_of entries label = (case map_of entries label of Some e \<Rightarrow> e | None \<Rightarrow> [])"

definition import_rr :: "dns_tables \<Rightarrow> string \<Rightarrow> RR \<Rightarrow> zone_entries \<Rightarrow> http_answer + zone_entries" where
  "import_rr T zoneName rr entries =
     (let name = hdr_Name (Header rr); rtype = hdr_Rrtype (Header rr);
          label = entry_label zoneName name; ty = TypeToString T rtype; entry = entry_of entries label
      in if \<not> HasSuffix name zoneName then Inl (ErrorResponse StatusBadRequest ''invalid origin'')
         else if \<not> IsSupported rtype \<or> rtype = TypeSOA then Inr entries
         else if name = zoneName \<and> rtype = TypeNS then Inr entries
         else (case (case map_of entry ty of Some r \<Rightarrow> Some r | None \<Rightarrow> TypeToRRSet rtype) of
                 None \<Rightarrow> Inl Panicked
               | Some rrset \<Rightarrow>
                   (case Parse rrset rr of
                      Inl (Panic _) \<Rightarrow> Inl Panicked
                    | Inl _ \<Rightarrow> Inl (ErrorResponse StatusBadRequest ''parse error'')
                    | Inr rrset \<Rightarrow> Inr (AList.update label (AList.update ty rrset entry) entries))))"

fun import_loop :: "dns_tables \<Rightarrow> string \<Rightarrow> RR list \<Rightarrow> zone_entries \<Rightarrow> http_answer + zone_entries" where
  "import_loop T zoneName [] entries = Inr entries"
| "import_loop T zoneName (rr # rrs) entries = andThen (import_rr T zoneName rr entries) (import_loop T zoneName rrs)"

definition set_name_servers :: "api_env \<Rightarrow> zone_entries \<Rightarrow> zone_entries" where
  "set_name_servers A entries =
     AList.update ''@'' (AList.update (TypeToString (a_tables A) TypeNS)
       (NS_Set (GenerateNS (fst (a_rand A)) (snd (a_rand A)) (a_nameServer A))) (entry_of entries ''@'')) entries"

definition zone_importZone :: "api_env \<Rightarrow> gin_context \<Rightarrow> api_handler" where
  "zone_importZone A c = in_zone c ''zone name missing'' (\<lambda>userId zoneName.
     api_bind (api_lift (case gin_File c of
         NoFile \<Rightarrow> Inl (ErrorResponse StatusBadRequest ''FormFile not found'')
       | CannotOpen \<Rightarrow> Inl (ErrorResponse StatusBadRequest ''cannot open input file'')
       | CannotRead \<Rightarrow> Inl (ErrorResponse StatusBadRequest ''error reading input file'')
       | Content content \<Rightarrow> Inr content)) (\<lambda>content.
     case a_ZoneParser A content zoneName of (rrs, err) \<Rightarrow>
     api_bind (api_lift (import_loop (a_tables A) zoneName rrs [])) (\<lambda>entries.
     if err \<noteq> None then answer (ErrorResponse StatusBadRequest ''invalid format'')
     else
       api_bind (from_db (db_ImportZone (a_sql A) userId
           \<lparr>zi_Name = zoneName, zi_Entries = set_name_servers A entries\<rparr>)) (\<lambda>_.
       answer (SuccessResponse StatusOK ''successful'' No_Data)))))"

section \<open>Export\<close>

text \<open>A record set that is nil cannot be printed.\<close>

fun export_records ::
  "api_env \<Rightarrow> ObjectId \<Rightarrow> string \<Rightarrow> string \<Rightarrow> ListItem list \<Rightarrow> string \<Rightarrow> string api_op" where
  "export_records A userId zoneName l [] b s = (Inr b, s)"
| "export_records A userId zoneName l (r # rs) b s =
     (case db_GetRecordSet (a_sql A) userId zoneName l (li_Id r) s of
        (Inl ErrInvalid, s) \<Rightarrow> export_records A userId zoneName l rs b s
      | (Inl e, s) \<Rightarrow> (Inl (case StatusFromError e of (code, message) \<Rightarrow> ErrorResponse code message), s)
      | (Inr r, s) \<Rightarrow>
          (case rs_Value r of
             None \<Rightarrow> (Inl Panicked, s)
           | Some v \<Rightarrow> export_records A userId zoneName l rs (b @ RRSet_String (a_Fqdn A) (a_String A) v l @ ''\<newline>'') s))"

fun export_locations :: "api_env \<Rightarrow> ObjectId \<Rightarrow> string \<Rightarrow> ListItem list \<Rightarrow> string \<Rightarrow> string api_op" where
  "export_locations A userId zoneName [] b s = (Inr b, s)"
| "export_locations A userId zoneName (l # ls) b s =
     (case db_GetLocation (a_sql A) userId zoneName (li_Id l) s of
        (r, s) \<Rightarrow>
          if r = Inl ErrInvalid then export_locations A userId zoneName ls b s
          else if \<not> li_Enabled l then export_locations A userId zoneName ls b s
          else (case from_db (db_GetRecordSets (a_sql A) userId zoneName (li_Id l)) s of
                  (Inl a, s) \<Rightarrow> (Inl a, s)
                | (Inr rs, s) \<Rightarrow>
                    (case export_records A userId zoneName (li_Id l) (lst_Items rs) b s of
                       (Inl a, s) \<Rightarrow> (Inl a, s)
                     | (Inr b, s) \<Rightarrow> export_locations A userId zoneName ls b s)))"

partial_function (option) export_loop ::
  "api_env \<Rightarrow> ObjectId \<Rightarrow> string \<Rightarrow> int \<Rightarrow> string \<Rightarrow> DataBase \<Rightarrow> ((http_answer + string) \<times> DataBase) option" where
  "export_loop A userId zoneName start b s =
     (case from_db (db_GetLocations (a_sql A) userId zoneName start 10 [] True) s of
        (Inl a, s) \<Rightarrow> Some (Inl a, s)
      | (Inr ls, s) \<Rightarrow>
          if lst_Items ls = [] then Some (Inr b, s)
          else (case export_locations A userId zoneName (lst_Items ls) b s of
                  (Inl a, s) \<Rightarrow> Some (Inl a, s)
                | (Inr b, s) \<Rightarrow> export_loop A userId zoneName (start + int (length (lst_Items ls))) b s))"

definition export_head :: "api_env \<Rightarrow> database_Zone \<Rightarrow> string" where
  "export_head A z =
     ''$ORIGIN '' @ dz_Name z @ ''\<newline>'' @ ''$TTL '' @ Itoa 300 @ ''\<newline>\<newline>'' @
     RRSet_String (a_Fqdn A) (a_String A) (SOA_Set (dz_SOA z)) ''@'' @ ''\<newline>''"

text \<open>The value None stands for a loop that does not end.\<close>

definition zone_exportZone :: "api_env \<Rightarrow> gin_context \<Rightarrow> DataBase \<Rightarrow> (http_answer \<times> DataBase) option" where
  "zone_exportZone A c s =
     (case api_bind (user_of c) (\<lambda>userId.
           api_bind (param_of c zoneNameKey ''zone name missing'') (\<lambda>zoneName.
           api_bind (from_db (db_GetZone (a_sql A) userId zoneName)) (\<lambda>z s. (Inr (userId, z), s)))) s of
        (Inl a, s) \<Rightarrow> Some (a, s)
      | (Inr (userId, z), s) \<Rightarrow>
          (case export_loop A userId (dz_Name z) 0 (export_head A z) s of
             None \<Rightarrow> None
           | Some (Inl a, s) \<Rightarrow> Some (a, s)
           | Some (Inr b, s) \<Rightarrow> Some (Download (dz_Name z @ a_stamp A) b, s)))"

section \<open>Active name servers\<close>

text \<open>A record of another type in the answer fails the type assertion.\<close>

fun ns_hosts :: "RR list \<Rightarrow> string list option" where
  "ns_hosts [] = Some []"
| "ns_hosts (RR_NS h host # rrs) = map_option ((#) host) (ns_hosts rrs)"
| "ns_hosts (_ # rrs) = None"

definition zone_getActiveNS ::
  "('c, RR list) go_cache \<Rightarrow> exchange \<Rightarrow> int \<Rightarrow> gin_context \<Rightarrow> 'c Upstream \<Rightarrow> http_answer \<times> 'c Upstream" where
  "zone_getActiveNS C ex now c u =
     (let zoneName = Param c zoneNameKey in
      if zoneName = [] then (ErrorResponse StatusBadRequest ''zone name missing'', u)
      else (case Query C ex now u zoneName TypeNS of
              ((rrs, rcode), u) \<Rightarrow>
                if rcode = RcodeServerFailure then (ErrorResponse StatusBadGateway ''query failed'', u)
                else (case ns_hosts rrs of
                        None \<Rightarrow> (Panicked, u)
                      | Some hosts \<Rightarrow>
                          (SuccessResponse StatusOK ''successful'' (ActiveNS_Data
                             \<lparr>an_RCode = rcode, an_Hosts = hosts\<rparr>), u))))"

end
