(* ===== verification/ApiServer.thy ===== *)
theory ApiServer
  imports ZoneApi
begin

text \<open>
  The rest of the API: the handlers for accounts and API keys (\<open>src/internal/api/handlers/auth\<close>), the
  captcha check (\<open>src/internal/api/handlers/recaptcha\<close>), the mailer (\<open>src/internal/mailer/mailer.go\<close>), and
  the server that puts the handlers together (\<open>src/internal/api/server/server.go\<close>).

  The packages for tokens, SMTP and HTTP are parameters.  A request is one step: the calls of concurrent
  requests on the database are not interleaved.
\<close>

section \<open>Mails\<close>

record mailer_Config =
  mc_Address :: string
  mc_FromEmail :: string
  mc_Username :: string
  mc_Password :: string
  mc_WebServer :: string
  mc_ApiServer :: string

text \<open>The calls on the network and on the SMTP client; \<open>sm_fails\<close> tells which of them return an error.\<close>

datatype smtp_call =
    NetDial string
  | NewClient string
  | StartTLS string
  | PlainAuth string string string
  | SmtpDial string
  | MailFrom string
  | Rcpt string
  | DataCommand
  | WriteMessage string
  | CloseMessage
  | Quit

record smtp_api =
  sm_SplitHostPort :: "string \<Rightarrow> go_error + string"
  sm_ExecuteTemplate :: "string \<Rightarrow> string \<Rightarrow> string \<Rightarrow> go_error + string"
  sm_Address :: "string \<Rightarrow> string \<Rightarrow> string"
  sm_range :: "(string \<times> string) list \<Rightarrow> (string \<times> string) list"
  sm_fails :: "smtp_call \<Rightarrow> go_error option"

fun smtp_run :: "(smtp_call \<Rightarrow> go_error option) \<Rightarrow> smtp_call list \<Rightarrow> go_error option" where
  "smtp_run broken [] = None"
| "smtp_run broken (c # cs) = (case broken c of Some e \<Rightarrow> Some e | None \<Rightarrow> smtp_run broken cs)"

definition smtp_connect :: "mailer_Config \<Rightarrow> string \<Rightarrow> smtp_call list" where
  "smtp_connect m host =
     (if mc_Username m \<noteq> []
      then [NetDial (mc_Address m), NewClient host, StartTLS host, PlainAuth (mc_Username m) (mc_Password m) host]
      else [SmtpDial (mc_Address m)])"

definition mail_message :: "smtp_api \<Rightarrow> mailer_Config \<Rightarrow> string \<Rightarrow> string \<Rightarrow> string \<Rightarrow> string \<Rightarrow> string" where
  "mail_message S m toName toEmail subject body =
     concat (map (\<lambda>(k, v). k @ '': '' @ v @ [CHR 0x0D, CHR 0x0A])
       (sm_range S [(''To'', sm_Address S toName toEmail), (''From'', mc_FromEmail m), (''Subject'', subject),
                    (''Content-Type'', ''text/html; charset=\"UTF-8\"'')]))
     @ [CHR 0x0D, CHR 0x0A] @ body"

text \<open>\<open>send\<close> returns the first error of its calls.\<close>

definition send :: "smtp_api \<Rightarrow> mailer_Config \<Rightarrow> string \<Rightarrow> string \<Rightarrow> string \<Rightarrow> string \<Rightarrow> go_error option" where
  "send S m toName toEmail subject body =
     (case sm_SplitHostPort S (mc_Address m) of
        Inl e \<Rightarrow> Some e
      | Inr host \<Rightarrow> smtp_run (sm_fails S)
          (smtp_connect m host @
           [MailFrom (mc_FromEmail m), Rcpt toEmail, DataCommand,
            WriteMessage (mail_message S m toName toEmail subject body), CloseMessage, Quit]))"

definition SendEMailVerification ::
  "smtp_api \<Rightarrow> mailer_Config \<Rightarrow> string \<Rightarrow> string \<Rightarrow> string \<Rightarrow> go_error option" where
  "SendEMailVerification S m toName toEmail code =
     (case sm_ExecuteTemplate S ''verification-email.tmpl'' (mc_ApiServer m) code of
        Inl e \<Rightarrow> Some e
      | Inr b \<Rightarrow> send S m toName toEmail ''email verification'' b)"

definition SendPasswordReset ::
  "smtp_api \<Rightarrow> mailer_Config \<Rightarrow> string \<Rightarrow> string \<Rightarrow> string \<Rightarrow> go_error option" where
  "SendPasswordReset S m toName toEmail code =
     (case sm_ExecuteTemplate S ''password-reset-email.tmpl'' (mc_WebServer m) code of
        Inl e \<Rightarrow> Some e
      | Inr b \<Rightarrow> send S m toName toEmail ''password reset'' b)"

section \<open>Requests\<close>

record auth_NewUser =
  anu_Email :: string
  anu_Password :: string

record loginCredentials =
  lc_Email :: string
  lc_Password :: string

record passwordReset =
  pr_Password :: string
  pr_Code :: string

record NewAPIKeyRequest =
  nkq_Name :: string
  nkq_ZoneName :: string
  nkq_Scope :: string
  nkq_Enabled :: bool

record UpdateAPIKeyRequest =
  ukq_Scope :: string
  ukq_Enabled :: bool

record recaptcha_Response =
  cap_Success :: bool
  cap_Action :: string

type_synonym MapClaims = "(string \<times> string) list"

datatype jwt_error = ErrMissingLoginValues | ErrFailedAuthentication

text \<open>
  \<open>jwt_Claims\<close> is what the middleware of the token package finds in a request, an error to report or the
  claims; \<open>jwt_Login\<close> and \<open>jwt_Refresh\<close> make a token with its time of expiry, or an error to report.
\<close>

record http_request =
  rq_Method :: string
  rq_Path :: "string list"
  rq_Query :: string
  rq_Body :: string
  rq_File :: form_file
  rq_Token :: string

record jwt_api =
  jwt_Claims :: "http_request \<Rightarrow> (int \<times> string) + MapClaims"
  jwt_Login :: "jwt_error + MapClaims \<Rightarrow> (int \<times> string) + string \<times> string"
  jwt_Refresh :: "http_request \<Rightarrow> (int \<times> string) + string \<times> string"
  jwt_Logout :: int

record auth_env =
  au_api :: api_env
  au_smtp :: smtp_api
  au_mailer :: mailer_Config
  au_jwt :: jwt_api
  au_serverName :: string
  au_captchaServer :: string
  au_secretKey :: string
  au_PostForm :: "string \<Rightarrow> string \<Rightarrow> string \<Rightarrow> go_error + go_error + string"
  au_captchaResponse :: "string \<Rightarrow> go_error + recaptcha_Response"
  au_captchaToken :: "string \<Rightarrow> go_error + string"
  au_NewUser :: "string \<Rightarrow> go_error + auth_NewUser"
  au_loginCredentials :: "string \<Rightarrow> go_error + loginCredentials"
  au_verification :: "string \<Rightarrow> go_error + string"
  au_recovery :: "string \<Rightarrow> go_error + string"
  au_passwordReset :: "string \<Rightarrow> go_error + passwordReset"
  au_NewAPIKeyRequest :: "string \<Rightarrow> go_error + NewAPIKeyRequest"
  au_UpdateAPIKeyRequest :: "string \<Rightarrow> go_error + UpdateAPIKeyRequest"
  au_code :: string

abbreviation au_sql :: "auth_env \<Rightarrow> sql_env" where
  "au_sql E \<equiv> a_sql (au_api E)"

section \<open>Captcha\<close>

definition VerifyReCaptcha :: "auth_env \<Rightarrow> gin_context \<Rightarrow> http_answer option" where
  "VerifyReCaptcha E c =
     (case au_captchaToken E (gin_Body c) of
        Inl e \<Rightarrow> Some (ErrorResponse StatusBadRequest ''recaptcha token is missing'')
      | Inr t \<Rightarrow>
          if t = [] then Some (ErrorResponse StatusBadRequest ''recaptcha token is missing'')
          else (case au_PostForm E (au_captchaServer E) (au_secretKey E) t of
                  Inl e \<Rightarrow> Some (ErrorResponse StatusBadRequest ''recaptcha PostForm failed'')
                | Inr (Inl e) \<Rightarrow> Some (ErrorResponse StatusBadRequest ''reading response body failed'')
                | Inr (Inr body) \<Rightarrow>
                    (case au_captchaResponse E body of
                       Inl e \<Rightarrow> Some (ErrorResponse StatusBadRequest ''unmarshal response body failed'')
                     | Inr responseData \<Rightarrow>
                         if \<not> cap_Success responseData \<or> cap_Action responseData \<noteq> ''login''
                         then Some (ErrorResponse StatusForbidden ''recaptcha validation failed'') else None)))"

section \<open>Tokens\<close>

definition Authenticator :: "auth_env \<Rightarrow> gin_context \<Rightarrow> DataBase \<Rightarrow> (jwt_error + IdentityData) \<times> DataBase" where
  "Authenticator E c s =
     (case au_loginCredentials E (gin_Body c) of
        Inl e \<Rightarrow> (Inl ErrMissingLoginValues, s)
      | Inr v \<Rightarrow>
          if lc_Email v = [] \<or> lc_Password v = [] then (Inl ErrMissingLoginValues, s)
          else (case db_GetUser (au_sql E) (lc_Email v) s of
                  (Inl e, s) \<Rightarrow> (Inl ErrFailedAuthentication, s)
                | (Inr user, s) \<Rightarrow>
                    if u_Status user \<noteq> UserStatusActive then (Inl ErrFailedAuthentication, s)
                    else if \<not> CheckPasswordHash (au_sql E) (lc_Password v) (u_Password user)
                    then (Inl ErrFailedAuthentication, s)
                    else (Inr \<lparr>id_Id = u_Id user, id_Email = u_Email user\<rparr>, s)))"

definition IdentityKey :: string where "IdentityKey = ''identity''"
definition emailKey :: string where "emailKey = ''email''"
definition apiNameKey :: string where "apiNameKey = ''key_name''"

definition PayloadFunc :: "IdentityData \<Rightarrow> MapClaims" where
  "PayloadFunc v = [(IdentityKey, id_Id v), (emailKey, id_Email v)]"

text \<open>A claim that is missing fails its type assertion.\<close>

definition IdentityHandler :: "MapClaims \<Rightarrow> http_answer + IdentityData" where
  "IdentityHandler claims =
     (case (map_of claims IdentityKey, map_of claims emailKey) of
        (Some i, Some e) \<Rightarrow> Inr \<lparr>id_Id = i, id_Email = e\<rparr>
      | _ \<Rightarrow> Inl Panicked)"

definition Unauthorized :: "int \<Rightarrow> string \<Rightarrow> http_answer" where
  "Unauthorized code message = ErrorResponse code message"

definition LoginResponse :: "string \<Rightarrow> string \<Rightarrow> http_answer" where
  "LoginResponse token expire = TokenJSON StatusOK token expire"

definition RefreshResponse :: "string \<Rightarrow> string \<Rightarrow> http_answer" where
  "RefreshResponse token expire = TokenJSON StatusOK token expire"

definition LogoutResponse :: "int \<Rightarrow> http_answer" where
  "LogoutResponse code = SuccessResponse code ''logout successful'' No_Data"

definition auth_identity :: "auth_env \<Rightarrow> http_request \<Rightarrow> http_answer + IdentityData" where
  "auth_identity E r =
     (case jwt_Claims (au_jwt E) r of
        Inl (code, message) \<Rightarrow> Inl (Unauthorized code message)
      | Inr claims \<Rightarrow> IdentityHandler claims)"

definition auth_login :: "auth_env \<Rightarrow> gin_context \<Rightarrow> api_handler" where
  "auth_login E c s =
     (case Authenticator E c s of
        (r, s) \<Rightarrow>
          (case jwt_Login (au_jwt E) (map_sum id PayloadFunc r) of
             Inl (code, message) \<Rightarrow> (Unauthorized code message, s)
           | Inr (token, expire) \<Rightarrow> (LoginResponse token expire, s)))"

section \<open>Accounts\<close>

text \<open>The mails that were sent are recorded as their address and code.\<close>

record 'c api_world =
  w_db :: DataBase
  w_mails :: "(string \<times> string) list"
  w_upstream :: "'c Upstream"

definition auth_signup :: "auth_env \<Rightarrow> gin_context \<Rightarrow> 'c api_world \<Rightarrow> http_answer \<times> 'c api_world" where
  "auth_signup E c w =
     (case api_bind (bind_request ''invalid input format'' (au_NewUser E (gin_Body c))
              (\<lambda>u. anu_Email u \<noteq> [] \<and> anu_Password u \<noteq> [])) (\<lambda>u.
           api_bind (from_db (db_AddUser (au_sql E) (au_code E)
               \<lparr>nu_Email = anu_Email u, nu_Password = anu_Password u, nu_Status = UserStatusPending\<rparr>)) (\<lambda>(_, code).
           api_lift (Inr (anu_Email u, code)))) (w_db w) of
        (Inl a, s) \<Rightarrow> (a, w\<lparr>w_db := s\<rparr>)
      | (Inr (email, code), s) \<Rightarrow>
          (case SendEMailVerification (au_smtp E) (au_mailer E) email email code of
             Some e \<Rightarrow> (ErrorResponse StatusInternalServerError ''cannot send email verification'', w\<lparr>w_db := s\<rparr>)
           | None \<Rightarrow>
               (SuccessResponse StatusCreated
                  ''You still have to verify your email address inorder to complete your account validation process. Please check your inbox and click the link emailed to you.''
                  No_Data, w\<lparr>w_db := s, w_mails := w_mails w @ [(email, code)]\<rparr>)))"

definition auth_verify :: "auth_env \<Rightarrow> gin_context \<Rightarrow> api_handler" where
  "auth_verify E c = run_handler
     (api_bind (bind_request ''invalid code'' (au_verification E (gin_Query c)) (\<lambda>v. v \<noteq> [])) (\<lambda>v s.
        case db_Verify (au_sql E) v s of
          (Inl e, s) \<Rightarrow> (Inl (ErrorResponse StatusInternalServerError ''verification failed''), s)
        | (Inr _, s) \<Rightarrow> (Inr (HTML StatusOK ''verification-successful.tmpl''), s)))"

definition auth_recover :: "auth_env \<Rightarrow> gin_context \<Rightarrow> 'c api_world \<Rightarrow> http_answer \<times> 'c api_world" where
  "auth_recover E c w =
     (case api_bind (bind_request ''invalid email'' (au_recovery E (gin_Body c)) (\<lambda>email. email \<noteq> [])) (\<lambda>email.
           api_bind (from_db (db_GetUser (au_sql E) email)) (\<lambda>user.
           api_bind (from_db (db_SetRecoveryCode (au_sql E) (au_code E) (u_Id user))) (\<lambda>code.
           api_lift (Inr (u_Email user, code))))) (w_db w) of
        (Inl a, s) \<Rightarrow> (a, w\<lparr>w_db := s\<rparr>)
      | (Inr (email, code), s) \<Rightarrow>
          (case SendPasswordReset (au_smtp E) (au_mailer E) email email code of
             Some e \<Rightarrow> (ErrorResponse StatusInternalServerError ''send password reset failed'', w\<lparr>w_db := s\<rparr>)
           | None \<Rightarrow>
               (SuccessResponse StatusOK
                  ''a password recovery link has been sent to your email address. Please check your inbox and click the link emailed to you.''
                  No_Data, w\<lparr>w_db := s, w_mails := w_mails w @ [(email, code)]\<rparr>)))"

definition auth_reset :: "auth_env \<Rightarrow> gin_context \<Rightarrow> api_handler" where
  "auth_reset E c = run_handler
     (api_bind (bind_request ''invalid password reset request'' (au_passwordReset E (gin_Body c))
         (\<lambda>r. pr_Password r \<noteq> [] \<and> pr_Code r \<noteq> [])) (\<lambda>r.
      api_bind (from_db (db_ResetPassword (au_sql E) (pr_Code r) (pr_Password r))) (\<lambda>_.
      answer (SuccessResponse StatusAccepted
        ''your password has been updated successfully. you may now login using your new password'' No_Data))))"

section \<open>API keys\<close>

definition auth_addAPIKey :: "auth_env \<Rightarrow> gin_context \<Rightarrow> api_handler" where
  "auth_addAPIKey E c = run_handler
     (api_bind (user_of c) (\<lambda>userId.
      api_bind (bind_json (au_NewAPIKeyRequest E (gin_Body c))
         (\<lambda>r. nkq_Name r \<noteq> [] \<and> nkq_ZoneName r \<noteq> [] \<and> nkq_Scope r \<noteq> [])) (\<lambda>r.
      api_bind (from_db (db_AddAPIKey (au_sql E) (au_code E) userId
          \<lparr>aki_Name = nkq_Name r, aki_Scope = nkq_Scope r, aki_ZoneName = nkq_ZoneName r,
           aki_Enabled = nkq_Enabled r\<rparr>)) (\<lambda>key.
      answer (SuccessResponse StatusCreated ''successful'' (Key_Data
        \<lparr>nk_Name = nkq_Name r, nk_Key = key, nk_ZoneName = nkq_ZoneName r, nk_Scope = nkq_Scope r,
         nk_Enabled = nkq_Enabled r\<rparr>))))))"

definition auth_getAPIKeys :: "auth_env \<Rightarrow> gin_context \<Rightarrow> api_handler" where
  "auth_getAPIKeys E c = run_handler
     (api_bind (user_of c) (\<lambda>userId.
      api_bind (from_db (db_GetAPIKeys (au_sql E) userId)) (\<lambda>items.
      answer (SuccessResponse StatusOK ''successful'' (KeyItems_Data items)))))"

definition auth_getAPIKey :: "auth_env \<Rightarrow> gin_context \<Rightarrow> api_handler" where
  "auth_getAPIKey E c = run_handler
     (api_bind (user_of c) (\<lambda>userId.
      api_bind (param_of c apiNameKey ''api name missing'') (\<lambda>name.
      api_bind (from_db (db_GetAPIKey (au_sql E) userId name)) (\<lambda>item.
      answer (SuccessResponse StatusOK ''successful'' (KeyItem_Data item))))))"

definition auth_updateAPIKey :: "auth_env \<Rightarrow> gin_context \<Rightarrow> api_handler" where
  "auth_updateAPIKey E c = run_handler
     (api_bind (user_of c) (\<lambda>userId.
      api_bind (param_of c apiNameKey ''api name missing'') (\<lambda>name.
      api_bind (bind_json (au_UpdateAPIKeyRequest E (gin_Body c)) (\<lambda>r. ukq_Scope r \<noteq> [])) (\<lambda>r.
      api_bind (from_db (db_UpdateAPIKey (au_sql E) userId
          \<lparr>aku_Name = name, aku_Scope = ukq_Scope r, aku_Enabled = ukq_Enabled r\<rparr>)) (\<lambda>_.
      answer (SuccessfulOperationResponse StatusOK ''successful'' name))))))"

definition auth_deleteAPIKey :: "auth_env \<Rightarrow> gin_context \<Rightarrow> api_handler" where
  "auth_deleteAPIKey E c = run_handler
     (api_bind (user_of c) (\<lambda>userId.
      api_bind (param_of c apiNameKey ''api name missing'') (\<lambda>name.
      api_bind (from_db (db_DeleteAPIKey (au_sql E) userId name)) (\<lambda>_.
      answer (SuccessfulOperationResponse StatusOK ''successful'' name)))))"

section \<open>Routes\<close>

text \<open>
  A path is the list of its segments; a pattern has names for the segments that become parameters.  Of
  the middleware of a route, the captcha check comes first.  A route without result is a handler that
  does not end.
\<close>

datatype segment = Seg string | Par string

fun match_path :: "segment list \<Rightarrow> string list \<Rightarrow> (string \<times> string) list option" where
  "match_path [] [] = Some []"
| "match_path (Seg a # ps) (b # bs) = (if a = b then match_path ps bs else None)"
| "match_path (Par k # ps) (b # bs) = map_option ((#) (k, b)) (match_path ps bs)"
| "match_path _ _ = None"

type_synonym 'c endpoint = "gin_context \<Rightarrow> 'c api_world \<Rightarrow> (http_answer \<times> 'c api_world) option"

record 'c route =
  rt_Method :: string
  rt_Pattern :: "segment list"
  rt_Captcha :: bool
  rt_Token :: bool
  rt_Handler :: "'c endpoint"

definition on_db :: "(gin_context \<Rightarrow> api_handler) \<Rightarrow> 'c endpoint" where
  "on_db h c w = (case h c (w_db w) of (a, s) \<Rightarrow> Some (a, w\<lparr>w_db := s\<rparr>))"

definition on_export :: "api_env \<Rightarrow> 'c endpoint" where
  "on_export A c w = (case zone_exportZone A c (w_db w) of None \<Rightarrow> None | Some (a, s) \<Rightarrow> Some (a, w\<lparr>w_db := s\<rparr>))"

definition on_upstream :: "('c, RR list) go_cache \<Rightarrow> exchange \<Rightarrow> int \<Rightarrow> 'c endpoint" where
  "on_upstream C ex now c w =
     (case zone_getActiveNS C ex now c (w_upstream w) of (a, u) \<Rightarrow> Some (a, w\<lparr>w_upstream := u\<rparr>))"

definition on_world :: "(gin_context \<Rightarrow> 'c api_world \<Rightarrow> http_answer \<times> 'c api_world) \<Rightarrow> 'c endpoint" where
  "on_world h c w = Some (h c w)"

definition zone_RegisterHandlers ::
  "('c, RR list) go_cache \<Rightarrow> exchange \<Rightarrow> int \<Rightarrow> auth_env \<Rightarrow> 'c route list" where
  "zone_RegisterHandlers C ex now E =
     (let A = au_api E; zone = [Par zoneNameKey]; locations = zone @ [Seg ''locations''];
          location = locations @ [Par locationKey]; rrsets = location @ [Seg ''rrsets''];
          rrset = rrsets @ [Par recordTypeKey]
      in map (\<lambda>(verb, pattern, h). \<lparr>rt_Method = verb, rt_Pattern = Seg ''zones'' # pattern, rt_Captcha = False,
                                     rt_Token = True, rt_Handler = h\<rparr>)
       [(''GET'', [], on_db (zone_getZones A)),
        (''POST'', [], on_db (zone_addZone A)),
        (''GET'', zone, on_db (zone_getZone A)),
        (''PUT'', zone, on_db (zone_updateZone A)),
        (''DELETE'', zone, on_db (zone_deleteZone A)),
        (''GET'', zone @ [Seg ''active_ns''], on_upstream C ex now),
        (''POST'', zone @ [Seg ''import''], on_db (zone_importZone A)),
        (''GET'', zone @ [Seg ''export''], on_export A),
        (''GET'', locations, on_db (zone_getLocations A)),
        (''POST'', locations, on_db (zone_addLocation A)),
        (''GET'', location, on_db (zone_getLocation A)),
        (''PUT'', location, on_db (zone_updateLocation A)),
        (''DELETE'', location, on_db (zone_deleteLocation A)),
        (''GET'', rrsets, on_db (zone_getRecordSets A)),
        (''POST'', rrsets, on_db (zone_addRecordSet A)),
        (''GET'', rrset, on_db (zone_getRecordSet A)),
        (''PUT'', rrset, on_db (zone_updateRecordSet A)),
        (''DELETE'', rrset, on_db (zone_deleteRecordSet A))])"

definition refresh_token :: "auth_env \<Rightarrow> http_request \<Rightarrow> 'c endpoint" where
  "refresh_token E r c w = Some
     (case jwt_Refresh (au_jwt E) r of
        Inl (code, message) \<Rightarrow> (Unauthorized code message, w)
      | Inr (token, expire) \<Rightarrow> (RefreshResponse token expire, w))"

definition auth_RegisterHandlers :: "auth_env \<Rightarrow> http_request \<Rightarrow> 'c route list" where
  "auth_RegisterHandlers E r =
     (let keys = [Seg ''api_keys'']; key = keys @ [Par apiNameKey]
      in map (\<lambda>(verb, pattern, captcha, token, h). \<lparr>rt_Method = verb, rt_Pattern = Seg ''auth'' # pattern,
                                                    rt_Captcha = captcha, rt_Token = token, rt_Handler = h\<rparr>)
       [(''POST'', [Seg ''signup''], True, False, on_world (auth_signup E)),
        (''POST'', [Seg ''verify''], False, False, on_db (auth_verify E)),
        (''POST'', [Seg ''recover''], True, False, on_world (auth_recover E)),
        (''PATCH'', [Seg ''reset''], True, False, on_db (auth_reset E)),
        (''POST'', [Seg ''login''], True, False, on_db (auth_login E)),
        (''POST'', [Seg ''logout''], False, False, on_world (\<lambda>c w. (LogoutResponse (jwt_Logout (au_jwt E)), w))),
        (''GET'', [Seg ''refresh_token''], False, True, refresh_token E r),
        (''POST'', keys, False, True, on_db (auth_addAPIKey E)),
        (''GET'', keys, False, True, on_db (auth_getAPIKeys E)),
        (''GET'', key, False, True, on_db (auth_getAPIKey E)),
        (''PUT'', key, False, True, on_db (auth_updateAPIKey E)),
        (''DELETE'', key, False, True, on_db (auth_deleteAPIKey E))])"

section \<open>The server\<close>

definition gin_request :: "http_request \<Rightarrow> (string \<times> string) list \<Rightarrow> gin_context" where
  "gin_request r params =
     \<lparr>gin_Identity = None, gin_Params = params, gin_Query = rq_Query r, gin_Body = rq_Body r, gin_File = rq_File r\<rparr>"

definition run_route :: "auth_env \<Rightarrow> http_request \<Rightarrow> 'c route \<Rightarrow> 'c endpoint" where
  "run_route E r rt c w =
     (case (if rt_Captcha rt then VerifyReCaptcha E c else None) of
        Some a \<Rightarrow> Some (a, w)
      | None \<Rightarrow>
          if rt_Token rt
          then (case auth_identity E r of
                  Inl a \<Rightarrow> Some (a, w)
                | Inr i \<Rightarrow> rt_Handler rt (c\<lparr>gin_Identity := Some i\<rparr>) w)
          else rt_Handler rt c w)"

fun dispatch :: "auth_env \<Rightarrow> http_request \<Rightarrow> 'c route list \<Rightarrow> 'c api_world \<Rightarrow> (http_answer \<times> 'c api_world) option" where
  "dispatch E r [] w = Some (Status StatusNotFound, w)"
| "dispatch E r (rt # rts) w =
     (if rt_Method rt = rq_Method r
      then (case match_path (rt_Pattern rt) (rq_Path r) of
              Some params \<Rightarrow> run_route E r rt (gin_request r params) w
            | None \<Rightarrow> dispatch E r rts w)
      else dispatch E r rts w)"

definition ServeHTTP ::
  "('c, RR list) go_cache \<Rightarrow> exchange \<Rightarrow> int \<Rightarrow> auth_env \<Rightarrow> http_request \<Rightarrow> 'c api_world \<Rightarrow>
   (http_answer \<times> 'c api_world) option" where
  "ServeHTTP C ex now E r w =
     (if rq_Method r = ''OPTIONS'' then Some (Status 204, w)
      else dispatch E r (auth_RegisterHandlers E r @ zone_RegisterHandlers C ex now E) w)"

end
