(* ===== verification/ZoneExport.thy ===== *)
theory ZoneExport
  imports ZoneApi ControlPlaneProps
begin

text \<open>
  The export of a zone reads the locations in pages of ten.  It ends, and gives what one query without a
  limit would give.
\<close>

section \<open>Reading\<close>

definition reads :: "'a db_op \<Rightarrow> bool" where
  "reads m \<longleftrightarrow> (\<forall>s. snd (m s) = s)"

lemma reads_state: "reads m \<Longrightarrow> m s = (r, s') \<Longrightarrow> s' = s"
  by (metis reads_def snd_conv)

lemma reads_query: "reads (query X stmt f)"
  by (simp add: reads_def query_def split: option.splits)

lemma reads_return: "reads (db_return x)" "reads (db_fail e)" "reads (db_lift r)"
  by (simp_all add: reads_def db_return_def db_fail_def db_lift_def)

lemma reads_bind:
  assumes "reads m" and "\<And>x. reads (f x)"
  shows "reads (db_bind m f)"
  using assms by (auto simp: reads_def db_bind_def split: prod.splits sum.splits) (metis snd_conv)+

lemma reads_parsed: "reads m \<Longrightarrow> reads (parsed m)"
  by (auto simp: reads_def parsed_def split: prod.splits sum.splits) (metis snd_conv)+

lemma reads_if: "reads m \<Longrightarrow> reads n \<Longrightarrow> reads (if b then m else n)"
  by simp

lemma reads_authorized: "reads m \<Longrightarrow> reads (authorized X userId zoneId m)"
  unfolding authorized_def
  by (intro reads_bind reads_if reads_return)
    (auto simp: reads_def isAuthorized_def owner_query split: option.splits db_error.splits)

lemma reads_record_set: "reads (getRecordSet X recordId recordType)"
  by (auto simp: reads_def getRecordSet_def Let_def db_bind_def db_lift_def db_return_def split: sum.splits)

lemmas reads_rules = reads_bind reads_parsed reads_authorized reads_query reads_return reads_record_set

lemma reads_lists: "reads (getLocations X i st n q asc)" "reads (getRecordSets X i)" "reads (getZones X i st n q asc)"
  unfolding getLocations_def getRecordSets_def getZones_def Let_def by (intro reads_rules)+

lemma queries_read:
  "reads (db_GetZones X userId st n q asc)"
  "reads (db_GetZone X userId zoneName)"
  "reads (db_GetLocations X userId zoneName st n q asc)"
  "reads (db_GetLocation X userId zoneName location)"
  "reads (db_GetRecordSets X userId zoneName location)"
  "reads (db_GetRecordSet X userId zoneName location recordType)"
  unfolding db_GetZones_def db_GetZone_def db_GetLocations_def db_GetLocation_def db_GetRecordSets_def db_GetRecordSet_def
    getZoneId_def getLocationId_def getRecordId_def getZone_def getLocation_def case_prod_beta
  by (intro reads_rules reads_lists)+

section \<open>All locations at once\<close>

definition getLocations_unlimited :: "sql_env \<Rightarrow> ObjectId \<Rightarrow> string \<Rightarrow> bool \<Rightarrow> db_List db_op" where
  "getLocations_unlimited X zoneId q ascendingOrder =
     (let like = ''%'' @ q @ ''%'' in
      db_bind (query X [''getLocations'', zoneId, like] (\<lambda>t.
         Inr (order_by X ascendingOrder li_Id (location_items X zoneId like t)))) (\<lambda>items.
      db_bind (query X [''getLocations count'', zoneId, like] (\<lambda>t. Inr (int (length (location_items X zoneId like t)))))
        (\<lambda>total. db_return \<lparr>lst_Items = items, lst_Total = total\<rparr>)))"

definition all_locations :: "sql_env \<Rightarrow> ObjectId \<Rightarrow> string \<Rightarrow> db_List db_op" where
  "all_locations X userId zoneName =
     db_bind (parsed (getZoneId X zoneName)) (\<lambda>zoneId.
     authorized X userId zoneId (parsed (getLocations_unlimited X zoneId [] True)))"

definition cut :: "nat \<Rightarrow> nat \<Rightarrow> db_List \<Rightarrow> db_List" where
  "cut k n ls = ls\<lparr>lst_Items := take n (drop k (lst_Items ls))\<rparr>"

definition mapped :: "('a \<Rightarrow> 'b) \<Rightarrow> 'a db_op \<Rightarrow> 'b db_op" where
  "mapped f m s = (case m s of (r, s) \<Rightarrow> (map_sum id f r, s))"

lemma mapped_bind: "db_bind m (\<lambda>x. mapped f (g x)) = mapped f (db_bind m g)"
  by (auto simp: mapped_def db_bind_def fun_eq_iff split: prod.splits sum.splits)

lemma mapped_parsed: "parsed (mapped f m) = mapped f (parsed m)"
  by (auto simp: mapped_def parsed_def fun_eq_iff split: prod.splits sum.splits)

lemma mapped_authorized: "authorized X u z (mapped f m) = mapped f (authorized X u z m)"
proof -
  have "(if ok then mapped f m else db_fail ErrUnauthorized) = mapped f (if ok then m else db_fail ErrUnauthorized)" for ok
    by (auto simp: mapped_def db_fail_def fun_eq_iff)
  then show ?thesis by (simp only: authorized_def mapped_bind)
qed

lemma limited: "getLocations X zoneId (int k) (int n) q asc = mapped (cut k n) (getLocations_unlimited X zoneId q asc)"
  by (auto simp: getLocations_def getLocations_unlimited_def Let_def db_bind_def query_def page_def mapped_def db_return_def
      cut_def fun_eq_iff split: option.splits)

lemma page_of_all:
  "db_GetLocations X userId zoneName (int k) 10 [] True = mapped (cut k 10) (all_locations X userId zoneName)"
proof -
  have "getLocations X zoneId (int k) 10 [] True = mapped (cut k 10) (getLocations_unlimited X zoneId [] True)" for zoneId
    using limited [of X zoneId k 10 "[]" True] by simp
  then show ?thesis
    by (simp only: db_GetLocations_def all_locations_def mapped_parsed mapped_authorized mapped_bind)
qed

lemma all_locations_read: "reads (all_locations X userId zoneName)"
  unfolding all_locations_def getLocations_unlimited_def getZoneId_def Let_def by (intro reads_rules)

section \<open>The pages together\<close>

lemma export_records_state: "snd (export_records A userId zoneName l rs b s) = s"
  using queries_read(6) [THEN reads_state]
  by (induction A userId zoneName l rs b s rule: export_records.induct)
    (auto split: prod.splits sum.splits db_error.splits option.splits)

lemma export_locations_state: "snd (export_locations A userId zoneName ls b s) = s"
proof (induction ls arbitrary: b s)
  case (Cons l ls)
  obtain r where r: "db_GetLocation (a_sql A) userId zoneName (li_Id l) s = (r, s)"
    using queries_read(4) [THEN reads_state] by (metis surj_pair)
  obtain rs where rs: "db_GetRecordSets (a_sql A) userId zoneName (li_Id l) s = (rs, s)"
    using queries_read(5) [THEN reads_state] by (metis surj_pair)
  have "export_records A userId zoneName (li_Id l) is b s = (x, y) \<Longrightarrow> y = s" for "is" x y
    using export_records_state [of A userId zoneName "li_Id l" "is" b s] by simp
  then show ?case using Cons r rs by (auto simp: from_db_def split: sum.splits prod.splits)
qed simp

lemma export_locations_append:
  "export_locations A userId zoneName (xs @ ys) b s =
     (case export_locations A userId zoneName xs b s of
        (Inl a, s) \<Rightarrow> (Inl a, s)
      | (Inr b, s) \<Rightarrow> export_locations A userId zoneName ys b s)"
proof (induction xs arbitrary: b s)
  case (Cons l ls)
  obtain r s1 where r: "db_GetLocation (a_sql A) userId zoneName (li_Id l) s = (r, s1)" by (cases "db_GetLocation (a_sql A) userId zoneName (li_Id l) s")
  obtain q s2 where q: "from_db (db_GetRecordSets (a_sql A) userId zoneName (li_Id l)) s1 = (q, s2)"
    by (cases "from_db (db_GetRecordSets (a_sql A) userId zoneName (li_Id l)) s1")
  show ?case
  proof (cases q)
    case (Inl a)
    then show ?thesis using Cons r q by simp
  next
    case (Inr rs)
    obtain e s3 where "export_records A userId zoneName (li_Id l) (lst_Items rs) b s2 = (e, s3)"
      by (cases "export_records A userId zoneName (li_Id l) (lst_Items rs) b s2")
    then show ?thesis using Cons r q Inr by (cases e) simp_all
  qed
qed simp

lemma export_loop_page:
  assumes "all_locations (a_sql A) userId zoneName s = (Inr ls, s)" and "take 10 (drop k (lst_Items ls)) = items"
  shows "export_loop A userId zoneName (int k) b s =
    (if items = [] then Some (Inr b, s)
     else (case export_locations A userId zoneName items b s of
             (Inl a, s) \<Rightarrow> Some (Inl a, s)
           | (Inr b, s) \<Rightarrow> export_loop A userId zoneName (int (k + length items)) b s))"
proof -
  have "from_db (db_GetLocations (a_sql A) userId zoneName (int k) 10 [] True) s = (Inr (cut k 10 ls), s)"
    using assms(1) by (simp add: page_of_all mapped_def from_db_def)
  moreover have "lst_Items (cut k 10 ls) = items" using assms(2) by (simp add: cut_def)
  ultimately show ?thesis by (subst export_loop.simps) (auto split: prod.splits sum.splits)
qed

lemma take_rest: "take n (drop k xs) = p \<Longrightarrow> drop k xs = p @ drop (k + length p) xs"
  by (auto simp: min_def add.commute [of k] simp flip: drop_drop)

lemma export_loop_all:
  assumes all: "all_locations (a_sql A) userId zoneName s = (Inr ls, s)"
  shows "export_loop A userId zoneName (int k) b s = Some (export_locations A userId zoneName (drop k (lst_Items ls)) b s)"
proof (induction "length (lst_Items ls) - k" arbitrary: k b rule: less_induct)
  case less
  obtain items where items: "take 10 (drop k (lst_Items ls)) = items" by blast
  show ?case
  proof (cases "items = []")
    case True
    with items have "drop k (lst_Items ls) = []" by simp
    with True show ?thesis by (simp add: export_loop_page [OF all items])
  next
    case False
    have cut: "drop k (lst_Items ls) = items @ drop (k + length items) (lst_Items ls)"
      by (rule take_rest [OF items])
    have "length (lst_Items ls) - (k + length items) < length (lst_Items ls) - k"
      using False items by auto
    note rest = less [OF this]
    obtain r where r: "export_locations A userId zoneName items b s = (r, s)"
      using export_locations_state [of A userId zoneName items b s] by (cases "export_locations A userId zoneName items b s") simp
    have "export_locations A userId zoneName (drop k (lst_Items ls)) b s =
      (case r of Inl a \<Rightarrow> (Inl a, s) | Inr b \<Rightarrow> export_locations A userId zoneName (drop (k + length items) (lst_Items ls)) b s)"
      unfolding cut by (simp add: export_locations_append r split: sum.splits)
    then show ?thesis using False by (cases r) (simp_all only: export_loop_page [OF all items] r rest prod.case sum.case if_False)
  qed
qed

definition export_at_once :: "api_env \<Rightarrow> gin_context \<Rightarrow> api_handler" where
  "export_at_once A c = run_handler
     (api_bind (user_of c) (\<lambda>userId.
      api_bind (param_of c zoneNameKey ''zone name missing'') (\<lambda>zoneName.
      api_bind (from_db (db_GetZone (a_sql A) userId zoneName)) (\<lambda>z.
      api_bind (from_db (all_locations (a_sql A) userId (dz_Name z))) (\<lambda>ls.
      api_bind (export_locations A userId (dz_Name z) (lst_Items ls) (export_head A z)) (\<lambda>b.
      answer (Download (dz_Name z @ a_stamp A) b)))))))"

lemma export_loop_at_once:
  "export_loop A userId zoneName 0 b s =
     Some (api_bind (from_db (all_locations (a_sql A) userId zoneName)) (\<lambda>ls.
       export_locations A userId zoneName (lst_Items ls) b) s)"
proof -
  obtain r where r: "all_locations (a_sql A) userId zoneName s = (r, s)"
    using all_locations_read [THEN reads_state] by (metis surj_pair)
  show ?thesis
  proof (cases r)
    case (Inl e)
    then have "db_GetLocations (a_sql A) userId zoneName 0 10 [] True s = (Inl e, s)"
      using r page_of_all [of "a_sql A" userId zoneName 0] by (simp add: mapped_def)
    then show ?thesis using r Inl by (simp add: export_loop.simps [of _ _ _ 0] from_db_def api_bind_def)
  next
    case (Inr ls)
    then show ?thesis using export_loop_all [of A userId zoneName s ls 0 b] r
      by (simp add: from_db_def api_bind_def)
  qed
qed

lemma api_bind_assoc: "api_bind (api_bind m f) g = api_bind m (\<lambda>x. api_bind (f x) g)"
  by (auto simp: api_bind_def fun_eq_iff split: prod.splits sum.splits)

lemma api_bind_return: "api_bind (\<lambda>s. (Inr x, s)) g = g x"
  by (simp add: api_bind_def fun_eq_iff)

lemma export_eq: "zone_exportZone A c s = Some (export_at_once A c s)"
proof -
  let ?start = "api_bind (user_of c) (\<lambda>userId.
           api_bind (param_of c zoneNameKey ''zone name missing'') (\<lambda>zoneName.
           api_bind (from_db (db_GetZone (a_sql A) userId zoneName)) (\<lambda>z s. (Inr (userId, z), s))))"
  have "export_at_once A c = run_handler (api_bind ?start (\<lambda>(userId, z).
      api_bind (from_db (all_locations (a_sql A) userId (dz_Name z))) (\<lambda>ls.
      api_bind (export_locations A userId (dz_Name z) (lst_Items ls) (export_head A z)) (\<lambda>b.
      answer (Download (dz_Name z @ a_stamp A) b)))))"
    by (simp only: export_at_once_def api_bind_assoc api_bind_return prod.case)
  then show ?thesis
    by (auto simp: zone_exportZone_def export_loop_at_once run_handler_def api_bind_def answer_def api_lift_def
        split: prod.splits sum.splits)
qed

text \<open>
  C11: exporting a zone ends, and the pages make up the whole.  For every request, database and behaviour of the
  server, the loop over the pages comes to an end, and the answer is the one that a single
  query for all locations would have given: none is left out or exported twice, also when
  their number is a multiple of ten.
\<close>

theorem export_complete: "zone_exportZone A c s = Some (export_at_once A c s)"
  by (rule export_eq)

end
