(* ===== verification/ZoneRequests.thy ===== *)
theory ZoneRequests
  imports ApiServer ZoneExport
begin

text \<open>
  The API as a whole: what a request to the server does to the zones.  Every handler that changes a zone performs
  at most one operation of the control plane and reports how it ended, and a
  user gets nothing from the zones of others.
\<close>

section \<open>Answers\<close>

text \<open>An answer that grants the request.\<close>

fun granted :: "http_answer \<Rightarrow> bool" where
  "granted (JSON code _) = (code < 400)"
| "granted (Download _ _) = True"
| "granted (HTML _ _) = True"
| "granted (TokenJSON _ _ _) = True"
| "granted (Status _) = False"
| "granted Panicked = False"

lemma granted_responses [simp]:
  "granted (ErrorResponse code m) \<longleftrightarrow> code < 400"
  "granted (SuccessResponse code m d) \<longleftrightarrow> code < 400"
  "granted (SuccessfulOperationResponse code m n) \<longleftrightarrow> code < 400"
  by (simp_all add: ErrorResponse_def SuccessResponse_def SuccessfulOperationResponse_def)

definition status_answer :: "db_error \<Rightarrow> http_answer" where
  "status_answer e = (case StatusFromError e of (code, message) \<Rightarrow> ErrorResponse code message)"

lemma status_answer_refuses [simp]: "\<not> granted (status_answer e)"
  by (simp add: status_answer_def StatusFromError_def status_defs split: db_error.split)

lemma from_db_eq:
  "from_db m s = (case m s of (Inl e, s) \<Rightarrow> (Inl (status_answer e), s) | (Inr x, s) \<Rightarrow> (Inr x, s))"
  by (cases "m s") (auto simp: from_db_def status_answer_def split: sum.splits)

section \<open>Steps without effect\<close>

definition silent :: "'a api_op \<Rightarrow> bool" where
  "silent m \<longleftrightarrow> (\<forall>s r s'. m s = (r, s') \<longrightarrow> s' = s \<and> (\<forall>a. r = Inl a \<longrightarrow> \<not> granted a))"

lemma silent_lift: "(\<And>a. r = Inl a \<Longrightarrow> \<not> granted a) \<Longrightarrow> silent (api_lift r)"
  by (simp add: silent_def api_lift_def)

lemma silent_steps:
  "silent (user_of c)" "silent (param_of c k m)" "silent (type_of T c)" "silent (bind_request m d q)"
  unfolding user_of_def param_of_def type_of_def bind_request_def
  by (intro silent_lift; auto simp: ExtractUser_def status_defs split: option.splits sum.splits if_splits)+

lemma silent_from_db: "reads m \<Longrightarrow> silent (from_db m)"
  by (auto simp: silent_def from_db_eq dest: reads_state split: prod.splits sum.splits)

lemma silent_keys: "silent (api_lift (case GenerateKeys K n of Inl e \<Rightarrow> Inl (ErrorResponse StatusInternalServerError m) | Inr k \<Rightarrow> Inr k))"
  by (intro silent_lift) (auto simp: status_defs split: sum.splits)

lemma silent_file:
  "silent (api_lift (case gin_File c of
      NoFile \<Rightarrow> Inl (ErrorResponse StatusBadRequest m1) | CannotOpen \<Rightarrow> Inl (ErrorResponse StatusBadRequest m2)
    | CannotRead \<Rightarrow> Inl (ErrorResponse StatusBadRequest m3) | Content x \<Rightarrow> Inr x))"
  by (intro silent_lift) (auto simp: status_defs split: form_file.splits)

lemma import_rr_refuses: "import_rr T z rr es = Inl a \<Longrightarrow> \<not> granted a"
  by (auto simp: import_rr_def Let_def status_defs split: if_splits option.splits sum.splits go_error.splits)

lemma import_loop_refuses: "import_loop T z rrs es = Inl a \<Longrightarrow> \<not> granted a"
  by (induction rrs arbitrary: es) (auto simp: andThen_def import_rr_refuses split: sum.splits)

lemmas silent_rules = silent_steps silent_from_db silent_keys silent_file
  silent_lift [of "import_loop _ _ _ _", OF import_loop_refuses]

section \<open>One change\<close>

definition api_answer :: "http_answer + http_answer \<Rightarrow> http_answer" where
  "api_answer r = (case r of Inl a \<Rightarrow> a | Inr a \<Rightarrow> a)"

text \<open>Either the request is granted and one of the changes was performed, or it is not and at most tried one.\<close>

definition outcome :: "sql_env \<Rightarrow> ObjectId \<Rightarrow> change set \<Rightarrow> DataBase \<Rightarrow> http_answer \<times> DataBase \<Rightarrow> bool" where
  "outcome X userId cs s = (\<lambda>(a, s').
     if granted a then \<exists>c \<in> cs. perform X userId c s = (Inr (), s')
     else s' = s \<or> (\<exists>c \<in> cs. \<exists>e. perform X userId c s = (Inl e, s')))"

definition acts :: "sql_env \<Rightarrow> ObjectId \<Rightarrow> change set \<Rightarrow> http_answer api_op \<Rightarrow> bool" where
  "acts X userId cs m \<longleftrightarrow> (\<forall>s. outcome X userId cs s (run_handler m s))"

lemma acts_bind: "silent m \<Longrightarrow> (\<And>x. acts X userId cs (f x)) \<Longrightarrow> acts X userId cs (api_bind m f)"
  unfolding acts_def
proof
  fix s assume m: "silent m" and f: "\<And>x. \<forall>s. outcome X userId cs s (run_handler (f x) s)"
  obtain r s' where r: "m s = (r, s')" by (cases "m s")
  then have "s' = s" "\<And>a. r = Inl a \<Longrightarrow> \<not> granted a" using m by (auto simp: silent_def)
  then show "outcome X userId cs s (run_handler (api_bind m f) s)"
    using r f by (cases r) (auto simp: run_handler_def api_bind_def outcome_def)
qed

lemma acts_refuse: "\<not> granted a \<Longrightarrow> acts X userId cs (answer a)"
  by (simp add: acts_def outcome_def run_handler_def answer_def api_lift_def)

lemma no_result_unit: "no_result m = m" for m :: "unit db_op"
  by (auto simp: no_result_def db_bind_def db_return_def fun_eq_iff split: prod.splits sum.splits)

lemma acts_change:
  assumes "no_result m = perform X userId c" and "c \<in> cs" and "\<And>x. granted (g x)"
  shows "acts X userId cs (api_bind (from_db m) (\<lambda>x. answer (g x)))"
  unfolding acts_def
proof
  fix s
  obtain r s' where r: "m s = (r, s')" by (cases "m s")
  have "perform X userId c s = (map_sum id (\<lambda>_. ()) r, s')"
    unfolding assms(1) [symmetric] using r by (cases r) (simp_all add: no_result_def db_bind_def db_return_def)
  then show "outcome X userId cs s (run_handler (api_bind (from_db m) (\<lambda>x. answer (g x))) s)"
    using r assms(2,3) by (cases r) (auto simp: run_handler_def api_bind_def from_db_eq outcome_def answer_def api_lift_def)
qed

text \<open>The user and the zone of a request.\<close>

definition handles :: "sql_env \<Rightarrow> gin_context \<Rightarrow> (ObjectId \<Rightarrow> change set) \<Rightarrow> api_handler \<Rightarrow> bool" where
  "handles X c cs h \<longleftrightarrow> (\<forall>s. case gin_Identity c of
     None \<Rightarrow> \<not> granted (fst (h s)) \<and> snd (h s) = s
   | Some i \<Rightarrow> if id_Id i = [] then \<not> granted (fst (h s)) \<and> snd (h s) = s else outcome X (id_Id i) (cs (id_Id i)) s (h s))"

lemma user_of_eq:
  "user_of c s = (case gin_Identity c of None \<Rightarrow> (Inl Panicked, s)
     | Some i \<Rightarrow> if id_Id i = [] then (Inl (ErrorResponse StatusBadRequest ''user missing''), s) else (Inr (id_Id i), s))"
  by (auto simp: user_of_def ExtractUser_def api_lift_def split: option.splits)

lemma handles_user:
  assumes "\<And>userId. acts X userId (cs userId) (f userId)"
  shows "handles X c cs (run_handler (api_bind (user_of c) f))"
  unfolding handles_def
proof
  fix s
  show "case gin_Identity c of
     None \<Rightarrow> \<not> granted (fst (run_handler (api_bind (user_of c) f) s)) \<and> snd (run_handler (api_bind (user_of c) f) s) = s
   | Some i \<Rightarrow> if id_Id i = []
       then \<not> granted (fst (run_handler (api_bind (user_of c) f) s)) \<and> snd (run_handler (api_bind (user_of c) f) s) = s
       else outcome X (id_Id i) (cs (id_Id i)) s (run_handler (api_bind (user_of c) f) s)"
    using assms [unfolded acts_def, rule_format]
    by (auto simp: run_handler_def api_bind_def user_of_eq status_defs split: option.splits)
qed

definition zone_changes :: "string \<Rightarrow> change set" where
  "zone_changes z = {c. change_zone c = z \<and> (\<forall>n. c \<noteq> C_AddZone n)}"

lemma handles_zone:
  assumes "\<And>userId. acts X userId (zone_changes (Param c zoneNameKey)) (f userId (Param c zoneNameKey))"
  shows "handles X c (\<lambda>_. zone_changes (Param c zoneNameKey)) (in_zone c m f)"
proof -
  have "acts X userId (zone_changes (Param c zoneNameKey)) (api_bind (param_of c zoneNameKey m) (\<lambda>z. f userId z))" for userId
    using assms [of userId] by (auto simp: acts_def outcome_def param_of_def api_bind_def api_lift_def run_handler_def status_defs)
  then show ?thesis unfolding in_zone_def by (intro handles_user)
qed

lemma handles_location:
  assumes "\<And>userId l. acts X userId (zone_changes (Param c zoneNameKey)) (f userId (Param c zoneNameKey) l)"
  shows "handles X c (\<lambda>_. zone_changes (Param c zoneNameKey)) (in_location c f)"
  unfolding in_location_def by (intro handles_zone acts_bind silent_rules assms)

section \<open>The handlers that change zones\<close>

lemmas act_rules = acts_bind acts_refuse silent_rules queries_read

lemma add_zone_handles: "handles (a_sql A) c (\<lambda>_. range C_AddZone) (zone_addZone A c)"
  unfolding zone_addZone_def
  by (intro handles_user act_rules acts_change [where c = "C_AddZone z" for z])
    (auto simp: status_defs)

lemma update_zone_handles: "handles (a_sql A) c (\<lambda>_. zone_changes (Param c zoneNameKey)) (zone_updateZone A c)"
  unfolding zone_updateZone_def Let_def
  by (intro handles_zone act_rules acts_change [where c = "C_UpdateZone z" for z])
    (auto simp: status_defs no_result_unit zone_changes_def)

lemma delete_zone_handles: "handles (a_sql A) c (\<lambda>_. zone_changes (Param c zoneNameKey)) (zone_deleteZone A c)"
  unfolding zone_deleteZone_def
  by (intro handles_zone act_rules acts_change [where c = "C_DeleteZone z" for z])
    (auto simp: status_defs no_result_unit zone_changes_def)

lemma add_location_handles: "handles (a_sql A) c (\<lambda>_. zone_changes (Param c zoneNameKey)) (zone_addLocation A c)"
  unfolding zone_addLocation_def
  by (intro handles_zone act_rules acts_change [where c = "C_AddLocation z" for z])
    (auto simp: status_defs zone_changes_def)

lemma update_location_handles: "handles (a_sql A) c (\<lambda>_. zone_changes (Param c zoneNameKey)) (zone_updateLocation A c)"
  unfolding zone_updateLocation_def
  by (intro handles_location act_rules acts_change [where c = "C_UpdateLocation z" for z])
    (auto simp: status_defs no_result_unit zone_changes_def)

lemma delete_location_handles: "handles (a_sql A) c (\<lambda>_. zone_changes (Param c zoneNameKey)) (zone_deleteLocation A c)"
  unfolding zone_deleteLocation_def
  by (intro handles_location act_rules acts_change [where c = "C_DeleteLocation z" for z])
    (auto simp: status_defs no_result_unit zone_changes_def)

lemma add_record_set_handles: "handles (a_sql A) c (\<lambda>_. zone_changes (Param c zoneNameKey)) (zone_addRecordSet A c)"
  unfolding zone_addRecordSet_def
proof (intro handles_location act_rules)
  fix userId l req
  show "acts (a_sql A) userId (zone_changes (Param c zoneNameKey))
     (if \<not> rtypeValid (a_tables A) (nrq_Type req) then answer (ErrorResponse StatusBadRequest ''invalid record type'')
      else api_bind (from_db (db_AddRecordSet (a_sql A) userId
           \<lparr>nr_ZoneName = Param c zoneNameKey, nr_Location = l, nr_Type = nrq_Type req, nr_Value = nrq_Value req,
            nr_Enabled = nrq_Enabled req\<rparr>)) (\<lambda>_. answer (SuccessfulOperationResponse StatusCreated ''successful'' (nrq_Type req))))"
    by (auto simp: status_defs zone_changes_def intro!: acts_refuse acts_change [where c = "C_AddRecordSet z" for z])
qed

lemma update_record_set_handles: "handles (a_sql A) c (\<lambda>_. zone_changes (Param c zoneNameKey)) (zone_updateRecordSet A c)"
  unfolding zone_updateRecordSet_def
  by (intro handles_location act_rules acts_change [where c = "C_UpdateRecordSet z" for z])
    (auto simp: status_defs no_result_unit zone_changes_def)

lemma delete_record_set_handles: "handles (a_sql A) c (\<lambda>_. zone_changes (Param c zoneNameKey)) (zone_deleteRecordSet A c)"
  unfolding zone_deleteRecordSet_def
  by (intro handles_location act_rules acts_change [where c = "C_DeleteRecordSet z" for z])
    (auto simp: status_defs no_result_unit zone_changes_def)

lemma import_zone_handles: "handles (a_sql A) c (\<lambda>_. zone_changes (Param c zoneNameKey)) (zone_importZone A c)"
  unfolding zone_importZone_def case_prod_beta
proof (intro handles_zone act_rules)
  fix userId content entries
  show "acts (a_sql A) userId (zone_changes (Param c zoneNameKey))
     (if snd (a_ZoneParser A content (Param c zoneNameKey)) \<noteq> None
      then answer (ErrorResponse StatusBadRequest ''invalid format'')
      else api_bind (from_db (db_ImportZone (a_sql A) userId
           \<lparr>zi_Name = Param c zoneNameKey, zi_Entries = set_name_servers A entries\<rparr>)) (\<lambda>_.
         answer (SuccessResponse StatusOK ''successful'' No_Data)))"
    by (auto simp: status_defs no_result_unit zone_changes_def intro!: acts_refuse acts_change [where c = "C_ImportZone z" for z])
qed

lemmas change_handlers = add_zone_handles update_zone_handles delete_zone_handles add_location_handles
  update_location_handles delete_location_handles add_record_set_handles update_record_set_handles
  delete_record_set_handles import_zone_handles

section \<open>The routes\<close>

lemma dispatch_cases:
  "dispatch E r rts w = Some (Status StatusNotFound, w) \<or>
   (\<exists>rt \<in> set rts. \<exists>params. rt_Method rt = rq_Method r \<and> match_path (rt_Pattern rt) (rq_Path r) = Some params \<and>
      dispatch E r rts w = run_route E r rt (gin_request r params) w)"
  by (induction rts) (auto split: option.splits)

lemma auth_routes_elsewhere:
  "rt \<in> set (auth_RegisterHandlers E r) \<Longrightarrow> match_path (rt_Pattern rt) (''zones'' # p) = None"
  by (auto simp: auth_RegisterHandlers_def Let_def)

lemma zone_route_cases:
  assumes "rq_Path r = ''zones'' # p"
  obtains (options) "ServeHTTP C ex now E r w = Some (Status 204, w)"
  | (missing) "ServeHTTP C ex now E r w = Some (Status StatusNotFound, w)"
  | (route) rt params where "rt \<in> set (zone_RegisterHandlers C ex now E)" "rt_Method rt = rq_Method r"
      "match_path (rt_Pattern rt) (''zones'' # p) = Some params"
      "ServeHTTP C ex now E r w = run_route E r rt (gin_request r params) w"
proof (cases "rq_Method r = ''OPTIONS''")
  case True
  then show ?thesis by (intro options) (simp add: ServeHTTP_def)
next
  case False
  then have S: "ServeHTTP C ex now E r w = dispatch E r (auth_RegisterHandlers E r @ zone_RegisterHandlers C ex now E) w"
    by (simp add: ServeHTTP_def)
  show ?thesis
    using dispatch_cases [of E r "auth_RegisterHandlers E r @ zone_RegisterHandlers C ex now E" w, folded S] missing route assms
    by (auto simp: auth_routes_elsewhere)
qed

lemma zone_routes_guarded: "rt \<in> set (zone_RegisterHandlers C ex now E) \<Longrightarrow> rt_Token rt \<and> \<not> rt_Captcha rt"
  by (auto simp: zone_RegisterHandlers_def Let_def)

lemma run_guarded:
  assumes "rt \<in> set (zone_RegisterHandlers C ex now E)"
  shows "run_route E r rt c w =
    (case auth_identity E r of Inl a \<Rightarrow> Some (a, w) | Inr i \<Rightarrow> rt_Handler rt (c\<lparr>gin_Identity := Some i\<rparr>) w)"
  using zone_routes_guarded [OF assms] by (simp add: run_route_def)

text \<open>A token that is refused with an error status gives no access.\<close>

lemma identity_refused:
  assumes "\<forall>code m. jwt_Claims (au_jwt E) r = Inl (code, m) \<longrightarrow> 400 \<le> code" and "auth_identity E r = Inl a"
  shows "\<not> granted a"
  using assms
  by (auto simp: auth_identity_def IdentityHandler_def Unauthorized_def split: sum.splits option.splits prod.splits)

definition changes :: "auth_env \<Rightarrow> 'c endpoint \<Rightarrow> bool" where
  "changes E e \<longleftrightarrow> (\<exists>h cs. e = on_db h \<and> (\<forall>c. handles (au_sql E) c (\<lambda>_. cs c) (h c)))"

lemma changes_intro: "(\<And>c. handles (au_sql E) c (\<lambda>_. cs c) (h c)) \<Longrightarrow> changes E (on_db h)"
  by (auto simp: changes_def)

lemma handlers_change:
  "changes E (on_db (zone_addZone (au_api E)))"
  "changes E (on_db (zone_updateZone (au_api E)))"
  "changes E (on_db (zone_deleteZone (au_api E)))"
  "changes E (on_db (zone_importZone (au_api E)))"
  "changes E (on_db (zone_addLocation (au_api E)))"
  "changes E (on_db (zone_updateLocation (au_api E)))"
  "changes E (on_db (zone_deleteLocation (au_api E)))"
  "changes E (on_db (zone_addRecordSet (au_api E)))"
  "changes E (on_db (zone_updateRecordSet (au_api E)))"
  "changes E (on_db (zone_deleteRecordSet (au_api E)))"
  by (rule changes_intro, rule change_handlers)+

lemma zone_routes_change:
  assumes "rt \<in> set (zone_RegisterHandlers C ex now E)" and "rt_Method rt \<noteq> ''GET''"
  shows "changes E (rt_Handler rt)"
  using assms by (auto simp: zone_RegisterHandlers_def Let_def handlers_change)

text \<open>
  C4: an API request that changes a zone is carried out and recorded, or has no effect.  Every request below \<open>/zones\<close> that
  is not a \<open>GET\<close> gets an answer.  When the answer grants it, the user of the token performed one
  change and exactly one event with the next revision was added to the log.  When the answer is an
  error, the tables are as before, provided that a commit that fails has not been applied.
\<close>

theorem request_recorded:
  assumes "commits_cleanly (au_sql E)" and "rq_Path r = ''zones'' # p" and "rq_Method r \<noteq> ''GET''"
    and rejects: "\<forall>code m. jwt_Claims (au_jwt E) r = Inl (code, m) \<longrightarrow> 400 \<le> code"
  shows "\<exists>a w'. ServeHTTP C ex now E r w = Some (a, w') \<and> w_mails w' = w_mails w \<and>
    (if granted a
     then \<exists>i c zoneId j. auth_identity E r = Inr i \<and> perform (au_sql E) (id_Id i) c (w_db w) = (Inr (), w_db w') \<and>
       x_Marshal (au_sql E) (snd (change_event c)) = Inr j \<and>
       t_Events (db_tables (w_db w')) = t_Events (db_tables (w_db w)) @
         [\<lparr>ev_Revision = db_revision (w_db w), ev_ZoneId = zoneId, ev_Type = fst (change_event c), ev_Value = x_column (au_sql E) j\<rparr>]
     else db_tables (w_db w') = db_tables (w_db w))"
  using assms(2)
proof (cases rule: zone_route_cases [of r p C ex now E w])
  case (route rt params)
  have "changes E (rt_Handler rt)" using zone_routes_change route(1,2) assms(3) by metis
  then obtain h cs where h: "rt_Handler rt = on_db h" "\<And>c. handles (au_sql E) c (\<lambda>_. cs c) (h c)"
    by (auto simp: changes_def)
  show ?thesis
  proof (cases "auth_identity E r")
    case (Inl a)
    then have "\<not> granted a" by (rule identity_refused [OF rejects])
    then show ?thesis using Inl route by (simp add: run_guarded)
  next
    case (Inr i)
    let ?c = "(gin_request r params)\<lparr>gin_Identity := Some i\<rparr>"
    obtain a s' where run: "h ?c (w_db w) = (a, s')" by (cases "h ?c (w_db w)")
    have S: "ServeHTTP C ex now E r w = Some (a, w\<lparr>w_db := s'\<rparr>)"
      using route(4) Inr h(1) run by (simp add: run_guarded [OF route(1)] on_db_def)
    have "handles (au_sql E) ?c (\<lambda>_. cs ?c) (h ?c)" by (rule h(2))
    then have out: "id_Id i = [] \<and> \<not> granted a \<and> s' = w_db w \<or> outcome (au_sql E) (id_Id i) (cs ?c) (w_db w) (a, s')"
      using run by (auto simp: handles_def split: if_splits dest!: spec [of _ "w_db w"])
    show ?thesis
    proof (cases "granted a")
      case True
      then obtain c where c: "perform (au_sql E) (id_Id i) c (w_db w) = (Inr (), s')"
        using out by (auto simp: outcome_def)
      from perform_settled [of "au_sql E" "w_db w" c "id_Id i"] c
      obtain z where "event_added (au_sql E) z (change_event c) (w_db w) s'" by (auto simp: settled_def)
      then show ?thesis using S True Inr c by (auto simp: event_added_def)
    next
      case False
      have "db_tables s' = db_tables (w_db w)" if "perform (au_sql E) (id_Id i) c (w_db w) = (Inl e, s')" for c e
        using perform_settled [of "au_sql E" "w_db w" c "id_Id i"] that assms(1) by (simp add: settled_def)
      then have "db_tables s' = db_tables (w_db w)" using False out by (auto simp: outcome_def)
      then show ?thesis using S False by simp
    qed
  qed
qed simp_all

section \<open>The zones of others\<close>

lemma refused_queries:
  assumes "\<not> owns X (db_tables s) userId z" and "userId \<noteq> []"
  shows "refused X s (db_GetZone X userId z s)"
    "refused X s (db_GetLocations X userId z st n q asc s)"
    "refused X s (db_GetLocation X userId z l s)"
    "refused X s (db_GetRecordSets X userId z l s)"
    "refused X s (db_GetRecordSet X userId z l ty s)"
  using assms unfolding db_GetZone_def db_GetLocations_def db_GetLocation_def db_GetRecordSets_def db_GetRecordSet_def
  by (auto simp: EmptyObjectId_def intro!: refused_rules)

definition denied :: "DataBase \<Rightarrow> http_answer api_op \<Rightarrow> bool" where
  "denied s m \<longleftrightarrow> snd (run_handler m s) = s \<and> \<not> granted (fst (run_handler m s))"

lemma denied_refused: "refused X s (m s) \<Longrightarrow> denied s (api_bind (from_db m) f)"
  by (auto simp: denied_def refused_def run_handler_def api_bind_def from_db_eq split: prod.splits)

lemma denied_bind: "silent m \<Longrightarrow> (\<And>x. denied s (f x)) \<Longrightarrow> denied s (api_bind m f)"
proof -
  assume m: "silent m" and f: "\<And>x. denied s (f x)"
  obtain r s' where r: "m s = (r, s')" by (cases "m s")
  then have "s' = s" "\<And>a. r = Inl a \<Longrightarrow> \<not> granted a" using m by (auto simp: silent_def)
  then show "denied s (api_bind m f)"
    using r f by (cases r) (auto simp: denied_def run_handler_def api_bind_def)
qed

text \<open>Handlers that give nothing to a user who does not own the zone.\<close>

definition denies :: "sql_env \<Rightarrow> gin_context \<Rightarrow> api_handler \<Rightarrow> bool" where
  "denies X c h \<longleftrightarrow> (\<forall>s i. gin_Identity c = Some i \<longrightarrow>
     id_Id i = [] \<or> \<not> owns X (db_tables s) (id_Id i) (Param c zoneNameKey) \<longrightarrow> snd (h s) = s \<and> \<not> granted (fst (h s)))"

lemma denies_user:
  assumes "\<And>s userId. userId \<noteq> [] \<Longrightarrow> \<not> owns X (db_tables s) userId (Param c zoneNameKey) \<Longrightarrow> denied s (f userId)"
  shows "denies X c (run_handler (api_bind (user_of c) f))"
  unfolding denies_def
proof (intro allI impI)
  fix s :: DataBase and i :: IdentityData
  assume i: "gin_Identity c = Some i" and "id_Id i = [] \<or> \<not> owns X (db_tables s) (id_Id i) (Param c zoneNameKey)"
  then show "snd (run_handler (api_bind (user_of c) f) s) = s \<and> \<not> granted (fst (run_handler (api_bind (user_of c) f) s))"
    using assms [of "id_Id i" s] by (auto simp: run_handler_def api_bind_def user_of_eq status_defs denied_def)
qed

lemma denied_zone: "denied s (f (Param c zoneNameKey)) \<Longrightarrow> denied s (api_bind (param_of c zoneNameKey m) f)"
  by (auto simp: denied_def param_of_def api_bind_def api_lift_def run_handler_def status_defs)

lemma denies_zone:
  assumes "\<And>s userId. userId \<noteq> [] \<Longrightarrow> \<not> owns X (db_tables s) userId (Param c zoneNameKey) \<Longrightarrow>
    denied s (f userId (Param c zoneNameKey))"
  shows "denies X c (in_zone c m f)"
  unfolding in_zone_def by (intro denies_user denied_zone assms)

lemma denies_location:
  assumes "\<And>s userId l. userId \<noteq> [] \<Longrightarrow> \<not> owns X (db_tables s) userId (Param c zoneNameKey) \<Longrightarrow>
    denied s (f userId (Param c zoneNameKey) l)"
  shows "denies X c (in_location c f)"
  unfolding in_location_def by (intro denies_zone denied_bind silent_rules assms)

lemma read_handlers_deny:
  "denies (a_sql A) c (zone_getZone A c)"
  "denies (a_sql A) c (zone_getLocations A c)"
  "denies (a_sql A) c (zone_getLocation A c)"
  "denies (a_sql A) c (zone_getRecordSets A c)"
  "denies (a_sql A) c (zone_getRecordSet A c)"
  "denies (a_sql A) c (export_at_once A c)"
  unfolding zone_getZone_def zone_getLocations_def zone_getLocation_def zone_getRecordSets_def zone_getRecordSet_def
    export_at_once_def
  by (intro denies_user denies_zone denies_location denied_zone denied_bind [OF silent_steps(3)] denied_bind [OF silent_steps(4)]
      denied_refused [where X = "a_sql A"] refused_queries; assumption)+

lemma changes_deny:
  assumes "handles X c (\<lambda>_. zone_changes (Param c zoneNameKey)) h"
  shows "denies X c h"
  unfolding denies_def
proof (intro allI impI)
  fix s :: DataBase and i :: IdentityData
  assume i: "gin_Identity c = Some i" and foreign: "id_Id i = [] \<or> \<not> owns X (db_tables s) (id_Id i) (Param c zoneNameKey)"
  have refused: "s' = s \<and> (\<forall>x. r \<noteq> Inr x)"
    if "ch \<in> zone_changes (Param c zoneNameKey)" "id_Id i \<noteq> []" "perform X (id_Id i) ch s = (r, s')" for ch r s'
    using that foreign perform_refused [of X s "id_Id i" ch] by (auto simp: zone_changes_def EmptyObjectId_def refused_def)
  then show "snd (h s) = s \<and> \<not> granted (fst (h s))"
    using assms [unfolded handles_def, rule_format, of s] i
    by (auto simp: outcome_def split: if_splits prod.splits dest: refused)
qed

lemma change_handlers_deny:
  "denies (a_sql A) c (zone_updateZone A c)"
  "denies (a_sql A) c (zone_deleteZone A c)"
  "denies (a_sql A) c (zone_importZone A c)"
  "denies (a_sql A) c (zone_addLocation A c)"
  "denies (a_sql A) c (zone_updateLocation A c)"
  "denies (a_sql A) c (zone_deleteLocation A c)"
  "denies (a_sql A) c (zone_addRecordSet A c)"
  "denies (a_sql A) c (zone_updateRecordSet A c)"
  "denies (a_sql A) c (zone_deleteRecordSet A c)"
  by (rule changes_deny, rule change_handlers)+

definition shut :: "auth_env \<Rightarrow> 'c endpoint \<Rightarrow> bool" where
  "shut E e \<longleftrightarrow> (\<forall>c w i. gin_Identity c = Some i \<longrightarrow>
     id_Id i = [] \<or> \<not> owns (au_sql E) (db_tables (w_db w)) (id_Id i) (Param c zoneNameKey) \<longrightarrow>
     (\<exists>a. e c w = Some (a, w) \<and> \<not> granted a))"

lemma shut_db:
  assumes "\<And>c. denies (au_sql E) c (h c)"
  shows "shut E (on_db h)"
  unfolding shut_def
proof (intro allI impI)
  fix c :: gin_context and w :: "'c api_world" and i :: IdentityData
  assume "gin_Identity c = Some i"
    and "id_Id i = [] \<or> \<not> owns (au_sql E) (db_tables (w_db w)) (id_Id i) (Param c zoneNameKey)"
  with assms [of c] have "snd (h c (w_db w)) = w_db w \<and> \<not> granted (fst (h c (w_db w)))"
    unfolding denies_def by blast
  then show "\<exists>a. on_db h c w = Some (a, w) \<and> \<not> granted a"
    by (cases "h c (w_db w)") (simp add: on_db_def)
qed

lemma shut_export: "shut E (on_export (au_api E))"
proof -
  have "on_export (au_api E) = on_db (export_at_once (au_api E))"
    by (simp add: on_export_def on_db_def export_eq fun_eq_iff)
  then show ?thesis using shut_db [OF read_handlers_deny(6)] by metis
qed

lemma match_last: "match_path [Seg a] p = Some q \<longleftrightarrow> p = [a] \<and> q = []"
  by (cases p rule: remdups_adj.cases) auto

lemma zone_routes_shut:
  assumes "rt \<in> set (zone_RegisterHandlers C ex now E)" and "match_path (rt_Pattern rt) (''zones'' # z # p) = Some params"
    and "p \<noteq> [''active_ns'']"
  shows "shut E (rt_Handler rt) \<and> map_of params zoneNameKey = Some z"
  using assms
  by (auto simp: zone_RegisterHandlers_def Let_def shut_db read_handlers_deny change_handlers_deny shut_export match_last)


section \<open>The update of a record set\<close>

text \<open>What a granted request to change a record set has done: each check was passed, and the operation succeeded.\<close>

lemma granted_bind:
  assumes "silent m" and "run_handler (api_bind m f) s = (a, s')" and "granted a"
  obtains x where "m s = (Inr x, s)" and "run_handler (f x) s = (a, s')"
proof -
  obtain r t where r: "m s = (r, t)" by (cases "m s")
  then have "t = s" "\<And>b. r = Inl b \<Longrightarrow> \<not> granted b" using assms(1) by (auto simp: silent_def)
  then show thesis
    using r assms(2,3) that by (cases r) (auto simp: run_handler_def api_bind_def)
qed

lemma step_results:
  "user_of c s = (Inr u, s') \<longleftrightarrow> s' = s \<and> u \<noteq> [] \<and> (\<exists>i. gin_Identity c = Some i \<and> u = id_Id i)"
  "param_of c k m s = (Inr v, s') \<longleftrightarrow> s' = s \<and> v \<noteq> [] \<and> v = Param c k"
  "type_of T c s = (Inr v, s') \<longleftrightarrow> s' = s \<and> rtypeValid T v \<and> v = Param c recordTypeKey"
  "bind_request m d q s = (Inr x, s') \<longleftrightarrow> s' = s \<and> d = Inr x \<and> q x"
  unfolding user_of_eq param_of_def type_of_def bind_request_def
  by (auto simp: api_lift_def split: option.splits sum.splits)

lemma granted_change:
  assumes "run_handler (api_bind (from_db m) (\<lambda>x. answer (g x))) s = (a, s')" and "granted a"
  shows "\<exists>x. m s = (Inr x, s')"
  using assms
  by (cases "m s"; cases "fst (m s)") (auto simp: run_handler_def api_bind_def from_db_eq answer_def api_lift_def)

lemma update_record_set_granted:
  assumes "zone_updateRecordSet A c s = (a, s')" and "granted a"
  shows "\<exists>i req. gin_Identity c = Some i \<and>
    a_UpdateRecordSetRequest A (gin_Body c) (TypeStrToRRSet (a_tables A) (Param c recordTypeKey)) = Inr req \<and>
    perform (a_sql A) (id_Id i) (C_UpdateRecordSet \<lparr>ru_ZoneName = Param c zoneNameKey, ru_Location = Param c locationKey,
      ru_Type = Param c recordTypeKey, ru_Value = urq_Value req, ru_Enabled = urq_Enabled req\<rparr>) s = (Inr (), s')"
  using assms(1) unfolding zone_updateRecordSet_def in_location_def in_zone_def
  by (elim granted_bind [OF silent_steps(1) _ assms(2)] granted_bind [OF silent_steps(2) _ assms(2)]
      granted_bind [OF silent_steps(3) _ assms(2)] granted_bind [OF silent_steps(4) _ assms(2)])
    (auto simp: step_results dest!: granted_change [OF _ assms(2)])

lemma put_record_set:
  assumes r: "rq_Method r = ''PUT''" "rq_Path r = [''zones'', z, ''locations'', l, ''rrsets'', ty]"
    and rejects: "\<forall>code m. jwt_Claims (au_jwt E) r = Inl (code, m) \<longrightarrow> 400 \<le> code"
    and a: "ServeHTTP C ex now E r w = Some (a, w')" "granted a"
  shows "\<exists>i req. auth_identity E r = Inr i \<and>
    a_UpdateRecordSetRequest (au_api E) (rq_Body r) (TypeStrToRRSet (a_tables (au_api E)) ty) = Inr req \<and>
    perform (au_sql E) (id_Id i) (C_UpdateRecordSet \<lparr>ru_ZoneName = z, ru_Location = l, ru_Type = ty,
      ru_Value = urq_Value req, ru_Enabled = urq_Enabled req\<rparr>) (w_db w) = (Inr (), w_db w')"
proof -
  let ?c = "gin_request r [(zoneNameKey, z), (locationKey, l), (recordTypeKey, ty)]"
  have S: "ServeHTTP C ex now E r w = (case auth_identity E r of Inl a \<Rightarrow> Some (a, w)
      | Inr i \<Rightarrow> on_db (zone_updateRecordSet (au_api E)) (?c\<lparr>gin_Identity := Some i\<rparr>) w)"
    by (simp add: ServeHTTP_def auth_RegisterHandlers_def zone_RegisterHandlers_def Let_def r run_route_def split: sum.split)
  show ?thesis
  proof (cases "auth_identity E r")
    case (Inl b)
    then show ?thesis using S a identity_refused [OF rejects Inl] by simp
  next
    case (Inr i)
    then obtain s' where "zone_updateRecordSet (au_api E) (?c\<lparr>gin_Identity := Some i\<rparr>) (w_db w) = (a, s')" "w_db w' = s'"
      using S a(1) by (auto simp: on_db_def split: prod.splits)
    from update_record_set_granted [OF this(1) a(2)] this(2) Inr show ?thesis
      by (auto simp: gin_request_def Param_def zoneNameKey_def locationKey_def recordTypeKey_def)
  qed
qed

section \<open>A server\<close>

text \<open>A server whose requests have one value as their body, and whose tokens are the ids of the users.\<close>

definition toy_api :: api_env where
  "toy_api = \<lparr>a_sql = toy_sql, a_nameServer = ''ns.'', a_ListRequest = (\<lambda>_. Inr \<lparr>lq_Start = 0, lq_Count = 100, lq_Ascending = True, lq_Q = []\<rparr>),
     a_NewZoneRequest = (\<lambda>b. Inr \<lparr>nzq_Name = b, nzq_Enabled = True, nzq_Dnssec = False, nzq_CNameFlattening = False\<rparr>),
     a_UpdateZoneRequest = (\<lambda>_. Inr \<lparr>uzq_Enabled = True, uzq_Dnssec = False, uzq_CNameFlattening = False, uzq_SOA = zero_SOA\<rparr>),
     a_NewLocationRequest = (\<lambda>b. Inr \<lparr>nlq_Name = b, nlq_Enabled = True\<rparr>),
     a_UpdateLocationRequest = (\<lambda>_. Inr \<lparr>ulq_Enabled = True\<rparr>),
     a_RecordRequestHead = (\<lambda>b. Inr (b, True)), a_UpdateRecordSetRequest = (\<lambda>_ _. Inr \<lparr>urq_Value = Some toy_txt, urq_Enabled = True\<rparr>),
     a_ZoneParser = (\<lambda>_ _. ([], None)), a_crypto = toy_crypto, a_Fqdn = append_dot, a_String = (\<lambda>_. ''rr''),
     a_date = (2024, 1, 2), a_rand = (0, 1), a_stamp = ''.zone''\<rparr>"

definition toy_jwt :: jwt_api where
  "toy_jwt = \<lparr>jwt_Claims = (\<lambda>r. if rq_Token r = [] then Inl (401, ''no token'')
       else Inr [(''identity'', rq_Token r), (''email'', rq_Token r)]),
     jwt_Login = (\<lambda>r. case r of Inl _ \<Rightarrow> Inl (401, ''failed'') | Inr claims \<Rightarrow> Inr (the (map_of claims ''identity''), ''later'')),
     jwt_Refresh = (\<lambda>r. Inr (rq_Token r, ''later'')), jwt_Logout = 200\<rparr>"

definition toy_auth :: auth_env where
  "toy_auth = \<lparr>au_api = toy_api,
     au_smtp = \<lparr>sm_SplitHostPort = (\<lambda>a. Inr a), sm_ExecuteTemplate = (\<lambda>_ _ code. Inr code), sm_Address = (\<lambda>_ a. a),
       sm_range = id, sm_fails = (\<lambda>_. None)\<rparr>,
     au_mailer = \<lparr>mc_Address = ''127.0.0.1:25'', mc_FromEmail = ''noreply@z42.com'', mc_Username = [], mc_Password = [],
       mc_WebServer = ''www.z42.com'', mc_ApiServer = ''api.z42.com''\<rparr>,
     au_jwt = toy_jwt, au_serverName = ''www.z42.com'', au_captchaServer = ''captcha'', au_secretKey = ''key'',
     au_PostForm = (\<lambda>_ _ t. Inr (Inr t)), au_captchaResponse = (\<lambda>_. Inr \<lparr>cap_Success = True, cap_Action = ''login''\<rparr>),
     au_captchaToken = (\<lambda>b. Inr b), au_NewUser = (\<lambda>b. Inr \<lparr>anu_Email = b, anu_Password = ''p''\<rparr>),
     au_loginCredentials = (\<lambda>b. Inr \<lparr>lc_Email = b, lc_Password = ''p''\<rparr>), au_verification = (\<lambda>q. Inr q),
     au_recovery = (\<lambda>b. Inr b), au_passwordReset = (\<lambda>b. Inr \<lparr>pr_Password = ''q'', pr_Code = b\<rparr>),
     au_NewAPIKeyRequest = (\<lambda>b. Inr \<lparr>nkq_Name = b, nkq_ZoneName = ''z.'', nkq_Scope = ''acme'', nkq_Enabled = True\<rparr>),
     au_UpdateAPIKeyRequest = (\<lambda>b. Inr \<lparr>ukq_Scope = b, ukq_Enabled = True\<rparr>), au_code = ''code''\<rparr>"

definition toy_request :: "string \<Rightarrow> string list \<Rightarrow> string \<Rightarrow> string \<Rightarrow> http_request" where
  "toy_request verb path token body =
     \<lparr>rq_Method = verb, rq_Path = path, rq_Query = body, rq_Body = body, rq_File = NoFile, rq_Token = token\<rparr>"

definition toy_world :: "(string \<Rightarrow> (RR list \<times> int) option) api_world" where
  "toy_world = \<lparr>w_db = toy_db, w_mails = [], w_upstream = NewUpstream (\<lambda>_. None) []\<rparr>"

abbreviation toy_serve :: "http_request \<Rightarrow> (string \<Rightarrow> (RR list \<times> int) option) api_world \<Rightarrow>
    (http_answer \<times> (string \<Rightarrow> (RR list \<times> int) option) api_world) option" where
  "toy_serve r w \<equiv> ServeHTTP (map_go_cache 0) toy_exchange 0 toy_auth r w"

theorem request_recorded_witness:
  "\<exists>a w'. toy_serve (toy_request ''DELETE'' [''zones'', ''z.''] ''u'' []) toy_world = Some (a, w') \<and>
     granted a \<and> length (t_Events (db_tables (w_db w'))) = 1"
proof -
  let ?r = "toy_request ''DELETE'' [''zones'', ''z.''] ''u'' []"
  have X: "au_sql toy_auth = toy_sql" by (simp add: toy_auth_def toy_api_def)
  have g: "map_option (granted \<circ> fst) (toy_serve ?r toy_world) = Some True" by code_simp
  have "commits_cleanly (au_sql toy_auth)" by (simp add: X commits_cleanly_def)
  moreover have "rq_Path ?r = ''zones'' # [''z.'']" "rq_Method ?r \<noteq> ''GET''" by (simp_all add: toy_request_def)
  moreover have "\<forall>code m. jwt_Claims (au_jwt toy_auth) ?r = Inl (code, m) \<longrightarrow> 400 \<le> code"
    by (simp add: toy_auth_def toy_jwt_def)
  ultimately obtain a w' where a: "toy_serve ?r toy_world = Some (a, w')" and "if granted a
     then \<exists>i c zoneId j. auth_identity toy_auth ?r = Inr i \<and> perform (au_sql toy_auth) (id_Id i) c (w_db toy_world) = (Inr (), w_db w') \<and>
       x_Marshal (au_sql toy_auth) (snd (change_event c)) = Inr j \<and>
       t_Events (db_tables (w_db w')) = t_Events (db_tables (w_db toy_world)) @
         [\<lparr>ev_Revision = db_revision (w_db toy_world), ev_ZoneId = zoneId, ev_Type = fst (change_event c), ev_Value = x_column (au_sql toy_auth) j\<rparr>]
     else db_tables (w_db w') = db_tables (w_db toy_world)"
    using request_recorded [of toy_auth ?r "[''z.'']" "map_go_cache 0" toy_exchange 0 toy_world] by blast
  moreover have "granted a" using g a by simp
  ultimately show ?thesis by (auto simp: toy_world_def toy_tables_def)
qed


end
