(* ===== verification/Accounts.thy ===== *)
theory Accounts
  imports ControlPlaneProps
begin

text \<open>
  Users of the control plane: what a verification code allows, and what the random codes and
  keys consist of.
\<close>

section \<open>Random strings\<close>

text \<open>The groups of six bits in the order in which they are taken.\<close>

definition bit_group :: "(nat \<Rightarrow> int) \<Rightarrow> nat \<Rightarrow> nat" where
  "bit_group src m = nat (src (m div 10) div 64 ^ (m mod 10) mod 64)"

text \<open>The loop before it takes group \<open>m\<close>, when \<open>i\<close> letters are missing.\<close>

definition loop_at :: "(nat \<Rightarrow> int) \<Rightarrow> nat \<Rightarrow> nat \<Rightarrow> string \<Rightarrow> string option" where
  "loop_at src m i b =
     random_loop src (Suc (m div 10)) i (src (m div 10) div 64 ^ (m mod 10)) (10 - m mod 10) b"

lemma loop_refill: "random_loop src k (Suc i) c 0 b = random_loop src (Suc k) (Suc i) (src k) 10 b"
  by (subst (1 2) random_loop.simps) simp

lemma loop_done: "random_loop src k 0 c remain b = Some b"
  by (subst random_loop.simps) simp

lemma loop_next:
  "random_loop src (Suc (m div 10)) i (src (m div 10) div 64 ^ (m mod 10) div 64) (9 - m mod 10) b = loop_at src (Suc m) i b"
proof (cases "m mod 10 = 9")
  case True
  then have m: "Suc m mod 10 = 0" "Suc m div 10 = Suc (m div 10)" by (simp_all add: mod_Suc div_Suc)
  then show ?thesis using True loop_refill by (cases i) (simp_all add: loop_at_def loop_done)
next
  case False
  moreover have "m mod 10 < 10" by simp
  ultimately have m: "Suc m mod 10 = Suc (m mod 10)" "Suc m div 10 = m div 10" "m mod 10 < 9"
    by (simp_all add: mod_Suc div_Suc)
  have "src (m div 10) div 64 ^ (m mod 10) div 64 = src (m div 10) div 64 ^ Suc (m mod 10)"
    unfolding power_Suc2 by (rule zdiv_zmult2_eq [symmetric]) simp
  moreover have "9 - m mod 10 = 10 - Suc (m mod 10)" by simp
  ultimately show ?thesis by (simp add: loop_at_def m)
qed

lemma loop_take:
  "random_loop src k (Suc i) cache (Suc n) b =
     (if nat (cache mod 64) < length letterBytes
      then random_loop src k i (cache div 64) n (letterBytes ! nat (cache mod 64) # b)
      else random_loop src k (Suc i) (cache div 64) n b)"
  by (subst random_loop.simps) (simp add: Let_def)

lemma loop_at_step:
  "loop_at src m (Suc i) b =
     (if bit_group src m < length letterBytes then loop_at src (Suc m) i (letterBytes ! bit_group src m # b)
      else loop_at src (Suc m) (Suc i) b)"
proof -
  have "10 - m mod 10 = Suc (9 - m mod 10)" by presburger
  then show ?thesis
    by (simp only: loop_at_def [of src m] loop_take loop_next bit_group_def)
qed

lemma loop_reaches:
  assumes "\<forall>k. \<exists>m \<ge> k. bit_group src m < length letterBytes"
  shows "\<exists>b'. loop_at src m i b = Some (b' @ b) \<and> length b' = i \<and> set b' \<subseteq> set letterBytes"
proof (induction i arbitrary: m b)
  case 0
  then show ?case by (simp add: loop_at_def loop_done)
next
  case (Suc i)
  note shorter = Suc.IH
  obtain d where "bit_group src (m + d) < length letterBytes" using assms le_iff_add by metis
  then show ?case
  proof (induction d arbitrary: m)
    case 0
    then have step: "loop_at src m (Suc i) b = loop_at src (Suc m) i (letterBytes ! bit_group src m # b)"
      by (simp add: loop_at_step)
    obtain b' where "loop_at src (Suc m) i (letterBytes ! bit_group src m # b) = Some (b' @ letterBytes ! bit_group src m # b)"
      "length b' = i" "set b' \<subseteq> set letterBytes" using shorter by blast
    then show ?case using step 0 by (intro exI [of _ "b' @ [letterBytes ! bit_group src m]"]) simp
  next
    case (Suc d)
    show ?case
    proof (cases "bit_group src m < length letterBytes")
      case True
      obtain b' where "loop_at src (Suc m) i (letterBytes ! bit_group src m # b) = Some (b' @ letterBytes ! bit_group src m # b)"
        "length b' = i" "set b' \<subseteq> set letterBytes" using shorter by blast
      then show ?thesis using True by (intro exI [of _ "b' @ [letterBytes ! bit_group src m]"]) (simp add: loop_at_step)
    next
      case False
      then show ?thesis using Suc.IH [of "Suc m"] Suc.prems by (simp add: loop_at_step)
    qed
  qed
qed

text \<open>
  Random strings.  When the generator keeps giving groups of bits that are letters, a random string
  of \<open>n\<close> letters is found, and it has exactly \<open>n\<close> characters, all of them letters or digits.
\<close>

lemma random_string_letters:
  assumes "\<forall>k. \<exists>m \<ge> k. bit_group src m < length letterBytes"
  shows "\<exists>b. randomString src n = Some b \<and> length b = n \<and> set b \<subseteq> set letterBytes"
  using loop_reaches [OF assms, of 0 n "[]"] by (simp add: loop_at_def randomString_def)

section \<open>Verification codes\<close>

definition code_rows :: "sql_env \<Rightarrow> string \<Rightarrow> tables \<Rightarrow> VerificationRow list" where
  "code_rows X code t = filter (\<lambda>v. same X (vr_Code v) code) (t_Verification t)"

lemma verified_once:
  assumes "applyVerifiedAction X code ty action s = (Inr (), s')"
  shows "\<exists>v \<in> set (code_rows X code (db_tables s)). \<exists>u \<in> set (t_User (db_tables s)). \<exists>s1 s2.
    vr_Type v = ty \<and> same X (u_Id u) (vr_UserId v) \<and> code_rows X code (db_tables s') = [] \<and>
    db_tables s1 = db_tables s \<and> action (u_Id u) s1 = (Inr (), s2) \<and> t_User (db_tables s') = t_User (db_tables s2)"
proof -
  let ?t = "db_tables s" and ?s1 = "s\<lparr>db_saved := db_tables s\<rparr>"
  let ?f = "\<lambda>t. andThen (first_row (filter (\<lambda>v. same X (vr_Code v) code) (t_Verification t))) (\<lambda>v.
        case filter (\<lambda>u. same X (u_Id u) (vr_UserId v)) (t_User t) of
          [] \<Rightarrow> Inl null_error
        | u # _ \<Rightarrow> Inr (u_Id u, vr_Type v))"
  obtain ui st where q: "?f ?t = Inr (ui, st)" and st: "st = ty" and
    tx: "withTransaction X (db_bind (action ui) (\<lambda>_. Exec X [''DELETE FROM Verification'', code] (\<lambda>t.
          Inr (t\<lparr>t_Verification := filter (\<lambda>v. \<not> same X (vr_Code v) code) (t_Verification t)\<rparr>)))) s = (Inr (), s')"
    using assms by (auto simp: applyVerifiedAction_def db_bind_def query_def db_fail_def
        split: option.splits sum.splits if_splits prod.splits)
  from q obtain v where fr: "first_row (filter (\<lambda>v. same X (vr_Code v) code) (t_Verification ?t)) = Inr v"
    and q': "(case filter (\<lambda>u. same X (u_Id u) (vr_UserId v)) (t_User ?t) of
        [] \<Rightarrow> Inl null_error | u # _ \<Rightarrow> Inr (u_Id u, vr_Type v)) = Inr (ui, st)"
    by (auto simp: andThen_Inr_iff)
  from q' obtain u us where u: "filter (\<lambda>u. same X (u_Id u) (vr_UserId v)) (t_User ?t) = u # us" "ui = u_Id u" "st = vr_Type v"
    by (cases "filter (\<lambda>u. same X (u_Id u) (vr_UserId v)) (t_User ?t)") auto
  from fr have v: "v \<in> set (code_rows X code ?t)" using first_row_mem by (fastforce simp: code_rows_def)
  have "u \<in> set (filter (\<lambda>u. same X (u_Id u) (vr_UserId v)) (t_User ?t))" by (simp add: u(1))
  then have us: "u \<in> set (t_User ?t)" "same X (u_Id u) (vr_UserId v)" by auto
  obtain s2 where s2: "action ui ?s1 = (Inr (), s2)"
    and s': "db_tables s' = (db_tables s2)\<lparr>t_Verification := filter (\<lambda>v. \<not> same X (vr_Code v) code) (t_Verification (db_tables s2))\<rparr>"
    using tx by (auto simp: withTransaction_def db_bind_def Exec_def
        split: option.splits sum.splits prod.splits if_splits)
  show ?thesis
  proof (intro bexI exI conjI)
    show "vr_Type v = ty" using st u(3) by simp
    show "code_rows X code (db_tables s') = []" by (simp add: s' code_rows_def)
    show "action (u_Id u) ?s1 = (Inr (), s2)" using s2 u(2) by simp
  qed (use us v s' in simp_all)
qed

text \<open>Without a row for the code nothing happens.\<close>

lemma unknown_code: "code_rows X code (db_tables s) = [] \<Longrightarrow> \<exists>e. applyVerifiedAction X code ty action s = (Inl e, s)"
  by (auto simp: applyVerifiedAction_def db_bind_def query_def code_rows_def first_row_def split: option.splits)


definition toy_signup :: DataBase where
  "toy_signup = snd (db_AddUser toy_sql ''code'' \<lparr>nu_Email = ''v@z'', nu_Password = ''p'', nu_Status = UserStatusPending\<rparr> toy_db)"


end
