(* ===== verification/AccountRequests.thy ===== *)
theory AccountRequests
  imports ZoneRequests Accounts
begin

text \<open>
  The way of an account through the API: signup, verification by mail, and login.
\<close>

section \<open>A server without errors\<close>

definition healthy :: "sql_env \<Rightarrow> bool" where
  "healthy X \<longleftrightarrow> (\<forall>stmt t. x_fails X stmt t = None) \<and> (\<forall>t. x_commit X t = None)"

lemma healthy_exec: "healthy X \<Longrightarrow> Exec X stmt f s = (case f (db_tables s) of Inl e \<Rightarrow> (Inl e, s) | Inr t \<Rightarrow> (Inr (), s\<lparr>db_tables := t\<rparr>))"
  by (simp add: healthy_def Exec_def)

lemma healthy_query: "healthy X \<Longrightarrow> query X stmt f s = (f (db_tables s), s)"
  by (simp add: healthy_def query_def)

lemma healthy_transaction:
  "healthy X \<Longrightarrow> withTransaction X fn s =
     (case fn (s\<lparr>db_saved := db_tables s\<rparr>) of (Inl e, s) \<Rightarrow> (Inl e, s\<lparr>db_tables := db_saved s\<rparr>) | (Inr x, s) \<Rightarrow> (Inr x, s))"
  by (simp add: healthy_def withTransaction_def split: prod.splits sum.splits)

lemmas healthy_rules = healthy_exec healthy_query healthy_transaction

section \<open>The user that signs up\<close>

definition new_user :: "sql_env \<Rightarrow> DataBase \<Rightarrow> string \<Rightarrow> string \<Rightarrow> string \<Rightarrow> User" where
  "new_user X s email hash status =
     \<lparr>u_Id = x_uuid X (db_uuids s), u_Email = email, u_Password = hash, u_Status = status\<rparr>"

text \<open>Neither the address nor the next id is in use.\<close>

definition unknown_user :: "sql_env \<Rightarrow> DataBase \<Rightarrow> string \<Rightarrow> bool" where
  "unknown_user X s email \<longleftrightarrow> (\<forall>u \<in> set (t_User (db_tables s)).
     \<not> same X (u_Email u) email \<and> \<not> same X (u_Id u) (x_uuid X (db_uuids s)))"

lemma add_user:
  assumes "healthy X" and "x_hash X password = Inr hash" and "unknown_user X s email"
  shows "\<exists>s'. db_AddUser X code \<lparr>nu_Email = email, nu_Password = password, nu_Status = UserStatusPending\<rparr> s =
      (Inr (x_uuid X (db_uuids s), code), s') \<and>
    t_User (db_tables s') = t_User (db_tables s) @ [new_user X s email hash UserStatusPending] \<and>
    code_rows X code (db_tables s') = [\<lparr>vr_Code = code, vr_Type = VerificationTypeSignup, vr_UserId = x_uuid X (db_uuids s)\<rparr>]"
proof -
  have "\<not> (\<exists>u \<in> set (t_User (db_tables s)). same X (u_Id u) (x_uuid X (db_uuids s)) \<or> same X (u_Email u) email)"
    using assms(3) by (auto simp: unknown_user_def)
  then show ?thesis using assms(1,2)
    by (auto simp: db_AddUser_def Let_def db_bind_def db_lift_def HashPassword_def NewObjectId_def parsed_def healthy_rules addUser_def
        setVerification_def constrained_def has_user_def db_return_def new_user_def code_rows_def filter_empty_conv)
qed

lemma verify_user:
  assumes "healthy X" and "t_User (db_tables s) = us @ [u]" and "\<forall>v \<in> set us. \<not> same X (u_Id v) (u_Id u)"
    and "code_rows X code (db_tables s) = [\<lparr>vr_Code = code, vr_Type = VerificationTypeSignup, vr_UserId = u_Id u\<rparr>]"
  shows "\<exists>s'. db_Verify X code s = (Inr (), s') \<and> t_User (db_tables s') = us @ [u\<lparr>u_Status := UserStatusActive\<rparr>]"
proof -
  have "filter (\<lambda>w. same X (u_Id w) (u_Id u)) us = []" using assms(3) by (simp add: filter_empty_conv)
  moreover have "map (\<lambda>w. if same X (u_Id w) (u_Id u) then w\<lparr>u_Status := UserStatusActive\<rparr> else w) us = us"
    using assms(3) by (simp add: map_idI)
  ultimately show ?thesis using assms(1,2,4)
    by (simp add: db_Verify_def parsed_def applyVerifiedAction_def db_bind_def healthy_rules setUserStatus_def code_rows_def
        first_row_def andThen_def)
qed

lemma get_user:
  assumes "healthy X" and "t_User (db_tables s) = us @ [u]" and "\<forall>v \<in> set us. \<not> same X (u_Email v) email"
    and "u_Email u = email"
  shows "db_GetUser X email s = (Inr u, s)"
proof -
  have "filter (\<lambda>w. same X (u_Email w) email) us = []" using assms(3) by (simp add: filter_empty_conv)
  then show ?thesis using assms by (simp add: db_GetUser_def parsed_def getUser_def healthy_rules first_row_def)
qed

section \<open>From signup to login\<close>

text \<open>
  C12: an account is usable exactly after its address was verified.  A user signs up with an address that is not
  in use, on a server that works, and the mail goes out.  Then the mail holds the code of the account, the login is
  refused; the request to verify that code succeeds, and from then on the same credentials give the
  identity of the new user.
\<close>

theorem signup_verify_login:
  assumes "healthy (au_sql E)" and "unknown_user (au_sql E) (w_db w) email"
    and "x_hash (au_sql E) password = Inr hash" and "x_compare (au_sql E) hash password"
    and "au_NewUser E (gin_Body c1) = Inr \<lparr>anu_Email = email, anu_Password = password\<rparr>"
    and "au_loginCredentials E (gin_Body c2) = Inr \<lparr>lc_Email = email, lc_Password = password\<rparr>"
    and "au_verification E (gin_Query c3) = Inr (au_code E)"
    and "email \<noteq> []" and "password \<noteq> []" and "au_code E \<noteq> []"
    and "SendEMailVerification (au_smtp E) (au_mailer E) email email (au_code E) = None"
  shows "\<exists>a1 w1 a2 s2. auth_signup E c1 w = (a1, w1) \<and> granted a1 \<and> w_mails w1 = w_mails w @ [(email, au_code E)] \<and>
    Authenticator E c2 (w_db w1) = (Inl ErrFailedAuthentication, w_db w1) \<and>
    auth_verify E c3 (w_db w1) = (a2, s2) \<and> granted a2 \<and>
    Authenticator E c2 s2 = (Inr \<lparr>id_Id = x_uuid (au_sql E) (db_uuids (w_db w)), id_Email = email\<rparr>, s2)"
proof -
  let ?X = "au_sql E" and ?us = "t_User (db_tables (w_db w))"
  let ?u = "new_user ?X (w_db w) email hash"
  obtain s1 where s1: "db_AddUser ?X (au_code E) \<lparr>nu_Email = email, nu_Password = password, nu_Status = UserStatusPending\<rparr> (w_db w) =
      (Inr (x_uuid ?X (db_uuids (w_db w)), au_code E), s1)"
    and users: "t_User (db_tables s1) = ?us @ [?u UserStatusPending]"
    and code: "code_rows ?X (au_code E) (db_tables s1) =
      [\<lparr>vr_Code = au_code E, vr_Type = VerificationTypeSignup, vr_UserId = u_Id (?u UserStatusPending)\<rparr>]"
    using add_user [OF assms(1,3,2), of "au_code E"] by (auto simp: new_user_def)
  have ids: "\<forall>v \<in> set ?us. \<not> same ?X (u_Id v) (u_Id (?u st))" and emails: "\<forall>v \<in> set ?us. \<not> same ?X (u_Email v) email" for st
    using assms(2) by (auto simp: unknown_user_def new_user_def)
  obtain s2 where s2: "db_Verify ?X (au_code E) s1 = (Inr (), s2)"
    and active: "t_User (db_tables s2) = ?us @ [?u UserStatusActive]"
    using verify_user [OF assms(1) users ids code] by (auto simp: new_user_def)
  have "auth_signup E c1 w = (SuccessResponse StatusCreated
      ''You still have to verify your email address inorder to complete your account validation process. Please check your inbox and click the link emailed to you.''
      No_Data, w\<lparr>w_db := s1, w_mails := w_mails w @ [(email, au_code E)]\<rparr>)"
    using assms(5,8,9,11) s1 by (simp add: auth_signup_def api_bind_def bind_request_def api_lift_def from_db_eq)
  moreover have "Authenticator E c2 s1 = (Inl ErrFailedAuthentication, s1)"
    using get_user [OF assms(1) users emails] assms(6,8,9)
    by (simp add: Authenticator_def new_user_def UserStatusPending_def UserStatusActive_def)
  moreover have "auth_verify E c3 s1 = (HTML StatusOK ''verification-successful.tmpl'', s2)"
    using assms(7,10) s2 by (simp add: auth_verify_def run_handler_def api_bind_def bind_request_def api_lift_def)
  moreover have "Authenticator E c2 s2 = (Inr \<lparr>id_Id = x_uuid ?X (db_uuids (w_db w)), id_Email = email\<rparr>, s2)"
    using get_user [OF assms(1) active emails] assms(4,6,8,9)
    by (simp add: Authenticator_def new_user_def CheckPasswordHash_def)
  ultimately show ?thesis by (simp add: status_defs)
qed

theorem signup_verify_login_witness:
  "\<exists>a1 w1 a2 s2. auth_signup toy_auth (gin_request (toy_request ''POST'' [''auth'', ''signup''] [] ''v@z'') []) toy_world = (a1, w1) \<and>
     w_mails w1 = [(''v@z'', ''code'')] \<and>
     auth_verify toy_auth (gin_request (toy_request ''POST'' [''auth'', ''verify''] [] ''code'') []) (w_db w1) = (a2, s2) \<and>
     Authenticator toy_auth (gin_request (toy_request ''POST'' [''auth'', ''login''] [] ''v@z'') []) s2 =
       (Inr \<lparr>id_Id = ''id'', id_Email = ''v@z''\<rparr>, s2)"
proof -
  have X: "au_sql toy_auth = toy_sql" "au_code toy_auth = ''code''" "au_NewUser toy_auth = (\<lambda>b. Inr \<lparr>anu_Email = b, anu_Password = ''p''\<rparr>)"
    "au_loginCredentials toy_auth = (\<lambda>b. Inr \<lparr>lc_Email = b, lc_Password = ''p''\<rparr>)" "au_verification toy_auth = (\<lambda>q. Inr q)"
    by (simp_all add: toy_auth_def toy_api_def)
  have "healthy (au_sql toy_auth)" by (simp add: X healthy_def)
  moreover have "unknown_user (au_sql toy_auth) (w_db toy_world) ''v@z''" unfolding X by code_simp
  moreover have "x_hash (au_sql toy_auth) ''p'' = Inr ''hash of p''" "x_compare (au_sql toy_auth) ''hash of p'' ''p''"
    by (simp_all add: X toy_sql_def)
  moreover have "SendEMailVerification (au_smtp toy_auth) (au_mailer toy_auth) ''v@z'' ''v@z'' (au_code toy_auth) = None" by code_simp
  moreover have "x_uuid (au_sql toy_auth) (db_uuids (w_db toy_world)) = ''id''" by code_simp
  moreover have "w_mails toy_world = []" by (simp add: toy_world_def)
  ultimately show ?thesis
    using signup_verify_login [of toy_auth toy_world "''v@z''" "''p''" "''hash of p''"
        "gin_request (toy_request ''POST'' [''auth'', ''signup''] [] ''v@z'') []"
        "gin_request (toy_request ''POST'' [''auth'', ''login''] [] ''v@z'') []"
        "gin_request (toy_request ''POST'' [''auth'', ''verify''] [] ''code'') []"]
    by (fastforce simp: X gin_request_def toy_request_def)
qed

end
