(* ===== verification/ImportProps.thy ===== *)
theory ImportProps
  imports ZoneRequests
begin

text \<open>
  The import of a zone file: the records of the file are sorted into record sets by name and type.
\<close>

section \<open>Records and their kinds\<close>

text \<open>The type that goes with the Go type of a record.\<close>

fun dynamic_type :: "RR \<Rightarrow> uint16 option" where
  "dynamic_type (RR_A _ _) = Some TypeA"
| "dynamic_type (RR_AAAA _ _) = Some TypeAAAA"
| "dynamic_type (RR_CNAME _ _) = Some TypeCNAME"
| "dynamic_type (RR_TXT _ _) = Some TypeTXT"
| "dynamic_type (RR_NS _ _) = Some TypeNS"
| "dynamic_type (RR_MX _ _ _) = Some TypeMX"
| "dynamic_type (RR_SRV _ _ _ _ _) = Some TypeSRV"
| "dynamic_type (RR_CAA _ _ _ _) = Some TypeCAA"
| "dynamic_type (RR_PTR _ _) = Some TypePTR"
| "dynamic_type (RR_TLSA _ _ _ _ _) = Some TypeTLSA"
| "dynamic_type (RR_DS _ _ _ _ _) = Some TypeDS"
| "dynamic_type (RR_SOA _ _ _ _ _ _ _ _) = Some TypeSOA"
| "dynamic_type _ = None"

abbreviation rr_name :: "RR \<Rightarrow> string" where "rr_name rr \<equiv> hdr_Name (Header rr)"
abbreviation rr_type :: "RR \<Rightarrow> uint16" where "rr_type rr \<equiv> hdr_Rrtype (Header rr)"

text \<open>The records that a parser makes: the header agrees with the Go type.\<close>

definition genuine :: "RR \<Rightarrow> bool" where
  "genuine rr \<longleftrightarrow> IsSupported (rr_type rr) \<longrightarrow> dynamic_type rr = Some (rr_type rr)"

lemma map_sum_image: "map_sum id f q = Inr r \<Longrightarrow> \<exists>x. r = f x"
  by (cases q) auto

lemma parse_kind: "Parse r rr = Inr r' \<Longrightarrow> rrset_kind r' = rrset_kind r"
  by (cases r) (auto dest!: map_sum_image)

lemma parse_all_kind: "parse_all Parse r rrs = Inr r' \<Longrightarrow> rrset_kind r' = rrset_kind r"
  by (induction rrs arbitrary: r) (auto dest: parse_kind split: sum.splits)

lemma parse_all_append:
  "parse_all f r (xs @ ys) = andThen (parse_all f r xs) (\<lambda>r. parse_all f r ys)"
  by (induction xs arbitrary: r) (auto simp: andThen_def split: sum.splits)

lemma parse_genuine:
  assumes "dynamic_type rr = Some (rr_type rr)" and "TypeToRRSet (rr_type rr) = Some r0" and "rrset_kind r = rrset_kind r0"
  shows "\<exists>r'. Parse r rr = Inr r'"
proof (cases rr)
qed (use assms in \<open>cases r; auto simp: TypeToRRSet_def type_codes parse_defs Let_def split: if_splits\<close>)+

section \<open>Entries\<close>

definition lookup :: "zone_entries \<Rightarrow> string \<Rightarrow> string \<Rightarrow> RRSet option" where
  "lookup es label ty = map_of (entry_of es label) ty"

lemma lookup_update:
  "lookup (AList.update label (AList.update ty r (entry_of es label)) es) label' ty' =
     (if label' = label \<and> ty' = ty then Some r else lookup es label' ty')"
  by (auto simp: lookup_def entry_of_def update_conv')

text \<open>The records that are taken over.\<close>

definition taken :: "string \<Rightarrow> RR \<Rightarrow> bool" where
  "taken zoneName rr \<longleftrightarrow> IsSupported (rr_type rr) \<and> rr_type rr \<noteq> TypeSOA \<and> \<not> (rr_name rr = zoneName \<and> rr_type rr = TypeNS)"

definition members :: "string \<Rightarrow> string \<Rightarrow> uint16 \<Rightarrow> RR list \<Rightarrow> RR list" where
  "members zoneName label t rrs =
     filter (\<lambda>rr. taken zoneName rr \<and> entry_label zoneName (rr_name rr) = label \<and> rr_type rr = t) rrs"

lemma import_rr_eq:
  "import_rr T zoneName rr es =
     (let label = entry_label zoneName (rr_name rr); ty = TypeToString T (rr_type rr)
      in if \<not> HasSuffix (rr_name rr) zoneName then Inl (ErrorResponse StatusBadRequest ''invalid origin'')
         else if \<not> taken zoneName rr then Inr es
         else (case (case map_of (entry_of es label) ty of Some r \<Rightarrow> Some r | None \<Rightarrow> TypeToRRSet (rr_type rr)) of
                 None \<Rightarrow> Inl Panicked
               | Some rrset \<Rightarrow>
                   (case Parse rrset rr of
                      Inl (Panic _) \<Rightarrow> Inl Panicked
                    | Inl _ \<Rightarrow> Inl (ErrorResponse StatusBadRequest ''parse error'')
                    | Inr rrset \<Rightarrow> Inr (AList.update label (AList.update ty rrset (entry_of es label)) es))))"
  by (auto simp: import_rr_def taken_def Let_def)

lemma import_skips:
  "HasSuffix (rr_name rr) zoneName \<Longrightarrow> \<not> taken zoneName rr \<Longrightarrow> import_rr T zoneName rr es = Inr es"
  by (simp add: import_rr_eq)

lemma import_takes:
  assumes "HasSuffix (rr_name rr) zoneName" and "taken zoneName rr"
    and "(case lookup es (entry_label zoneName (rr_name rr)) (TypeToString T (rr_type rr)) of
            Some r \<Rightarrow> Some r | None \<Rightarrow> TypeToRRSet (rr_type rr)) = Some r"
    and "Parse r rr = Inr r'"
  shows "import_rr T zoneName rr es = Inr (AList.update (entry_label zoneName (rr_name rr))
    (AList.update (TypeToString T (rr_type rr)) r' (entry_of es (entry_label zoneName (rr_name rr)))) es)"
  using assms by (simp add: import_rr_eq lookup_def Let_def)

lemma import_loop_append:
  "import_loop T zoneName (xs @ ys) es = andThen (import_loop T zoneName xs es) (import_loop T zoneName ys)"
  by (induction xs arbitrary: es) (auto simp: andThen_def split: sum.splits)

section \<open>Sorting\<close>

definition sorted_into :: "dns_tables \<Rightarrow> string \<Rightarrow> RR list \<Rightarrow> zone_entries \<Rightarrow> bool" where
  "sorted_into T zoneName rrs es \<longleftrightarrow> (\<forall>label t r0. TypeToRRSet t = Some r0 \<longrightarrow>
     (case lookup es label (TypeToString T t) of
        None \<Rightarrow> members zoneName label t rrs = []
      | Some r \<Rightarrow> members zoneName label t rrs \<noteq> [] \<and> parse_all Parse r0 (members zoneName label t rrs) = Inr r))"

lemma supported_set: "IsSupported t \<Longrightarrow> \<exists>r0. TypeToRRSet t = Some r0"
  using TypeToRRSet_iff_supported [of t] by auto

lemma import_one:
  assumes laws: "dns_table_laws T" and suffix: "HasSuffix (rr_name rr) zoneName" and "genuine rr"
    and es: "sorted_into T zoneName rrs es"
  shows "\<exists>es'. import_rr T zoneName rr es = Inr es' \<and> sorted_into T zoneName (rrs @ [rr]) es'"
proof (cases "taken zoneName rr")
  case False
  then have "members zoneName label t (rrs @ [rr]) = members zoneName label t rrs" for label t by (simp add: members_def)
  then have "sorted_into T zoneName (rrs @ [rr]) es" using es by (simp only: sorted_into_def)
  then show ?thesis using import_skips [OF suffix False] by blast
next
  case True
  let ?l = "entry_label zoneName (rr_name rr)" and ?t = "rr_type rr"
  let ?m = "members zoneName ?l ?t rrs"
  have supported: "IsSupported ?t" using True by (simp add: taken_def)
  then obtain r0 where r0: "TypeToRRSet ?t = Some r0" using supported_set by blast
  have dyn: "dynamic_type rr = Some ?t" using assms(3) supported by (simp add: genuine_def)
  note here = es [unfolded sorted_into_def, rule_format, OF r0, of ?l]
  obtain r where r: "(case lookup es ?l (TypeToString T ?t) of Some r \<Rightarrow> Some r | None \<Rightarrow> TypeToRRSet ?t) = Some r"
    and parsed: "parse_all Parse r0 ?m = Inr r"
    using here r0 by (cases "lookup es ?l (TypeToString T ?t)") auto
  obtain r' where r': "Parse r rr = Inr r'" using parse_genuine [OF dyn r0] parse_all_kind [OF parsed] by blast
  let ?es = "AList.update ?l (AList.update (TypeToString T ?t) r' (entry_of es ?l)) es"
  have "sorted_into T zoneName (rrs @ [rr]) ?es"
    unfolding sorted_into_def
  proof (intro allI impI)
    fix label t s0 assume t: "TypeToRRSet t = Some s0"
    then have "IsSupported t" using TypeToRRSet_iff_supported [of t] by auto
    then have same: "TypeToString T t = TypeToString T ?t \<longleftrightarrow> t = ?t"
      using TypeToString_inj [OF laws _ supported] by blast
    have more: "members zoneName label t (rrs @ [rr]) = members zoneName label t rrs @ (if label = ?l \<and> t = ?t then [rr] else [])"
      using True by (auto simp: members_def)
    show "case lookup ?es label (TypeToString T t) of
        None \<Rightarrow> members zoneName label t (rrs @ [rr]) = []
      | Some r \<Rightarrow> members zoneName label t (rrs @ [rr]) \<noteq> [] \<and> parse_all Parse s0 (members zoneName label t (rrs @ [rr])) = Inr r"
    proof (cases "label = ?l \<and> t = ?t")
      case True
      then have "s0 = r0" "members zoneName label t (rrs @ [rr]) = ?m @ [rr]" using t r0 more by simp_all
      then show ?thesis using True parsed r' by (simp add: lookup_update parse_all_append andThen_def)
    next
      case False
      then have "members zoneName label t (rrs @ [rr]) = members zoneName label t rrs"
        "lookup ?es label (TypeToString T t) = lookup es label (TypeToString T t)"
        using more same by (auto simp: lookup_update)
      then show ?thesis using es [unfolded sorted_into_def, rule_format, OF t, of label] by (simp only:)
    qed
  qed
  then show ?thesis using import_takes [OF suffix True r r'] by blast
qed


definition toy_file :: "RR list" where
  "toy_file = [RR_TXT (inet_hdr ''z.'' TypeTXT 300) [''a''], RR_MX (inet_hdr ''m.z.'' TypeMX 300) 10 ''x.'',
     RR_TXT (inet_hdr ''z.'' TypeTXT 60) [''b''], RR_NS (inet_hdr ''z.'' TypeNS 60) ''ns.'']"


section \<open>Typing\<close>

definition fits :: "dns_tables \<Rightarrow> string \<Rightarrow> RRSet \<Rightarrow> bool" where
  "fits T ty r \<longleftrightarrow> (\<exists>t r0. IsSupported t \<and> t \<noteq> TypeSOA \<and> ty = TypeToString T t \<and> TypeToRRSet t = Some r0 \<and>
     rrset_kind r = rrset_kind r0)"

definition typed :: "dns_tables \<Rightarrow> zone_entries \<Rightarrow> bool" where
  "typed T es \<longleftrightarrow> distinct (map fst es) \<and>
     (\<forall>(label, e) \<in> set es. distinct (map fst e) \<and> (\<forall>(ty, r) \<in> set e. fits T ty r))"

lemma alist_update_mem: "x \<in> set (AList.update k v al) \<Longrightarrow> x = (k, v) \<or> x \<in> set al"
  by (induction al) (auto split: if_splits)

lemma typed_entry: "typed T es \<Longrightarrow> distinct (map fst (entry_of es label)) \<and> (\<forall>(ty, r) \<in> set (entry_of es label). fits T ty r)"
  by (auto simp: typed_def entry_of_def dest!: map_of_SomeD split: option.splits)

lemma typed_update:
  assumes "typed T es" and "fits T ty r"
  shows "typed T (AList.update label (AList.update ty r (entry_of es label)) es)"
proof -
  have new: "distinct (map fst (AList.update ty r (entry_of es label)))"
    "\<forall>(ty', r') \<in> set (AList.update ty r (entry_of es label)). fits T ty' r'"
    using typed_entry [OF assms(1), of label] assms(2) by (auto simp: distinct_update dest!: alist_update_mem)
  show ?thesis unfolding typed_def
  proof (intro conjI ballI, goal_cases)
    case 1
    then show ?case using assms(1) by (simp add: typed_def distinct_update)
  next
    case (2 x)
    then show ?case using new assms(1) alist_update_mem [OF 2] by (auto simp: typed_def)
  qed
qed

lemma import_rr_typed:
  assumes "typed T es" and "import_rr T zoneName rr es = Inr es'"
  shows "typed T es'"
proof (cases "taken zoneName rr")
  case False
  then show ?thesis using assms by (simp add: import_rr_eq Let_def split: if_splits)
next
  case True
  let ?l = "entry_label zoneName (rr_name rr)" and ?ty = "TypeToString T (rr_type rr)"
  obtain r r' where r: "(case map_of (entry_of es ?l) ?ty of Some r \<Rightarrow> Some r | None \<Rightarrow> TypeToRRSet (rr_type rr)) = Some r"
    and r': "Parse r rr = Inr r'" and es': "es' = AList.update ?l (AList.update ?ty r' (entry_of es ?l)) es"
    using assms(2) True by (auto simp: import_rr_eq Let_def split: if_splits option.splits sum.splits go_error.splits)
  have "fits T ?ty r"
  proof (cases "map_of (entry_of es ?l) ?ty")
    case None
    then show ?thesis using r True by (auto simp: fits_def taken_def)
  next
    case (Some q)
    then show ?thesis using r typed_entry [OF assms(1), of ?l] by (auto dest: map_of_SomeD)
  qed
  then have "fits T ?ty r'" using parse_kind [OF r'] by (auto simp: fits_def)
  then show ?thesis unfolding es' by (rule typed_update [OF assms(1)])
qed

text \<open>
  C14: the entries of an import are well-typed.  Whatever records the parser gives, when the loop over them succeeds, no label and no type
  occurs twice, and every record set, the name servers of the zone included, is of the Go type
  that belongs to the name of its record type, so that it can be decoded again by that name.
\<close>

theorem import_typed:
  assumes "import_loop (a_tables A) zoneName rrs [] = Inr es"
  shows "typed (a_tables A) (set_name_servers A es)"
proof -
  have "typed (a_tables A) es0 \<Longrightarrow> import_loop (a_tables A) zoneName rrs es0 = Inr es1 \<Longrightarrow> typed (a_tables A) es1" for es0 es1
    by (induction rrs arbitrary: es0) (auto simp: andThen_def dest: import_rr_typed split: sum.splits)
  moreover have "typed (a_tables A) []" by (simp add: typed_def)
  ultimately have "typed (a_tables A) es" using assms by blast
  moreover have "fits (a_tables A) (TypeToString (a_tables A) TypeNS) (NS_Set ns)" for ns
    unfolding fits_def by (rule exI [of _ TypeNS]) (auto simp: IsSupported_def TypeToRRSet_def type_codes)
  ultimately show ?thesis unfolding set_name_servers_def by (intro typed_update)
qed

theorem import_typed_witness:
  "\<exists>es. import_loop (a_tables toy_api) ''z.'' toy_file [] = Inr es \<and> typed (a_tables toy_api) (set_name_servers toy_api es)"
proof -
  have "\<not> isl (import_loop (a_tables toy_api) ''z.'' toy_file [])" by code_simp
  then obtain es where es: "import_loop (a_tables toy_api) ''z.'' toy_file [] = Inr es"
    by (cases "import_loop (a_tables toy_api) ''z.'' toy_file []") auto
  then show ?thesis using import_typed [of toy_api "''z.''" toy_file es] by blast
qed

end
