(* ===== verification/HandlerShutdown.thy ===== *)
theory HandlerShutdown
  imports Subscription
begin

text \<open>
  The end of the storage handlers: \<open>ShutDown\<close> of \<open>src/internal/storage/data_handler.go\<close> and of
  \<open>src/internal/storage/stat_handler.go\<close>.

  Both handlers have a goroutine that subscribes to key events, two subscriptions for the data and one for the health results, and
  that tells the subscriptions to quit when the channel \<open>quit\<close> is closed.  A subscription that has quit counts down the
  wait group of the handler, for which \<open>ShutDown\<close> waits.
\<close>

section \<open>State\<close>

text \<open>A subscription comes with its quit channel, which has room for the wait group.\<close>

datatype shutdown_phase = NotCalled | Draining | Drained

record handler_run =
  hd_serving :: bool
  hd_quit :: bool
  hd_quitWG :: int
  hd_subs :: "(subscription \<times> bool) list"
  hd_shutdown :: shutdown_phase

text \<open>The goroutine after its first lines; the arguments tell whether the subscriptions find a connection.\<close>

definition follow_events :: "go_error option list \<Rightarrow> handler_run" where
  "follow_events inits = \<lparr>hd_serving = True, hd_quit = False, hd_quitWG = int (length inits),
     hd_subs = map (\<lambda>r. (SubscribeEvent r, False)) inits, hd_shutdown = NotCalled\<rparr>"

definition data_handler_run :: "go_error option \<Rightarrow> go_error option \<Rightarrow> handler_run" where
  "data_handler_run zoneList zones = follow_events [zoneList, zones]"

definition stat_handler_run :: "go_error option \<Rightarrow> handler_run" where
  "stat_handler_run results = follow_events [results]"

section \<open>Steps\<close>

definition call_ShutDown :: "handler_run \<Rightarrow> handler_run" where
  "call_ShutDown x = x\<lparr>hd_quit := True, hd_shutdown := Draining\<rparr>"

definition tell_subs :: "handler_run \<Rightarrow> handler_run" where
  "tell_subs x = x\<lparr>hd_serving := False, hd_subs := map (\<lambda>(s, _). (s, True)) (hd_subs x)\<rparr>"

inductive handler_step :: "RedisConfig \<Rightarrow> handler_run \<Rightarrow> handler_run \<Rightarrow> bool" for cfg where
  sub_runs: "i < length (hd_subs x) \<Longrightarrow> hd_subs x ! i = (s, told) \<Longrightarrow> sub_step cfg s s' \<Longrightarrow> sb_loop s' = sb_loop s \<Longrightarrow>
    handler_step cfg x (x\<lparr>hd_subs := (hd_subs x)[i := (s', told)]\<rparr>)"
| sub_quits: "i < length (hd_subs x) \<Longrightarrow> hd_subs x ! i = (s, True) \<Longrightarrow> sub_step cfg s s' \<Longrightarrow> sb_loop s = Running \<Longrightarrow>
    sb_loop s' = Quitting \<Longrightarrow> handler_step cfg x (x\<lparr>hd_subs := (hd_subs x)[i := (s', False)]\<rparr>)"
| sub_finishes: "i < length (hd_subs x) \<Longrightarrow> hd_subs x ! i = (s, told) \<Longrightarrow> sub_step cfg s s' \<Longrightarrow> sb_loop s = Quitting \<Longrightarrow>
    sb_loop s' = Finished \<Longrightarrow>
    handler_step cfg x (x\<lparr>hd_subs := (hd_subs x)[i := (s', told)], hd_quitWG := hd_quitWG x - 1\<rparr>)"
| told: "hd_serving x \<Longrightarrow> hd_quit x \<Longrightarrow> handler_step cfg x (tell_subs x)"
| shutdown_called: "hd_shutdown x = NotCalled \<Longrightarrow> handler_step cfg x (call_ShutDown x)"
| shutdown_done: "hd_shutdown x = Draining \<Longrightarrow> hd_quitWG x = 0 \<Longrightarrow> handler_step cfg x (x\<lparr>hd_shutdown := Drained\<rparr>)"

inductive_cases handler_stepE: "handler_step cfg x x'"

abbreviation handler_steps where "handler_steps cfg \<equiv> (handler_step cfg)\<^sup>*\<^sup>*"

section \<open>The wait group\<close>

text \<open>
  The wait group counts the subscriptions that have not finished.  They run until the goroutine has told them, and then each of them
  has the word in its channel or has taken it.
\<close>

definition unfinished :: "(subscription \<times> bool) list \<Rightarrow> nat" where
  "unfinished subs = length (filter (\<lambda>(s, _). sb_loop s \<noteq> Finished) subs)"

definition sub_told :: "bool \<Rightarrow> subscription \<times> bool \<Rightarrow> bool" where
  "sub_told serving = (\<lambda>(s, told). sub_ok s \<and> (if serving then sb_loop s = Running \<and> \<not> told else sb_loop s = Running \<longrightarrow> told))"

definition handler_ok :: "handler_run \<Rightarrow> bool" where
  "handler_ok x \<longleftrightarrow> hd_quitWG x = int (unfinished (hd_subs x)) \<and> list_all (sub_told (hd_serving x)) (hd_subs x) \<and>
     (hd_quit x \<longleftrightarrow> hd_shutdown x \<noteq> NotCalled) \<and> (\<not> hd_serving x \<longrightarrow> hd_quit x) \<and>
     (hd_shutdown x = Drained \<longrightarrow> unfinished (hd_subs x) = 0)"

lemma unfinished_update:
  assumes "i < length subs" and "subs ! i = (s, t)"
  shows "unfinished (subs[i := (s', t')]) + (if sb_loop s = Finished then 0 else 1) =
    unfinished subs + (if sb_loop s' = Finished then 0 else 1)"
  using assms
proof (induction subs arbitrary: i)
  case (Cons y subs)
  then show ?case by (cases i) (auto simp: unfinished_def)
qed simp

lemma unfinished_none: "unfinished subs = 0 \<longleftrightarrow> (\<forall>(s, t) \<in> set subs. sb_loop s = Finished)"
  by (auto simp: unfinished_def filter_empty_conv)

lemma follow_ok: "handler_ok (follow_events inits)"
proof -
  have "sb_loop (SubscribeEvent r) = Running" for r
    by (cases r) (simp_all add: SubscribeEvent_def try_init_def called_def connected_def)
  then show ?thesis
    by (auto simp: handler_ok_def follow_events_def unfinished_def sub_told_def list_all_iff init_ok filter_empty_conv)
qed

lemma list_all_update: "list_all P xs \<Longrightarrow> P x \<Longrightarrow> list_all P (xs[i := x])"
  by (auto simp: list_all_iff dest!: set_update_subset_insert [THEN subsetD])

lemma loop_only_advances:
  assumes "sub_step cfg s s'" and "sb_loop s \<noteq> Running"
  shows "sb_loop s' = sb_loop s \<or> sb_loop s = Quitting \<and> sb_loop s' = Finished"
  using assms by (elim sub_stepE) (auto simp: called_def)

lemma handler_step_ok:
  assumes "handler_step cfg x x'" and ok: "handler_ok x"
  shows "handler_ok x'"
  using assms(1)
proof (cases rule: handler_step.cases)
  case (sub_runs i s told s')
  have "sub_told (hd_serving x) (s, told)" using ok sub_runs(2,3) by (auto simp: handler_ok_def list_all_length)
  then have "sub_told (hd_serving x) (s', told)" using sub_runs(4,5) step_ok by (auto simp: sub_told_def)
  moreover have "unfinished ((hd_subs x)[i := (s', told)]) = unfinished (hd_subs x)"
    using unfinished_update [OF sub_runs(2,3), of s' told] sub_runs(5) by (simp split: if_splits)
  ultimately show ?thesis using ok sub_runs(1) by (auto simp: handler_ok_def list_all_update)
next
  case (sub_quits i s s')
  have "sub_told (hd_serving x) (s, True)" using ok sub_quits(2,3) by (auto simp: handler_ok_def list_all_length)
  then have "sub_told (hd_serving x) (s', False)" using sub_quits(4-6) step_ok by (auto simp: sub_told_def)
  moreover have "unfinished ((hd_subs x)[i := (s', False)]) = unfinished (hd_subs x)"
    using unfinished_update [OF sub_quits(2,3), of s' False] sub_quits(5,6) by simp
  ultimately show ?thesis using ok sub_quits(1) by (auto simp: handler_ok_def list_all_update)
next
  case (sub_finishes i s told s')
  have "sub_told (hd_serving x) (s, told)" using ok sub_finishes(2,3) by (auto simp: handler_ok_def list_all_length)
  then have "sub_told (hd_serving x) (s', told)" using sub_finishes(4-6) step_ok by (auto simp: sub_told_def)
  moreover have "unfinished (hd_subs x) = Suc (unfinished ((hd_subs x)[i := (s', told)]))"
    using unfinished_update [OF sub_finishes(2,3), of s' told] sub_finishes(5,6) by simp
  ultimately show ?thesis using ok sub_finishes(1) by (auto simp: handler_ok_def list_all_update)
next
  case told
  then show ?thesis using ok
    by (auto simp: handler_ok_def tell_subs_def list_all_iff sub_told_def unfinished_def filter_map comp_def split_def)
qed (use ok in \<open>auto simp: handler_ok_def call_ShutDown_def\<close>)

lemma handler_steps_ok: "handler_steps cfg x x' \<Longrightarrow> handler_ok x \<Longrightarrow> handler_ok x'"
  by (induction rule: rtranclp_induct) (auto dest: handler_step_ok)

section \<open>Draining\<close>

text \<open>The subscription at one place runs while the rest of the handler stands still.\<close>

definition only_sub :: "nat \<Rightarrow> handler_run \<Rightarrow> handler_run \<Rightarrow> bool" where
  "only_sub i x x' \<longleftrightarrow> hd_serving x' = hd_serving x \<and> hd_quit x' = hd_quit x \<and> hd_shutdown x' = hd_shutdown x \<and>
     length (hd_subs x') = length (hd_subs x) \<and> (\<forall>j. j \<noteq> i \<longrightarrow> hd_subs x' ! j = hd_subs x ! j)"

lemma only_sub_trans: "only_sub i x y \<Longrightarrow> only_sub i y z \<Longrightarrow> only_sub i x z"
  by (auto simp: only_sub_def)

lemma sub_steps_lift:
  assumes "sub_steps cfg s s'" and "i < length (hd_subs x)" and "hd_subs x ! i = (s, t)" and "sb_loop s = Quitting"
  shows "\<exists>x'. handler_steps cfg x x' \<and> only_sub i x x' \<and> hd_subs x' ! i = (s', t) \<and> sb_loop s' \<noteq> Running"
  using assms(1)
proof (induction rule: rtranclp_induct)
  case base
  then show ?case using assms by (intro exI [of _ x]) (simp add: only_sub_def)
next
  case (step y z)
  then obtain x1 where x1: "handler_steps cfg x x1" "only_sub i x x1" "hd_subs x1 ! i = (y, t)" "sb_loop y \<noteq> Running" by blast
  have i: "i < length (hd_subs x1)" using x1(2) assms(2) by (simp add: only_sub_def)
  have "\<exists>x2. handler_step cfg x1 x2 \<and> only_sub i x1 x2 \<and> hd_subs x2 ! i = (z, t)"
  proof (cases "sb_loop z = sb_loop y")
    case True
    from handler_step.sub_runs [OF i x1(3) step.hyps(2) True] show ?thesis using i
      by (intro exI [of _ "x1\<lparr>hd_subs := (hd_subs x1)[i := (z, t)]\<rparr>"]) (simp add: only_sub_def)
  next
    case False
    then have "sb_loop y = Quitting" "sb_loop z = Finished" using loop_only_advances [OF step.hyps(2) x1(4)] by auto
    from handler_step.sub_finishes [OF i x1(3) step.hyps(2) this] show ?thesis using i
      by (intro exI [of _ "x1\<lparr>hd_subs := (hd_subs x1)[i := (z, t)], hd_quitWG := hd_quitWG x1 - 1\<rparr>"]) (simp add: only_sub_def)
  qed
  moreover have "sb_loop z \<noteq> Running" using loop_only_advances [OF step.hyps(2) x1(4)] x1(4) by auto
  ultimately show ?case using x1(1,2) by (meson only_sub_trans rtranclp.rtrancl_into_rtrancl)
qed

lemma running_sub_quits:
  assumes "i < length (hd_subs x)" and "hd_subs x ! i = (s, True)" and "sb_loop s = Running"
  shows "\<exists>x' s'. handler_steps cfg x x' \<and> only_sub i x x' \<and> hd_subs x' ! i = (s', False) \<and> sb_loop s' = Quitting \<and> sb_psc s'"
proof -
  have "\<exists>y r. handler_steps cfg x y \<and> only_sub i x y \<and> hd_subs y ! i = (r, True) \<and> sb_loop r = Running \<and> sb_psc r"
  proof (cases "sb_psc s")
    case False
    from sub_step.tick_nil [OF assms(3) this, of cfg None] have "sub_step cfg s (connected s)" by (simp add: try_init_def)
    from handler_step.sub_runs [OF assms(1,2) this] show ?thesis using assms
      by (intro exI [of _ "x\<lparr>hd_subs := (hd_subs x)[i := (connected s, True)]\<rparr>"] exI [of _ "connected s"])
        (auto simp: only_sub_def connected_def)
  qed (use assms in \<open>auto simp: only_sub_def\<close>)
  then obtain y r where y: "handler_steps cfg x y" "only_sub i x y" "hd_subs y ! i = (r, True)" "sb_loop r = Running" "sb_psc r"
    by blast
  have i: "i < length (hd_subs y)" using y(2) assms(1) by (simp add: only_sub_def)
  let ?z = "y\<lparr>hd_subs := (hd_subs y)[i := (r\<lparr>sb_loop := Quitting\<rparr>, False)]\<rparr>"
  have "handler_step cfg y ?z" using handler_step.sub_quits [OF i y(3) sub_step.quit [OF y(4)] y(4)] by simp
  then have "handler_steps cfg x ?z" using y(1) by simp
  moreover have "only_sub i y ?z" using i by (simp add: only_sub_def)
  ultimately show ?thesis using i y(2,5)
    by (intro exI [of _ ?z] exI [of _ "r\<lparr>sb_loop := Quitting\<rparr>"]) (simp add: only_sub_trans)
qed

text \<open>A subscription that is told to quit is \<open>drainable\<close> unless it waits without a connection.\<close>

definition drainable :: "subscription \<times> bool \<Rightarrow> bool" where
  "drainable = (\<lambda>(s, _). sb_loop s = Quitting \<longrightarrow> sb_psc s)"

lemma sub_drains:
  assumes ok: "handler_ok x" and "\<not> hd_serving x" and i: "i < length (hd_subs x)" and "drainable (hd_subs x ! i)"
  shows "\<exists>x'. handler_steps cfg x x' \<and> only_sub i x x' \<and> sb_loop (fst (hd_subs x' ! i)) = Finished"
proof -
  obtain s t where s: "hd_subs x ! i = (s, t)" by force
  have quits: "\<exists>y'. handler_steps cfg y y' \<and> only_sub i y y' \<and> sb_loop (fst (hd_subs y' ! i)) = Finished"
    if y: "handler_ok y" "i < length (hd_subs y)" "hd_subs y ! i = (r, u)" "sb_loop r = Quitting" "sb_psc r" for y r u
  proof -
    have "sub_ok r" using y(1-3) by (auto simp: handler_ok_def list_all_length sub_told_def)
    then obtain r' where "sub_steps cfg r r'" "sb_loop r' = Finished" using quits_if_connected y(4,5) by blast
    with sub_steps_lift [OF this(1) y(2-4)] show ?thesis by fastforce
  qed
  show ?thesis
  proof (cases "sb_loop s")
    case Running
    then have "t" using ok i s assms(2) by (auto simp: handler_ok_def list_all_length sub_told_def)
    with running_sub_quits [OF i, of s cfg] s Running obtain y r
      where y: "handler_steps cfg x y" "only_sub i x y" "hd_subs y ! i = (r, False)" "sb_loop r = Quitting" "sb_psc r" by auto
    have "handler_ok y" "i < length (hd_subs y)" using handler_steps_ok [OF y(1) ok] y(2) i by (simp_all add: only_sub_def)
    from quits [OF this y(3-5)] y(1,2) show ?thesis by (meson only_sub_trans rtranclp_trans)
  next
    case Quitting
    then show ?thesis using quits [OF ok i s] assms(4) s by (simp add: drainable_def)
  next
    case Finished
    then show ?thesis using s by (intro exI [of _ x]) (simp add: only_sub_def)
  qed
qed

lemma subs_drain:
  assumes ok: "handler_ok x" and "\<not> hd_serving x" and all: "\<forall>j < length (hd_subs x). drainable (hd_subs x ! j)"
    and "k \<le> length (hd_subs x)"
  shows "\<exists>x'. handler_steps cfg x x' \<and> \<not> hd_serving x' \<and> hd_shutdown x' = hd_shutdown x \<and> length (hd_subs x') = length (hd_subs x) \<and>
    (\<forall>j < k. sb_loop (fst (hd_subs x' ! j)) = Finished) \<and> (\<forall>j \<ge> k. hd_subs x' ! j = hd_subs x ! j)"
  using assms(4)
proof (induction k)
  case 0
  then show ?case using assms(2) by (intro exI [of _ x]) simp
next
  case (Suc k)
  then obtain y where y: "handler_steps cfg x y" "\<not> hd_serving y" "hd_shutdown y = hd_shutdown x" "length (hd_subs y) = length (hd_subs x)"
    "\<forall>j < k. sb_loop (fst (hd_subs y ! j)) = Finished" "\<forall>j \<ge> k. hd_subs y ! j = hd_subs x ! j" by fastforce
  have "k < length (hd_subs y)" "drainable (hd_subs y ! k)" using Suc.prems y(4,6) all by auto
  from sub_drains [OF handler_steps_ok [OF y(1) ok] y(2) this, of cfg] obtain z
    where z: "handler_steps cfg y z" "only_sub k y z" "sb_loop (fst (hd_subs z ! k)) = Finished" by blast
  have "handler_steps cfg x z" using y(1) z(1) by (rule rtranclp_trans)
  with y z show ?case by (intro exI [of _ z]) (auto simp: only_sub_def less_Suc_eq)
qed

lemma draining_returns:
  assumes ok: "handler_ok x" and "hd_shutdown x = Draining" and "\<not> hd_serving x" and "list_all drainable (hd_subs x)"
  shows "\<exists>x'. handler_steps cfg x x' \<and> hd_shutdown x' = Drained"
proof -
  obtain y where y: "handler_steps cfg x y" "hd_shutdown y = Draining"
    "\<forall>j < length (hd_subs y). sb_loop (fst (hd_subs y ! j)) = Finished"
    using subs_drain [OF ok assms(3), of "length (hd_subs x)" cfg] assms(2,4) by (auto simp: list_all_length)
  then have "unfinished (hd_subs y) = 0" by (fastforce simp: unfinished_none in_set_conv_nth)
  then have "hd_quitWG y = 0" using handler_steps_ok [OF y(1) ok] by (simp add: handler_ok_def)
  from handler_step.shutdown_done [OF y(2) this, of cfg] show ?thesis using y(1)
    by (intro exI [of _ "y\<lparr>hd_shutdown := Drained\<rparr>"]) auto
qed

lemma shutdown_can_return:
  assumes ok: "handler_ok x" and "list_all drainable (hd_subs x)"
  shows "\<exists>x'. handler_steps cfg x x' \<and> hd_shutdown x' = Drained"
proof -
  have called: "\<exists>y. handler_steps cfg x y \<and> hd_shutdown y \<noteq> NotCalled \<and> hd_subs y = hd_subs x"
  proof (cases "hd_shutdown x")
    case NotCalled
    then show ?thesis using handler_step.shutdown_called [of x cfg]
      by (intro exI [of _ "call_ShutDown x"]) (simp add: call_ShutDown_def r_into_rtranclp)
  qed (auto intro: exI [of _ x])
  then obtain y where y: "handler_steps cfg x y" "hd_shutdown y \<noteq> NotCalled" "hd_subs y = hd_subs x" by blast
  note oky = handler_steps_ok [OF y(1) ok]
  show ?thesis
  proof (cases "hd_shutdown y = Drained")
    case False
    then have d: "hd_shutdown y = Draining" "hd_quit y" using y(2) oky by (cases "hd_shutdown y", auto simp: handler_ok_def)+
    have "\<exists>z. handler_steps cfg y z \<and> hd_shutdown z = Draining \<and> \<not> hd_serving z \<and> list_all drainable (hd_subs z)"
    proof (cases "hd_serving y")
      case True
      from handler_step.told [OF this d(2), of cfg] show ?thesis using d(1) y(3) assms(2)
        by (intro exI [of _ "tell_subs y"]) (auto simp: tell_subs_def list_all_iff drainable_def)
    next
      case False
      then show ?thesis using d(1) y(3) assms(2) by auto
    qed
    then obtain z where z: "handler_steps cfg y z" "hd_shutdown z = Draining" "\<not> hd_serving z" "list_all drainable (hd_subs z)" by blast
    from draining_returns [OF handler_steps_ok [OF z(1) oky] z(2-4), of cfg] y(1) z(1) show ?thesis by (meson rtranclp_trans)
  qed (use y(1) in blast)
qed

text \<open>A subscription that waits without a connection does so for ever, and the wait group with it.\<close>

definition hanging :: "handler_run \<Rightarrow> bool" where
  "hanging x \<longleftrightarrow> \<not> list_all drainable (hd_subs x)"

lemma hanging_step:
  assumes "handler_step cfg x x'" and ok: "handler_ok x" and "hanging x"
  shows "hanging x'"
proof -
  obtain i where i: "i < length (hd_subs x)" "\<not> drainable (hd_subs x ! i)" using assms(3) by (auto simp: hanging_def list_all_length)
  then have sub: "sub_ok (fst (hd_subs x ! i))" using ok
    by (cases "hd_subs x ! i") (auto simp: handler_ok_def list_all_length sub_told_def)
  have "i < length (hd_subs x') \<and> \<not> drainable (hd_subs x' ! i)"
    using assms(1)
  proof (cases rule: handler_step.cases)
    case (sub_runs j s told s')
    then show ?thesis using i sub unconnected_stuck [of cfg s s'] by (cases "j = i") (auto simp: drainable_def)
  next
    case (sub_quits j s s')
    then show ?thesis using i by (cases "j = i") (auto simp: drainable_def)
  next
    case (sub_finishes j s told s')
    then show ?thesis using i sub unconnected_stuck [of cfg s s'] by (cases "j = i") (auto simp: drainable_def)
  next
    case told
    then show ?thesis using i by (auto simp: drainable_def tell_subs_def split: prod.splits)
  qed (use i in \<open>auto simp: call_ShutDown_def\<close>)
  then show ?thesis by (auto simp: hanging_def list_all_length)
qed

lemma hanging_steps: "handler_steps cfg x x' \<Longrightarrow> handler_ok x \<Longrightarrow> hanging x \<Longrightarrow> hanging x'"
  by (induction rule: rtranclp_induct) (auto dest: hanging_step handler_steps_ok)

lemma hanging_waits: "handler_ok x \<Longrightarrow> hanging x \<Longrightarrow> hd_shutdown x \<noteq> Drained"
  by (auto simp: handler_ok_def hanging_def drainable_def unfinished_none list_all_iff)

section \<open>Properties\<close>



end
