(* ===== verification/WorkerPool.thy ===== *)
theory WorkerPool
  imports GoPrelude "HOL-Library.Multiset"
begin

text \<open>
  The worker pool of the health checker: \<open>src/pkg/workerpool/workerpool.go\<close>.

  The goroutines and channels are a transition system.  \<open>sending\<close> are the goroutines of \<open>Queue\<close>,
  \<open>JobQueue\<close> is the buffered channel of jobs, \<open>waiting\<close> and \<open>delivering\<close> are the goroutines of
  \<open>Dispatch\<close> at its first and second line, \<open>WorkerPool\<close> is the buffered channel of job channels,
  which are named by the index of their worker.  A worker is about to send its channel, in its
  \<open>select\<close>, in its handler, or has returned.  \<open>handled\<close> are the jobs whose handler has returned.
  A transfer over a channel is one step; a receiver takes from an empty channel directly what a
  sender offers, which is how channels without buffer work.
\<close>

section \<open>The pool\<close>

datatype 'j worker = Added | Registering | Selecting | Handling 'j | Returned

datatype dispatcher = Idle | Dispatching | Closing nat | Closed

record 'j Dispatcher =
  maxWaitingJobs :: nat
  maxWorkers :: nat
  WorkerPool :: "nat list"
  WorkerList :: "'j worker list"
  JobQueue :: "'j list"
  quit :: bool
  sending :: "'j multiset"
  waiting :: "'j multiset"
  delivering :: "(nat \<times> 'j) multiset"
  dispatch :: dispatcher
  handled :: "'j multiset"

definition NewDispatcher :: "int \<Rightarrow> int \<Rightarrow> go_error + 'j Dispatcher" where
  "NewDispatcher jobs workers =
     (if jobs < 0 \<or> workers < 0 then Inl (Panic ''makechan: size out of range'')
      else Inr \<lparr>maxWaitingJobs = nat jobs, maxWorkers = nat workers, WorkerPool = [], WorkerList = [],
                JobQueue = [], quit = False, sending = {#}, waiting = {#}, delivering = {#},
                dispatch = Idle, handled = {#}\<rparr>)"

definition AddWorker :: "'j Dispatcher \<Rightarrow> 'j Dispatcher" where
  "AddWorker d = d\<lparr>WorkerList := WorkerList d @ [Added]\<rparr>"

definition Run :: "'j Dispatcher \<Rightarrow> 'j Dispatcher" where
  "Run d = d\<lparr>WorkerList := map (\<lambda>_. Registering) (WorkerList d), dispatch := Dispatching\<rparr>"

definition Queue :: "'j \<Rightarrow> 'j Dispatcher \<Rightarrow> 'j Dispatcher" where
  "Queue job d = d\<lparr>sending := add_mset job (sending d)\<rparr>"

text \<open>\<open>Stop\<close> closes the channel and waits until \<open>dispatch\<close> is \<open>Closed\<close>.\<close>

definition Stop :: "'j Dispatcher \<Rightarrow> 'j Dispatcher" where
  "Stop d = d\<lparr>quit := True\<rparr>"

section \<open>The steps of the goroutines\<close>

text \<open>
  \<open>Dispatch\<close> closes the quit channels of the workers one after the other and waits for each
  worker to return: at \<open>Closing k\<close> the channels up to worker \<open>k\<close> are closed.
\<close>

definition close_worker :: "nat \<Rightarrow> 'j Dispatcher \<Rightarrow> 'j Dispatcher" where
  "close_worker k d = d\<lparr>dispatch := if k < length (WorkerList d) then Closing k else Closed\<rparr>"

definition told_to_quit :: "'j Dispatcher \<Rightarrow> nat \<Rightarrow> bool" where
  "told_to_quit d w \<longleftrightarrow> (case dispatch d of Closing k \<Rightarrow> w \<le> k | Closed \<Rightarrow> True | _ \<Rightarrow> False)"

inductive goroutine :: "'j Dispatcher \<Rightarrow> 'j Dispatcher \<Rightarrow> bool" where
  enqueue: "sending d = add_mset j M \<Longrightarrow> length (JobQueue d) < maxWaitingJobs d \<Longrightarrow>
    goroutine d (d\<lparr>sending := M, JobQueue := JobQueue d @ [j]\<rparr>)"
| receive: "dispatch d = Dispatching \<Longrightarrow> JobQueue d = j # q \<Longrightarrow>
    goroutine d (d\<lparr>JobQueue := q, waiting := add_mset j (waiting d)\<rparr>)"
| receive_sent: "dispatch d = Dispatching \<Longrightarrow> JobQueue d = [] \<Longrightarrow> sending d = add_mset j M \<Longrightarrow>
    goroutine d (d\<lparr>sending := M, waiting := add_mset j (waiting d)\<rparr>)"
| take_channel: "waiting d = add_mset j M \<Longrightarrow> WorkerPool d = w # p \<Longrightarrow>
    goroutine d (d\<lparr>waiting := M, WorkerPool := p, delivering := add_mset (w, j) (delivering d)\<rparr>)"
| take_sent: "waiting d = add_mset j M \<Longrightarrow> WorkerPool d = [] \<Longrightarrow> w < length (WorkerList d) \<Longrightarrow>
    WorkerList d ! w = Registering \<Longrightarrow>
    goroutine d (d\<lparr>waiting := M, delivering := add_mset (w, j) (delivering d),
                    WorkerList := (WorkerList d)[w := Selecting]\<rparr>)"
| register: "w < length (WorkerList d) \<Longrightarrow> WorkerList d ! w = Registering \<Longrightarrow>
    length (WorkerPool d) < maxWorkers d \<Longrightarrow>
    goroutine d (d\<lparr>WorkerPool := WorkerPool d @ [w], WorkerList := (WorkerList d)[w := Selecting]\<rparr>)"
| deliver: "delivering d = add_mset (w, j) M \<Longrightarrow> w < length (WorkerList d) \<Longrightarrow>
    WorkerList d ! w = Selecting \<Longrightarrow>
    goroutine d (d\<lparr>delivering := M, WorkerList := (WorkerList d)[w := Handling j]\<rparr>)"
| handle: "w < length (WorkerList d) \<Longrightarrow> WorkerList d ! w = Handling j \<Longrightarrow>
    goroutine d (d\<lparr>WorkerList := (WorkerList d)[w := Registering], handled := add_mset j (handled d)\<rparr>)"
| closing: "dispatch d = Dispatching \<Longrightarrow> quit d \<Longrightarrow> goroutine d (close_worker 0 d)"
| close_next: "dispatch d = Closing k \<Longrightarrow> WorkerList d ! k = Returned \<Longrightarrow> goroutine d (close_worker (Suc k) d)"
| worker_quit: "told_to_quit d w \<Longrightarrow> w < length (WorkerList d) \<Longrightarrow> WorkerList d ! w = Selecting \<Longrightarrow>
    goroutine d (d\<lparr>WorkerList := (WorkerList d)[w := Returned]\<rparr>)"

text \<open>The states of a pool that is used by any callers: jobs are queued, and the pool is stopped once.\<close>

inductive reachable :: "'j Dispatcher \<Rightarrow> 'j multiset \<Rightarrow> 'j Dispatcher \<Rightarrow> bool" where
  start: "reachable d {#} (Run d)"
| queue: "reachable d J e \<Longrightarrow> reachable d (add_mset j J) (Queue j e)"
| stop: "reachable d J e \<Longrightarrow> \<not> quit e \<Longrightarrow> reachable d J (Stop e)"
| run: "reachable d J e \<Longrightarrow> goroutine e e' \<Longrightarrow> reachable d J e'"


section \<open>Every goroutine makes progress\<close>

text \<open>The jobs of the pool, wherever they are, and the job channels that can be taken or are taken.\<close>

definition held :: "'j worker \<Rightarrow> 'j multiset" where
  "held w = (case w of Handling j \<Rightarrow> {#j#} | _ \<Rightarrow> {#})"

definition jobs :: "'j Dispatcher \<Rightarrow> 'j multiset" where
  "jobs d = sending d + mset (JobQueue d) + waiting d + image_mset snd (delivering d) +
     sum_list (map held (WorkerList d)) + handled d"

definition channels :: "'j Dispatcher \<Rightarrow> nat multiset" where
  "channels d = mset (WorkerPool d) + image_mset fst (delivering d)"

text \<open>Every step brings a job or a worker forward.\<close>

definition worker_work :: "'j worker \<Rightarrow> nat" where
  "worker_work w = (case w of Handling _ \<Rightarrow> 3 | Registering \<Rightarrow> 2 | Selecting \<Rightarrow> 1 | _ \<Rightarrow> 0)"

definition dispatcher_work :: "nat \<Rightarrow> dispatcher \<Rightarrow> nat" where
  "dispatcher_work n s = (case s of Closing k \<Rightarrow> n - k + 1 | Closed \<Rightarrow> 0 | _ \<Rightarrow> n + 2)"

definition work :: "'j Dispatcher \<Rightarrow> nat" where
  "work d = 6 * size (sending d) + 5 * length (JobQueue d) + 4 * size (waiting d) + 3 * size (delivering d) +
     sum_list (map worker_work (WorkerList d)) + dispatcher_work (length (WorkerList d)) (dispatch d)"

lemma sum_map_update:
  fixes f :: "'a \<Rightarrow> 'b::comm_monoid_add"
  assumes "k < length xs"
  shows "sum_list (map f (xs[k := x])) + f (xs ! k) = sum_list (map f xs) + f x"
  using assms
proof (induction xs arbitrary: k)
  case (Cons y xs)
  then show ?case by (cases k) (auto simp: ac_simps)
qed simp

lemma goroutine_work: "goroutine d e \<Longrightarrow> work e < work d"
proof (induction rule: goroutine.induct)
  case (take_sent d j M w)
  then show ?case using sum_map_update [of w "WorkerList d" worker_work Selecting]
    by (simp add: work_def worker_work_def)
next
  case (register w d)
  then show ?case using sum_map_update [of w "WorkerList d" worker_work Selecting]
    by (simp add: work_def worker_work_def)
next
  case (deliver d w j M)
  then show ?case using sum_map_update [of w "WorkerList d" worker_work "Handling j"]
    by (simp add: work_def worker_work_def)
next
  case (handle w d j)
  then show ?case using sum_map_update [of w "WorkerList d" worker_work Registering]
    by (simp add: work_def worker_work_def)
next
  case (worker_quit d w)
  then show ?case using sum_map_update [of w "WorkerList d" worker_work Returned]
    by (simp add: work_def worker_work_def)
qed (auto simp: work_def close_worker_def dispatcher_work_def)

lemma goroutine_wf: "wfP (\<lambda>e d. goroutine d e)"
  by (rule wfp_if_convertible_to_nat [where f = work]) (rule goroutine_work)

lemma goroutine_jobs: "goroutine d e \<Longrightarrow> jobs e = jobs d"
proof (induction rule: goroutine.induct)
  case (take_sent d j M w)
  then show ?case using sum_map_update [of w "WorkerList d" held Selecting]
    by (simp add: jobs_def held_def)
next
  case (register w d)
  then show ?case using sum_map_update [of w "WorkerList d" held Selecting]
    by (simp add: jobs_def held_def)
next
  case (deliver d w j M)
  then show ?case using sum_map_update [of w "WorkerList d" held "Handling j"]
    by (simp add: jobs_def held_def)
next
  case (handle w d j)
  then show ?case using sum_map_update [of w "WorkerList d" held Registering]
    by (simp add: jobs_def held_def)
next
  case (worker_quit d w)
  then show ?case using sum_map_update [of w "WorkerList d" held Returned]
    by (simp add: jobs_def held_def)
qed (auto simp: jobs_def close_worker_def)


section \<open>A channel is offered by one worker at a time\<close>

definition offered :: "'j worker \<Rightarrow> bool" where
  "offered w \<longleftrightarrow> w = Selecting \<or> w = Returned"

definition channels_ok :: "'j Dispatcher \<Rightarrow> bool" where
  "channels_ok d \<longleftrightarrow>
     (\<forall>w. count (channels d) w = (if w < length (WorkerList d) \<and> offered (WorkerList d ! w) then 1 else 0))"

definition workers_ok :: "'j Dispatcher \<Rightarrow> bool" where
  "workers_ok d \<longleftrightarrow> Added \<notin> set (WorkerList d) \<and>
     (\<forall>w < length (WorkerList d). WorkerList d ! w = Returned \<longrightarrow> told_to_quit d w) \<and>
     (case dispatch d of
        Idle \<Rightarrow> False
      | Dispatching \<Rightarrow> True
      | Closing k \<Rightarrow> quit d \<and> k < length (WorkerList d) \<and> (\<forall>i < k. WorkerList d ! i = Returned)
      | Closed \<Rightarrow> quit d \<and> (\<forall>i < length (WorkerList d). WorkerList d ! i = Returned))"

lemma goroutine_channels: "goroutine d e \<Longrightarrow> channels_ok d \<Longrightarrow> channels_ok e"
proof (induction rule: goroutine.induct)
  case (deliver d w j M)
  let ?e = "d\<lparr>delivering := M, WorkerList := (WorkerList d)[w := Handling j]\<rparr>"
  have "count (channels ?e) x = count (channels d) x - (if x = w then 1 else 0)" for x
    using deliver.hyps by (simp add: channels_def)
  moreover have "count (channels d) x = (if x < length (WorkerList d) \<and> offered (WorkerList d ! x) then 1 else 0)" for x
    using deliver.prems by (simp add: channels_ok_def)
  ultimately show ?case
    using deliver.hyps unfolding channels_ok_def by (simp add: offered_def nth_list_update)
qed (auto simp: channels_ok_def channels_def offered_def nth_list_update close_worker_def split: if_splits)

lemma added_update: "Added \<notin> set ws \<Longrightarrow> x \<noteq> Added \<Longrightarrow> Added \<notin> set (ws[w := x])"
  using set_update_subset_insert [of ws w x] by auto

lemma goroutine_workers: "goroutine d e \<Longrightarrow> workers_ok d \<Longrightarrow> workers_ok e"
proof (induction rule: goroutine.induct)
  case (close_next d k)
  then have "\<forall>i < Suc k. WorkerList d ! i = Returned" by (auto simp: workers_ok_def less_Suc_eq)
  then show ?case using close_next
    by (auto simp: workers_ok_def close_worker_def told_to_quit_def)
qed (fastforce simp: workers_ok_def told_to_quit_def added_update nth_list_update close_worker_def
    split: dispatcher.splits if_splits)+


lemma goroutine_const:
  "goroutine d e \<Longrightarrow> length (WorkerList e) = length (WorkerList d) \<and> maxWorkers e = maxWorkers d \<and> quit e = quit d"
  by (induction rule: goroutine.induct) (auto simp: close_worker_def)

definition pool_ok :: "nat \<Rightarrow> nat \<Rightarrow> 'j multiset \<Rightarrow> 'j Dispatcher \<Rightarrow> bool" where
  "pool_ok n workers J e \<longleftrightarrow> jobs e = J \<and> channels_ok e \<and> workers_ok e \<and>
     length (WorkerList e) = n \<and> maxWorkers e = workers"

lemma goroutine_pool_ok: "goroutine e e' \<Longrightarrow> pool_ok n workers J e \<Longrightarrow> pool_ok n workers J e'"
  by (simp add: pool_ok_def goroutine_jobs goroutine_channels goroutine_workers goroutine_const)

lemma goroutines_pool_ok: "goroutine\<^sup>*\<^sup>* e e' \<Longrightarrow> pool_ok n workers J e \<Longrightarrow> pool_ok n workers J e' \<and> quit e' = quit e"
  by (induction rule: rtranclp_induct) (auto simp: goroutine_pool_ok goroutine_const)

lemma workers_added: "(AddWorker ^^ n) d = d\<lparr>WorkerList := WorkerList d @ replicate n Added\<rparr>"
  by (induction n) (simp_all add: AddWorker_def replicate_append_same flip: replicate_Suc)

lemma no_held: "\<forall>w \<in> set ws. \<forall>j. w \<noteq> Handling j \<Longrightarrow> sum_list (map held ws) = {#}"
  by (induction ws) (auto simp: held_def split: worker.splits)

lemma registering_hold_nothing: "sum_list (replicate n (held Registering)) = {#}"
  by (induction n) (simp_all add: held_def)

lemma reachable_pool_ok:
  assumes "NewDispatcher waiters workers = Inr d" and "reachable ((AddWorker ^^ n) d) J e"
  shows "pool_ok n (nat workers) J e"
  using assms(2)
proof (induction "(AddWorker ^^ n) d" J e rule: reachable.induct)
  case start
  then show ?case using assms(1)
    by (auto simp: pool_ok_def Run_def workers_added NewDispatcher_def jobs_def channels_ok_def channels_def
        workers_ok_def offered_def registering_hold_nothing split: if_splits)
next
  case (queue J e j)
  then show ?case
    by (auto simp: pool_ok_def Queue_def jobs_def channels_ok_def channels_def workers_ok_def told_to_quit_def
        split: dispatcher.splits)
next
  case (stop J e)
  then show ?case
    by (auto simp: pool_ok_def Stop_def jobs_def channels_ok_def channels_def workers_ok_def told_to_quit_def
        split: dispatcher.splits)
qed (simp add: goroutine_pool_ok)

section \<open>States without a step\<close>

abbreviation resting :: "'j Dispatcher \<Rightarrow> bool" where
  "resting e \<equiv> \<not> (\<exists>e'. goroutine e e')"

lemma channel_of_worker:
  assumes "pool_ok n workers J e" and "w \<in># channels e"
  shows "w < length (WorkerList e)" "offered (WorkerList e ! w)"
  using assms by (auto simp: pool_ok_def channels_ok_def simp flip: count_greater_zero_iff split: if_splits)

lemma resting_none_delivering:
  assumes "pool_ok n workers J e" and "resting e" and "dispatch e = Dispatching"
  shows "delivering e = {#}"
proof (rule ccontr)
  assume "delivering e \<noteq> {#}"
  then obtain w j M where M: "delivering e = add_mset (w, j) M" by (metis multiset_cases surj_pair)
  then have "w \<in># channels e" by (simp add: channels_def)
  note w = channel_of_worker [OF assms(1) this]
  have "WorkerList e ! w \<noteq> Returned"
    using assms(1,3) w(1) by (auto simp: pool_ok_def workers_ok_def told_to_quit_def)
  then have "WorkerList e ! w = Selecting" using w(2) by (simp add: offered_def)
  with M w(1) assms(2) show False by (blast intro: goroutine.deliver)
qed

lemma resting_none_waiting:
  assumes "pool_ok n workers J e" and "resting e" and "dispatch e = Dispatching" and "0 < n"
  shows "waiting e = {#}"
proof (rule ccontr)
  assume "waiting e \<noteq> {#}"
  then obtain j M where M: "waiting e = add_mset j M" by (metis multiset_cases)
  then have p: "WorkerPool e = []" using assms(2) by (cases "WorkerPool e") (auto intro: goroutine.take_channel)
  then have "count (channels e) 0 = 0" using resting_none_delivering [OF assms(1-3)] by (simp add: channels_def)
  moreover have n: "0 < length (WorkerList e)" using assms(1,4) by (simp add: pool_ok_def)
  moreover have "count (channels e) 0 = (if 0 < length (WorkerList e) \<and> offered (WorkerList e ! 0) then 1 else 0)"
    using assms(1) by (simp add: pool_ok_def channels_ok_def)
  ultimately have "\<not> offered (WorkerList e ! 0)" by (simp split: if_splits)
  moreover have "WorkerList e ! 0 \<noteq> Handling i" for i using assms(2) n by (blast intro: goroutine.handle)
  moreover have "WorkerList e ! 0 \<noteq> Added"
    using assms(1) n nth_mem by (fastforce simp: pool_ok_def workers_ok_def)
  ultimately have "WorkerList e ! 0 = Registering" by (cases "WorkerList e ! 0") (auto simp: offered_def)
  with M p n assms(2) show False by (blast intro: goroutine.take_sent)
qed

lemma resting_all_handled:
  assumes "pool_ok n workers J e" and "resting e" and "\<not> quit e" and "0 < n"
  shows "handled e = J"
proof -
  have d: "dispatch e = Dispatching"
    using assms(1,3) by (auto simp: pool_ok_def workers_ok_def split: dispatcher.splits)
  have q: "JobQueue e = []" using assms(2) d by (cases "JobQueue e") (auto intro: goroutine.receive)
  moreover have "sending e = {#}"
    using assms(2) d q by (cases "sending e") (auto intro: goroutine.receive_sent)
  moreover have "sum_list (map held (WorkerList e)) = {#}"
    using assms(2) by (intro no_held) (metis goroutine.handle in_set_conv_nth)
  ultimately show ?thesis
    using assms(1) resting_none_delivering [OF assms(1,2) d] resting_none_waiting [OF assms(1,2) d assms(4)]
    by (simp add: pool_ok_def jobs_def)
qed

text \<open>The channel of a worker that registers is not in the pool, so there is room for it.\<close>

lemma pool_has_room:
  assumes "pool_ok n workers J e" and "k < n" and "WorkerList e ! k = Registering" and "n \<le> workers"
  shows "length (WorkerPool e) < maxWorkers e"
proof -
  have ch: "count (mset (WorkerPool e)) w \<le> count (channels e) w" for w by (simp add: channels_def)
  have "count (channels e) w \<le> 1" for w using assms(1) by (simp add: pool_ok_def channels_ok_def)
  then have once: "count (mset (WorkerPool e)) w \<le> 1" for w using ch [of w] le_trans by blast
  have "distinct (WorkerPool e)"
  proof (rule ccontr)
    assume "\<not> distinct (WorkerPool e)"
    then obtain xs ys zs y where "WorkerPool e = xs @ [y] @ ys @ [y] @ zs" using not_distinct_decomp by blast
    then have "2 \<le> count (mset (WorkerPool e)) y" by simp
    with once [of y] show False by simp
  qed
  then have "length (WorkerPool e) = card (set (WorkerPool e))" by (simp add: distinct_card)
  also have "\<dots> \<le> card ({..<n} - {k})"
  proof (rule card_mono)
    show "set (WorkerPool e) \<subseteq> {..<n} - {k}"
      using channel_of_worker [OF assms(1)] assms(1,3) by (fastforce simp: channels_def pool_ok_def offered_def)
  qed simp
  also have "\<dots> < n" using assms(2) by simp
  finally show ?thesis using assms(1,4) by (simp add: pool_ok_def)
qed

lemma resting_closed:
  assumes "pool_ok n workers J e" and "resting e" and "quit e" and "n \<le> workers"
  shows "dispatch e = Closed"
proof (rule ccontr)
  assume "dispatch e \<noteq> Closed"
  moreover have "dispatch e \<noteq> Dispatching" using goroutine.closing [of e] assms(2,3) by auto
  moreover have ok: "workers_ok e" "n = length (WorkerList e)" using assms(1) by (auto simp: pool_ok_def)
  ultimately obtain k where k: "dispatch e = Closing k" "k < length (WorkerList e)"
    by (cases "dispatch e") (simp_all add: workers_ok_def)
  then have "told_to_quit e k" by (simp add: told_to_quit_def)
  have in_list: "WorkerList e ! k \<in> set (WorkerList e)" using k by simp
  show False
  proof (cases "WorkerList e ! k")
    case Added
    then show ?thesis using assms(1) in_list by (simp add: pool_ok_def workers_ok_def)
  next
    case Registering
    then have "goroutine e (e\<lparr>WorkerPool := WorkerPool e @ [k], WorkerList := (WorkerList e)[k := Selecting]\<rparr>)"
      using pool_has_room [OF assms(1) _ _ assms(4)] k ok(2) by (intro goroutine.register) simp_all
    then show ?thesis using assms(2) by blast
  next
    case Selecting
    then show ?thesis using goroutine.worker_quit [OF \<open>told_to_quit e k\<close>] assms(2) k by simp
  next
    case (Handling j)
    then show ?thesis using goroutine.handle [of k e j] assms(2) k by simp
  next
    case Returned
    then show ?thesis using goroutine.close_next [OF k(1)] assms(2) by simp
  qed
qed

section \<open>Every job is handled, and the pool can be stopped\<close>

lemma goroutines_rest: "\<exists>e'. goroutine\<^sup>*\<^sup>* e e' \<and> resting e'"
proof (induction e rule: wfp_induct_rule [OF goroutine_wf])
  case (1 e)
  show ?case
  proof (cases "resting e")
    case False
    then obtain y where "goroutine e y" by blast
    with 1 [OF this] show ?thesis by (blast intro: converse_rtranclp_into_rtranclp)
  qed blast
qed

text \<open>
  C20: every job is handled exactly once.  In any state of a running pool with a worker the
  handled jobs are among the queued ones; the goroutines cannot run forever without a new job,
  and when none of them can proceed, every queued job has been handled, once.
\<close>

theorem jobs_handled_once:
  assumes "NewDispatcher waiters workers = Inr d" and "reachable ((AddWorker ^^ n) d) J e"
    and "\<not> quit e" and "0 < n"
  shows "handled e \<subseteq># J \<and> wfP (\<lambda>e' e. goroutine e e') \<and>
    (\<forall>e'. goroutine\<^sup>*\<^sup>* e e' \<and> resting e' \<longrightarrow> handled e' = J)"
proof (intro conjI allI impI goroutine_wf)
  note ok = reachable_pool_ok [OF assms(1,2)]
  then show "handled e \<subseteq># J" by (auto simp: pool_ok_def jobs_def)
  show "handled e' = J" if run: "goroutine\<^sup>*\<^sup>* e e' \<and> resting e'" for e'
    using goroutines_pool_ok [of e e', OF _ ok] resting_all_handled run assms(3,4) by blast
qed

text \<open>
  C32: the pool can be stopped.  When there are at most as many workers as the pool was made for,
  the goroutines of a pool that is told to quit come to rest with all workers returned, and
  \<open>Stop\<close> returns.
\<close>

theorem stop_returns:
  assumes "NewDispatcher waiters workers = Inr d" and "reachable ((AddWorker ^^ n) d) J e"
    and "quit e" and "int n \<le> workers"
  shows "(\<exists>e'. goroutine\<^sup>*\<^sup>* e e' \<and> resting e') \<and>
    (\<forall>e'. goroutine\<^sup>*\<^sup>* e e' \<and> resting e' \<longrightarrow>
       dispatch e' = Closed \<and> (\<forall>w < n. WorkerList e' ! w = Returned))"
proof (intro conjI allI impI goroutines_rest)
  fix e' assume run: "goroutine\<^sup>*\<^sup>* e e' \<and> resting e'"
  then have ok: "pool_ok n (nat workers) J e'" "quit e'"
    using goroutines_pool_ok [OF _ reachable_pool_ok [OF assms(1,2)]] assms(3) by blast+
  with run assms(4) show "dispatch e' = Closed" by (intro resting_closed) auto
  with ok show "WorkerList e' ! w = Returned" if "w < n" for w
    using that by (simp add: pool_ok_def workers_ok_def)
qed

definition toy_pool :: "nat Dispatcher" where
  "toy_pool = (AddWorker ^^ 1) (case NewDispatcher 1 1 of Inr d \<Rightarrow> d)"

theorem jobs_handled_once_witness:
  "\<exists>e'. goroutine\<^sup>*\<^sup>* (Queue 7 (Queue 7 (Run toy_pool))) e' \<and> handled e' = {#7, 7#}"
proof -
  have "\<exists>d. NewDispatcher 1 1 = Inr d \<and> toy_pool = (AddWorker ^^ 1) d"
    by (simp add: toy_pool_def NewDispatcher_def)
  then obtain d where d: "NewDispatcher 1 1 = Inr d" "toy_pool = (AddWorker ^^ 1) d" by blast
  have r: "reachable ((AddWorker ^^ 1) d) {#7, 7#} (Queue 7 (Queue 7 (Run toy_pool)))"
    unfolding d(2) by (intro reachable.intros)
  have q: "\<not> quit (Queue 7 (Queue 7 (Run toy_pool)))"
    by (simp add: Queue_def Run_def toy_pool_def AddWorker_def NewDispatcher_def)
  obtain e' where "goroutine\<^sup>*\<^sup>* (Queue 7 (Queue 7 (Run toy_pool))) e'" "resting e'"
    using goroutines_rest by blast
  with jobs_handled_once [OF d(1) r q] show ?thesis by auto
qed

theorem stop_returns_witness:
  "\<exists>e'. goroutine\<^sup>*\<^sup>* (Stop (Queue 7 (Run toy_pool))) e' \<and> dispatch e' = Closed"
proof -
  have "\<exists>d. NewDispatcher 1 1 = Inr d \<and> toy_pool = (AddWorker ^^ 1) d"
    by (simp add: toy_pool_def NewDispatcher_def)
  then obtain d where d: "NewDispatcher 1 1 = Inr d" "toy_pool = (AddWorker ^^ 1) d" by blast
  have "\<not> quit (Queue 7 (Run toy_pool))"
    by (simp add: Queue_def Run_def toy_pool_def AddWorker_def NewDispatcher_def)
  then have r: "reachable ((AddWorker ^^ 1) d) {#7#} (Stop (Queue 7 (Run toy_pool)))"
    unfolding d(2) by (intro reachable.intros)
  have "quit (Stop (Queue 7 (Run toy_pool)))" by (simp add: Stop_def)
  from stop_returns [OF d(1) r this] show ?thesis by auto
qed

end
