(* ===== verification/HealthRun.thy ===== *)
theory HealthRun
  imports HealthCheck WorkerPool Resolver
begin

text \<open>
  The life of a health checker: the goroutines of \<open>Start\<close>, \<open>Transfer\<close> and \<open>ShutDown\<close> of
  \<open>src/internal/healthcheck/healthcheck.go\<close> over the worker pool, the storage layer and the health results.

  The checker is enabled: without \<open>Enable\<close> there is no pool, and \<open>Start\<close> and \<open>ShutDown\<close> return at once.  A step is one pass of a loop between two points where it waits.  The loops read the channel \<open>quit\<close>, which
  \<open>ShutDown\<close> closes, and count down the wait group \<open>quitWG\<close>, which \<open>ShutDown\<close> waits for.  A handler of the pool that
  panics ends the program, so there is no step for it.
\<close>

section \<open>State\<close>

record ('d, 'q, 't, 'zc, 'rc, 's, 'r, 'hc) health_env =
  he_data :: "('d, 'q, 't, 'zc, 'rc) storage_env"
  he_stat :: "('s, 'r, 'hc) stat_env"
  he_net :: net_checks
  he_check :: Healthcheck

text \<open>
  \<open>Start\<close> reads the keys and then waits for the tick; \<open>Transfer\<close> is at the head of its outer loop, before a zone, or
  before the \<open>select\<close> of a location.
\<close>

datatype check_loop = NoLoop | Reading | Awaiting "string list" | LoopDone

datatype transfer_loop = NoTransfer | Outer | Domains "string list" | Locations string string "string list" "string list" | TransferDone

datatype shutdown = Up | Stopping | WaitingForLoops | ShutDone

record ('d, 't, 'zc, 'rc, 's) health_run =
  hr_data :: "('d, 't, 'zc, 'rc) DataHandler"
  hr_stat :: 's
  hr_dispatcher :: "HealthCheckItem Dispatcher"
  hr_loop :: check_loop
  hr_transfer :: transfer_loop
  hr_quit :: bool
  hr_quitWG :: int
  hr_shutdown :: shutdown

definition new_dispatcher :: "Healthcheck \<Rightarrow> go_error + HealthCheckItem Dispatcher" where
  "new_dispatcher h =
     andThen (NewDispatcher (hk_maxPendingRequests h) (hk_maxRequests h)) (\<lambda>d.
     Inr ((AddWorker ^^ nat (hk_maxRequests h)) d))"

definition idle_checker ::
  "('d, 't, 'zc, 'rc) DataHandler \<Rightarrow> 's \<Rightarrow> HealthCheckItem Dispatcher \<Rightarrow> ('d, 't, 'zc, 'rc, 's) health_run" where
  "idle_checker dh s p = \<lparr>hr_data = dh, hr_stat = s, hr_dispatcher = p, hr_loop = NoLoop, hr_transfer = NoTransfer,
     hr_quit = False, hr_quitWG = 0, hr_shutdown = Up\<rparr>"

section \<open>Steps\<close>

definition start_checks :: "('d, 't, 'zc, 'rc, 's) health_run \<Rightarrow> ('d, 't, 'zc, 'rc, 's) health_run" where
  "start_checks x = x\<lparr>hr_dispatcher := Run (hr_dispatcher x), hr_loop := Reading, hr_transfer := Outer\<rparr>"

definition begin_shutdown :: "('d, 't, 'zc, 'rc, 's) health_run \<Rightarrow> ('d, 't, 'zc, 'rc, 's) health_run" where
  "begin_shutdown x = x\<lparr>hr_dispatcher := Stop (hr_dispatcher x), hr_shutdown := Stopping\<rparr>"

definition close_quit :: "('d, 't, 'zc, 'rc, 's) health_run \<Rightarrow> ('d, 't, 'zc, 'rc, 's) health_run" where
  "close_quit x = x\<lparr>hr_quitWG := hr_quitWG x + 2, hr_quit := True, hr_shutdown := WaitingForLoops\<rparr>"

inductive health_step ::
  "('d, 'q, 't, 'zc, 'rc, 's, 'r, 'hc) health_env \<Rightarrow> ('d, 't, 'zc, 'rc, 's) health_run \<Rightarrow>
   ('d, 't, 'zc, 'rc, 's) health_run \<Rightarrow> bool" for H where
  started: "hr_loop x = NoLoop \<Longrightarrow> 0 < hk_checkInterval (he_check H) \<Longrightarrow>
    health_step H x (start_checks x)"
| read_keys: "hr_loop x = Reading \<Longrightarrow> GetActiveHealthcheckItems (he_stat H) (hr_stat x) = Some (r, s) \<Longrightarrow>
    health_step H x (x\<lparr>hr_stat := s, hr_loop := Awaiting (case r of Inl _ \<Rightarrow> [] | Inr ks \<Rightarrow> ks)\<rparr>)"
| check_tick: "hr_loop x = Awaiting ks \<Longrightarrow> due_items (he_stat H) (he_check H) now ks (hr_stat x) = (items, s) \<Longrightarrow>
    health_step H x (x\<lparr>hr_stat := s, hr_dispatcher := fold Queue items (hr_dispatcher x), hr_loop := Reading\<rparr>)"
| loop_quit: "hr_loop x = Awaiting ks \<Longrightarrow> hr_quit x \<Longrightarrow>
    health_step H x (x\<lparr>hr_quitWG := hr_quitWG x - 1, hr_loop := LoopDone\<rparr>)"
| read_zones: "hr_transfer x = Outer \<Longrightarrow> GetZones (he_data H) (hr_data x) = Inr (domains, d) \<Longrightarrow>
    health_step H x (x\<lparr>hr_data := (hr_data x)\<lparr>dh_redis := d\<rparr>, hr_transfer := Domains domains\<rparr>)"
| next_round: "hr_transfer x = Domains [] \<Longrightarrow> health_step H x (x\<lparr>hr_transfer := Outer\<rparr>)"
| read_locations: "hr_transfer x = Domains (domain # domains) \<Longrightarrow>
    getDomainId (he_data H) now (hr_data x) domain = Inr (domainId, dh) \<Longrightarrow>
    GetZoneLocations (he_data H) now dh domain = Inr (subdomains, dh') \<Longrightarrow>
    health_step H x (x\<lparr>hr_data := dh', hr_transfer := Locations domainId domain subdomains domains\<rparr>)"
| next_domain: "hr_transfer x = Locations domainId domain [] domains \<Longrightarrow>
    health_step H x (x\<lparr>hr_transfer := Domains domains\<rparr>)"
| transfer_tick: "hr_transfer x = Locations domainId domain (subdomain # subdomains) domains \<Longrightarrow>
    transfer_location (he_data H) (he_stat H) (he_check H) now domainId domain subdomain (hr_data x, hr_stat x) = (dh, s) \<Longrightarrow>
    health_step H x (x\<lparr>hr_data := dh, hr_stat := s, hr_transfer := Locations domainId domain subdomains domains\<rparr>)"
| transfer_quit: "hr_transfer x = Locations domainId domain (subdomain # subdomains) domains \<Longrightarrow> hr_quit x \<Longrightarrow>
    health_step H x (x\<lparr>hr_quitWG := hr_quitWG x - 1, hr_transfer := TransferDone\<rparr>)"
| pool_step: "goroutine (hr_dispatcher x) p \<Longrightarrow> handled p = handled (hr_dispatcher x) \<Longrightarrow>
    health_step H x (x\<lparr>hr_dispatcher := p\<rparr>)"
| check_step: "goroutine (hr_dispatcher x) p \<Longrightarrow> handled p = add_mset item (handled (hr_dispatcher x)) \<Longrightarrow>
    HandleHealthCheck (he_stat H) (he_net H) now (hr_stat x) item = Inr (item', s) \<Longrightarrow>
    health_step H x (x\<lparr>hr_dispatcher := p, hr_stat := s\<rparr>)"
| shutdown_begins: "hr_shutdown x = Up \<Longrightarrow> health_step H x (begin_shutdown x)"
| pool_stopped: "hr_shutdown x = Stopping \<Longrightarrow> dispatch (hr_dispatcher x) = Closed \<Longrightarrow> health_step H x (close_quit x)"
| shutdown_returns: "hr_shutdown x = WaitingForLoops \<Longrightarrow> hr_quitWG x = 0 \<Longrightarrow>
    health_step H x (x\<lparr>hr_shutdown := ShutDone\<rparr>)"

inductive_cases health_stepE: "health_step H x x'"

abbreviation health_steps where "health_steps H \<equiv> (health_step H)\<^sup>*\<^sup>*"

section \<open>What a shutdown waits for\<close>

text \<open>
  The wait group counts the loops that still run once the channel is closed; a checker that was not started has an idle
  pool.
\<close>

definition alive :: "('d, 't, 'zc, 'rc, 's) health_run \<Rightarrow> int" where
  "alive x = (if hr_loop x = LoopDone then 0 else 1) + (if hr_transfer x = TransferDone then 0 else 1)"

definition counted :: "('d, 't, 'zc, 'rc, 's) health_run \<Rightarrow> bool" where
  "counted x \<longleftrightarrow> (hr_quit x \<longleftrightarrow> hr_shutdown x \<in> {WaitingForLoops, ShutDone}) \<and>
     (if hr_quit x then hr_quitWG x = alive x else hr_quitWG x = 0 \<and> alive x = 2) \<and>
     (hr_shutdown x = ShutDone \<longrightarrow> alive x = 0) \<and>
     (hr_loop x = NoLoop \<longleftrightarrow> hr_transfer x = NoTransfer) \<and>
     (hr_loop x = NoLoop \<longrightarrow> dispatch (hr_dispatcher x) = Idle)"

lemma fold_Queue_const [simp]:
  "dispatch (fold Queue items p) = dispatch p" "quit (fold Queue items p) = quit p"
  by (induction items arbitrary: p) (simp_all add: Queue_def)

lemma goroutine_idle: "goroutine p p' \<Longrightarrow> dispatch p = Idle \<Longrightarrow> dispatch p' = Idle"
  by (induction rule: goroutine.induct) simp_all

lemma counted_step: "health_step H x x' \<Longrightarrow> counted x \<Longrightarrow> counted x'"
  by (elim health_stepE)
    (auto simp: counted_def alive_def start_checks_def begin_shutdown_def close_quit_def Stop_def goroutine_idle split: if_splits)

lemma counted_steps: "health_steps H x x' \<Longrightarrow> counted x \<Longrightarrow> counted x'"
  by (induction rule: rtranclp_induct) (auto dest: counted_step)

lemma new_dispatcher_idle: "new_dispatcher h = Inr p \<Longrightarrow> dispatch p = Idle"
  by (auto simp: new_dispatcher_def andThen_Inr_iff NewDispatcher_def workers_added split: if_splits)

lemma idle_counted: "dispatch p = Idle \<Longrightarrow> counted (idle_checker dh s p)"
  by (simp add: idle_checker_def counted_def alive_def)

text \<open>Without zones the loop of \<open>Transfer\<close> never comes to its \<open>select\<close>.\<close>

definition no_zone_seen :: "'d \<Rightarrow> ('d, 't, 'zc, 'rc, 's) health_run \<Rightarrow> bool" where
  "no_zone_seen d x \<longleftrightarrow> dh_redis (hr_data x) = d \<and> hr_transfer x \<in> {NoTransfer, Outer, Domains []}"

lemma GetZones_none:
  assumes "redis_laws (e_server D) up ks glob" and "up (dh_redis dh)"
    and "set_at (ks (dh_redis dh)) (rkey (dc_Redis (e_config D)) zonesKey) = Some {}"
  shows "GetZones D dh = Inr ([], dh_redis dh)"
  using redis_laws.smembers_complete [OF assms] by (auto simp: GetZones_def)

lemma no_zone_step:
  assumes "redis_laws (e_server (he_data H)) up ks glob" and "up d"
    and "set_at (ks d) (rkey (dc_Redis (e_config (he_data H))) zonesKey) = Some {}"
    and "health_step H x x'" and "no_zone_seen d x"
  shows "no_zone_seen d x'"
proof -
  have "GetZones (he_data H) (hr_data x) = Inr ([], d)"
    using GetZones_none [OF assms(1), of "hr_data x"] assms(2,3,5) by (simp add: no_zone_seen_def)
  with assms(4,5) show ?thesis
    by (elim health_stepE) (auto simp: no_zone_seen_def start_checks_def begin_shutdown_def close_quit_def)
qed

lemma no_zone_steps:
  assumes "redis_laws (e_server (he_data H)) up ks glob" and "up d"
    and "set_at (ks d) (rkey (dc_Redis (e_config (he_data H))) zonesKey) = Some {}"
    and "health_steps H x x'" and "no_zone_seen d x"
  shows "no_zone_seen d x'"
  using assms(4,5) by (induction rule: rtranclp_induct) (auto intro: no_zone_step [OF assms(1-3)])

section \<open>Reading the zones\<close>

text \<open>
  A database in order, as in the theory \<open>Resolver\<close>, in which the keys of configurations and signing keys hold no sets; and a data handler on
  it whose cached zones have the stored locations.
\<close>

definition string_keys :: "('s, 'r, 't, 'zc, 'rc) storage_env \<Rightarrow> keyspace \<Rightarrow> bool" where
  "string_keys E ks \<longleftrightarrow> (\<forall>n t A. \<forall>k \<in> {zoneConfigKey n, zonePubKey n t, zonePrivKey n t}.
     ks (rkey (dc_Redis (e_config E)) k) \<noteq> Some (RSet A))"

definition sound_source ::
  "('s, 'r, 't, 'zc, 'rc) storage_env \<Rightarrow> ('s \<Rightarrow> bool) \<Rightarrow> ('s \<Rightarrow> keyspace) \<Rightarrow> (string \<Rightarrow> string \<Rightarrow> bool) \<Rightarrow> 't libs \<Rightarrow> 's \<Rightarrow> bool" where
  "sound_source E up ks glob L d \<longleftrightarrow> redis_laws (e_server E) up ks glob \<and> up d \<and> sound_store E (ks d) \<and> fits_libs L E \<and>
     string_keys E (ks d)"

definition labels_of :: "('s, 'r, 't, 'zc, 'rc) storage_env \<Rightarrow> keyspace \<Rightarrow> string \<Rightarrow> string set option" where
  "labels_of E ks n = set_at ks (rkey (dc_Redis (e_config E)) (zoneLocationsKey n))"

definition ready ::
  "('s, 'r, 't, 'zc, 'rc) storage_env \<Rightarrow> ('s \<Rightarrow> keyspace) \<Rightarrow> 't libs \<Rightarrow> 's \<Rightarrow> ('s, 't, 'zc, 'rc) DataHandler \<Rightarrow> bool" where
  "ready E ks L d dh \<longleftrightarrow> dh_redis dh = d \<and> cached_served L E (dh_zoneCache dh) \<and>
     (\<forall>n z. c_Get (e_zoneCache E) (dh_zoneCache dh) n = Some z \<longrightarrow> Some (set (z_LocationsList z)) = labels_of E (ks d) n)"

lemma redis_Get_keeps:
  assumes "redis_laws S up ks glob" and "up s" and "\<And>A. ks s (rkey cfg k) \<noteq> Some (RSet A)"
  shows "snd (redis_Get S cfg s k) = s"
proof (cases "ks s (rkey cfg k)")
  case None
  then show ?thesis using redis_laws.get_missing [OF assms(1,2)] by simp
next
  case (Some v)
  then obtain str where "ks s (rkey cfg k) = Some (RString str)" using assms(3) by (cases v) auto
  then show ?thesis using redis_laws.get_found [OF assms(1,2)] by simp
qed

lemma get_or_empty_keeps:
  assumes "sound_source E up ks glob L d" and "k \<in> {zoneConfigKey n, zonePubKey n t, zonePrivKey n t}"
  shows "\<exists>v. get_or_empty E d k = (v, d)"
proof -
  have src: "redis_laws (e_server E) up ks glob" "up d" "string_keys E (ks d)" using assms(1) by (simp_all add: sound_source_def)
  have "ks d (rkey (dc_Redis (e_config E)) k) \<noteq> Some (RSet A)" for A
    using src(3) assms(2) unfolding string_keys_def by blast
  from redis_Get_keeps [OF src(1,2) this] show ?thesis
    by (cases "redis_Get (e_server E) (dc_Redis (e_config E)) d k") (auto simp: get_or_empty_def split: sum.splits)
qed

lemma loadKey_keeps:
  assumes "sound_source E up ks glob L d" and "loadKey E now d n t = Inr (k, s)"
  shows "s = d"
proof -
  obtain pubStr where pub: "get_or_empty E d (zonePubKey n t) = (pubStr, d)"
    using get_or_empty_keeps [OF assms(1), of "zonePubKey n t" n t] by blast
  obtain privStr where priv: "get_or_empty E d (zonePrivKey n t) = (privStr, d)"
    using get_or_empty_keeps [OF assms(1), of "zonePrivKey n t" n t] by blast
  note key = assms(2) [unfolded loadKey_def pub, simplified priv prod.case]
  show ?thesis
  proof (cases "pubStr = [] \<or> privStr = [] \<or> isl (e_NewRR E pubStr)")
    case True
    then show ?thesis using key by (auto simp: isl_def split: if_splits)
  next
    case False
    then obtain rr where "e_NewRR E pubStr = Inr rr" by (cases "e_NewRR E pubStr") auto
    then show ?thesis using key False by (cases rr) (auto split: sum.splits)
  qed
qed

lemma loadZoneKeys_keeps:
  assumes "sound_source E up ks glob L d" and "loadZoneKeys E now d z = Inr (z', s)"
  shows "s = d"
proof (cases "zc_DnsSec (z_Config z)")
  case True
  then obtain zsk d' where zsk: "loadKey E now d (z_Name z) ''zsk'' = Inr (zsk, d')" "d' = d"
    using assms(2) loadKey_keeps [OF assms(1)] by (auto simp: loadZoneKeys_def andThen_Inr_iff)
  with True assms(2) show ?thesis
    by (auto simp: loadZoneKeys_def andThen_Inr_iff split: option.splits dest!: loadKey_keeps [OF assms(1)])
qed (use assms(2) in \<open>simp add: loadZoneKeys_def\<close>)

lemma loadZone_ready:
  assumes src: "sound_source E up ks glob L d" and "ready E ks L d dh"
  shows "\<exists>z dh'. loadZone E now dh n = Inr (Some z, dh') \<and> ready E ks L d dh' \<and>
    Some (set (z_LocationsList z)) = labels_of E (ks d) n"
proof -
  have d: "dh_redis dh = d" "cached_served L E (dh_zoneCache dh)" using assms(2) by (simp_all add: ready_def)
  have laws: "redis_laws (e_server E) up ks glob" "up d" "sound_store E (ks d)" "fits_libs L E"
    using src by (simp_all add: sound_source_def)
  obtain z dh' where load: "loadZone E now dh n = Inr (Some z, dh')" "Some (set (z_LocationsList z)) = labels_of E (ks d) n"
    "cached_served L E (dh_zoneCache dh')"
    using loadZone_serves [OF laws(1) _ _ laws(4) d(2), of now n] laws d(1) by (auto simp: labels_of_def)
  obtain A where "set_at (ks d) (rkey (dc_Redis (e_config E)) (zoneLocationsKey n)) = Some A"
    using laws(3) unfolding sound_store_def by blast
  then obtain locs where members: "SMembers (e_server E) (dc_Redis (e_config E)) d (zoneLocationsKey n) = Some (Inr locs, d)"
    using redis_laws.smembers_complete [OF laws(1,2)] by blast
  obtain str where cfg: "get_or_empty E d (zoneConfigKey n) = (str, d)"
    using get_or_empty_keeps [OF src, of "zoneConfigKey n" n] by blast
  have stored: "dh_redis dh' = d \<and> dh_zoneCache dh' = c_Set (e_zoneCache E) (dh_zoneCache dh) n z"
    using load(1)
    by (auto simp: loadZone_def andThen_Inr_iff Let_def d(1) members cfg dest!: loadZoneKeys_keeps [OF src])
  have "lossy_cache (e_zoneCache E)" using laws(4) by (simp add: fits_libs_def)
  note put = lossy_cache.get_set [OF this]
  have "Some (set (z_LocationsList y)) = labels_of E (ks d) m"
    if "c_Get (e_zoneCache E) (dh_zoneCache dh') m = Some y" for m y
    using that put load(2) assms(2) stored unfolding ready_def by metis
  then have "ready E ks L d dh'" using stored load(3) by (simp add: ready_def)
  with load show ?thesis by blast
qed

lemma GetZone_ready:
  assumes "sound_source E up ks glob L d" and "ready E ks L d dh"
  shows "\<exists>z dh'. GetZone E now dh n = Inr (Some z, dh') \<and> ready E ks L d dh' \<and>
    Some (set (z_LocationsList z)) = labels_of E (ks d) n"
proof -
  obtain z dh' where load: "loadZone E now dh n = Inr (Some z, dh')" "ready E ks L d dh'"
    "Some (set (z_LocationsList z)) = labels_of E (ks d) n"
    using loadZone_ready [OF assms] by blast
  show ?thesis
  proof (cases "c_Get (e_zoneCache E) (dh_zoneCache dh) n")
    case None
    with load show ?thesis by (simp add: GetZone_def Let_def)
  next
    case (Some c)
    then have "Some (set (z_LocationsList c)) = labels_of E (ks d) n" using assms(2) by (auto simp: ready_def)
    with Some load assms(2) show ?thesis by (cases "now \<le> z_CacheTimeout c") (simp_all add: GetZone_def Let_def)
  qed
qed

lemma read_zone_ready:
  assumes "sound_source E up ks glob L d" and "ready E ks L d dh"
  shows "\<exists>domainId dh1 subdomains dh2. getDomainId E now dh n = Inr (domainId, dh1) \<and>
    GetZoneLocations E now dh1 n = Inr (subdomains, dh2) \<and> ready E ks L d dh2 \<and>
    Some (set subdomains) = labels_of E (ks d) n"
proof -
  obtain z dh1 where z: "GetZone E now dh n = Inr (Some z, dh1)" "ready E ks L d dh1"
    using GetZone_ready [OF assms] by blast
  obtain z' dh2 where "GetZone E now dh1 n = Inr (Some z', dh2)" "ready E ks L d dh2"
    "Some (set (z_LocationsList z')) = labels_of E (ks d) n"
    using GetZone_ready [OF assms(1) z(2)] by blast
  with z show ?thesis by (simp add: getDomainId_def GetZoneConfig_def GetZoneLocations_def)
qed

lemma getRRSet_ready:
  assumes "sound_source E up ks glob L d" and "ready E ks L d dh" and "t \<in> {TypeA, TypeAAAA}"
  shows "ready E ks L d (snd (getRRSet E now dh n l t r))"
proof -
  let ?k = "zoneLocationRRSetKey n l (TypeToString (e_tables E) t)"
  have src: "redis_laws (e_server E) up ks glob" "up d" "sound_store E (ks d)"
    using assms(1) by (simp_all add: sound_source_def)
  have "ks d (rkey (dc_Redis (e_config E)) ?k) \<noteq> Some (RSet A)" for A
    using src(3) [unfolded sound_store_def, THEN conjunct2, rule_format, OF assms(3)] by (metis option.case(2) rvalue.case(2))
  from redis_Get_keeps [OF src(1,2) this] obtain v
    where "redis_Get (e_server E) (dc_Redis (e_config E)) (dh_redis dh) ?k = (v, d)"
    using assms(2) by (cases "redis_Get (e_server E) (dc_Redis (e_config E)) d ?k") (auto simp: ready_def)
  with assms(2) show ?thesis by (auto simp: getRRSet_def Let_def ready_def split: option.split sum.split)
qed

lemma transfer_location_ready:
  assumes "sound_source E up ks glob L d" and "ready E ks L d dh"
    and "transfer_location E F h now i n l (dh, s) = (dh', s')"
  shows "ready E ks L d dh'"
proof -
  have keeps: "ready E ks L d (snd (dh_A E now y n l))" "ready E ks L d (snd (dh_AAAA E now y n l))"
    if "ready E ks L d y" for y
    using getRRSet_ready [OF assms(1) that] by (simp_all add: dh_A_def dh_AAAA_def as_kind_def split: prod.split) (metis snd_conv)+
  have "dh' = snd (dh_AAAA E now (snd (dh_A E now dh n l)) n l)"
    using assms(3) by (auto simp: transfer_location_def split: prod.splits sum.splits)
  then show ?thesis using keeps assms(2) by simp
qed

text \<open>The client of the results loses no connection.\<close>

lemma commands_up:
  assumes "redis_laws S up ks glob" and "up s"
  shows "up (snd (do_unit S s cmd))" "up (snd (do_reply S conv s cmd))"
  using redis_laws.stays_up [OF assms, of cmd] assms(2)
  by (auto simp: do_unit_def do_reply_def split: prod.splits sum.splits)

lemma items_up:
  assumes "redis_laws (se_server F) up ks glob" and "up s"
  shows "up (snd (GetHealthcheckItem F s key))" "up (snd (SetHealthcheckItem F s item))"
    "up (snd (SetHealthcheckItemExpiration F s key t))"
proof -
  let ?S = "se_server F" and ?c = "se_redis F"
  have "up (snd (redis_Get ?S ?c s (healthPrefix @ key)))" using commands_up(2) [OF assms] by (simp add: redis_Get_def)
  then show "up (snd (GetHealthcheckItem F s key))"
    by (cases "redis_Get ?S ?c s (healthPrefix @ key)") (simp add: GetHealthcheckItem_def split: sum.split)
  show "up (snd (SetHealthcheckItem F s item))"
    using commands_up(1) [OF assms] assms(2) by (simp add: SetHealthcheckItem_def redis_Set_def split: sum.split)
  show "up (snd (SetHealthcheckItemExpiration F s key t))"
    using commands_up(1) [OF assms] by (simp add: SetHealthcheckItemExpiration_def Expire_def)
qed

lemma due_items_up:
  assumes "redis_laws (se_server F) up ks glob" and "up s"
  shows "up (snd (due_items F h now keys s))"
  using assms(2)
proof (induction keys arbitrary: s)
  case (Cons k keys)
  then show ?case using items_up(1) [OF assms(1) Cons.prems, of k] by (auto split: prod.splits) (metis snd_conv)
qed simp

lemma transfer_rrset_up:
  assumes "redis_laws (se_server F) up ks glob" and "up s"
  shows "up (transfer_rrset F h fqdn domainId rrset s)"
proof -
  have one: "up (transfer_address F h fqdn domainId hc r y)" if y: "up y" for hc r y
  proof -
    let ?k = "fqdn @ '':'' @ IP_String (ip_Ip r)"
    obtain old y' where "GetHealthcheckItem F y ?k = (old, y')" by force
    moreover from this have "up y'" using items_up(1) [OF assms(1) y, of ?k] by simp
    ultimately show ?thesis using items_up(2,3) [OF assms(1)] by (simp add: transfer_address_def Let_def)
  qed
  have "up (fold (transfer_address F h fqdn domainId hc) rs y)" if "up y" for hc rs y
    using that by (induction rs arbitrary: y) (simp_all add: one)
  then show ?thesis using assms(2) by (simp add: transfer_rrset_def)
qed

lemma transfer_location_up:
  assumes "redis_laws (se_server F) up ks glob" and "up s"
    and "transfer_location E F h now i n l (dh, s) = (dh', s')"
  shows "up s'"
  using assms(2,3) transfer_rrset_up [OF assms(1)]
  by (auto simp: transfer_location_def split: prod.splits sum.splits)

lemma HandleHealthCheck_up:
  assumes "redis_laws (se_server F) up ks glob" and "up s" and "\<And>m. run_check N item \<noteq> Some (Panic m)"
  shows "\<exists>item' s'. HandleHealthCheck F N now s item = Inr (item', s') \<and> up s'"
  using items_up(2) [OF assms(1,2)] assms(3)
  by (cases "run_check N item") (auto simp: HandleHealthCheck_def Let_def split: go_error.split)

lemma active_items_up:
  assumes "redis_laws (se_server F) up ks glob" and "up s"
  shows "\<exists>keys. GetActiveHealthcheckItems F s = Some (Inr keys, s)"
  using redis_laws.getkeys_complete [OF assms, of "se_redis F" "healthPrefix @ ''*''"]
  by (auto simp: GetActiveHealthcheckItems_def)

section \<open>The shutdown of a running checker\<close>

text \<open>
  The surroundings of a checker that works: the database is in order and some zone has a location, the server of the results
  answers, and no check panics.  Then every state of the started checker is \<open>checker_running\<close>.
\<close>

definition working_checker ::
  "('d, 'q, 't, 'zc, 'rc, 's, 'r, 'hc) health_env \<Rightarrow> ('d \<Rightarrow> bool) \<Rightarrow> ('d \<Rightarrow> keyspace) \<Rightarrow> (string \<Rightarrow> string \<Rightarrow> bool) \<Rightarrow>
   't libs \<Rightarrow> 'd \<Rightarrow> ('s \<Rightarrow> bool) \<Rightarrow> ('s \<Rightarrow> keyspace) \<Rightarrow> (string \<Rightarrow> string \<Rightarrow> bool) \<Rightarrow> bool" where
  "working_checker H up ks glob L d up' ks' glob' \<longleftrightarrow>
     sound_source (he_data H) up ks glob L d \<and> redis_laws (se_server (he_stat H)) up' ks' glob' \<and>
     (\<exists>Z. set_at (ks d) (rkey (dc_Redis (e_config (he_data H))) zonesKey) = Some Z \<and>
          (\<exists>n \<in> Z. labels_of (he_data H) (ks d) n \<noteq> Some {})) \<and>
     (\<forall>item m. run_check (he_net H) item \<noteq> Some (Panic m))"

definition checker_running ::
  "('d, 'q, 't, 'zc, 'rc, 's, 'r, 'hc) health_env \<Rightarrow> ('d \<Rightarrow> keyspace) \<Rightarrow> 't libs \<Rightarrow> 'd \<Rightarrow> ('s \<Rightarrow> bool) \<Rightarrow>
   HealthCheckItem Dispatcher \<Rightarrow> ('d, 't, 'zc, 'rc, 's) health_run \<Rightarrow> bool" where
  "checker_running H ks L d up' p x \<longleftrightarrow> ready (he_data H) ks L d (hr_data x) \<and> up' (hr_stat x) \<and>
     (\<exists>J. reachable p J (hr_dispatcher x)) \<and> (quit (hr_dispatcher x) \<longleftrightarrow> hr_shutdown x \<noteq> Up) \<and>
     hr_loop x \<noteq> NoLoop \<and> counted x"

lemma reachable_queued: "reachable p J e \<Longrightarrow> \<exists>J. reachable p J (fold Queue items e)"
proof (induction items arbitrary: J e)
  case (Cons j items)
  then show ?case using reachable.queue by fastforce
qed auto

lemma goroutine_quit: "goroutine e e' \<Longrightarrow> quit e' = quit e"
  by (induction rule: goroutine.induct) (simp_all add: close_worker_def)

lemma goroutine_handled: "goroutine e e' \<Longrightarrow> handled e' = handled e \<or> (\<exists>j. handled e' = add_mset j (handled e))"
  by (induction rule: goroutine.induct) (simp_all add: close_worker_def)

lemma running_start:
  assumes "working_checker H up ks glob L d up' ks' glob'" and "ready (he_data H) ks L d dh" and "up' s" and "\<not> quit p"
  shows "checker_running H ks L d up' p (start_checks (idle_checker dh s p))"
  using assms reachable.start [of p]
  by (auto simp: checker_running_def start_checks_def idle_checker_def counted_def alive_def Run_def)

lemma GetZones_working:
  assumes "working_checker H up ks glob L d up' ks' glob'" and "ready (he_data H) ks L d dh"
  shows "\<exists>domains. GetZones (he_data H) dh = Inr (domains, d) \<and> (\<exists>n \<in> set domains. labels_of (he_data H) (ks d) n \<noteq> Some {})"
proof -
  have src: "redis_laws (e_server (he_data H)) up ks glob" "up d"
    using assms(1) by (simp_all add: working_checker_def sound_source_def)
  obtain Z where Z: "set_at (ks d) (rkey (dc_Redis (e_config (he_data H))) zonesKey) = Some Z"
    "\<exists>n \<in> Z. labels_of (he_data H) (ks d) n \<noteq> Some {}"
    using assms(1) by (auto simp: working_checker_def)
  from redis_laws.smembers_complete [OF src Z(1)] Z(2) assms(2) show ?thesis by (auto simp: GetZones_def ready_def)
qed

lemma running_step:
  assumes work: "working_checker H up ks glob L d up' ks' glob'" and x: "checker_running H ks L d up' p x" and step: "health_step H x x'"
  shows "checker_running H ks L d up' p x'"
proof -
  have src: "sound_source (he_data H) up ks glob L d" "redis_laws (se_server (he_stat H)) up' ks' glob'"
    and safe: "\<And>item m. run_check (he_net H) item \<noteq> Some (Panic m)"
    using work by (simp_all add: working_checker_def)
  have inv: "ready (he_data H) ks L d (hr_data x)" "up' (hr_stat x)" "hr_loop x \<noteq> NoLoop" "counted x"
    "\<exists>J. reachable p J (hr_dispatcher x)" "quit (hr_dispatcher x) \<longleftrightarrow> hr_shutdown x \<noteq> Up"
    using x by (simp_all add: checker_running_def)
  have data: "ready (he_data H) ks L d (hr_data x')"
    using step
  proof (cases rule: health_step.cases)
    case (read_zones domains dd)
    then show ?thesis using GetZones_working [OF work inv(1)] inv(1) by (auto simp: ready_def)
  next
    case (read_locations domain domains now domainId dh subdomains dh')
    then show ?thesis using read_zone_ready [OF src(1) inv(1), of now domain] by auto
  next
    case (transfer_tick domainId domain subdomain subdomains domains now dh s)
    then show ?thesis using transfer_location_ready [OF src(1) inv(1)] by auto
  qed (use inv(1) in \<open>simp_all add: start_checks_def begin_shutdown_def close_quit_def\<close>)
  have stat: "up' (hr_stat x')"
    using step
  proof (cases rule: health_step.cases)
    case (read_keys r s)
    then show ?thesis using active_items_up [OF src(2) inv(2)] inv(2) by auto
  next
    case (check_tick ks now items s)
    then show ?thesis using due_items_up [OF src(2) inv(2), of "he_check H" now ks] by simp
  next
    case (transfer_tick domainId domain subdomain subdomains domains now dh s)
    then show ?thesis using transfer_location_up [OF src(2) inv(2)] by auto
  next
    case (check_step pool item now item' s)
    then show ?thesis using HandleHealthCheck_up [OF src(2) inv(2) safe, of now item] by auto
  qed (use inv(2) in \<open>simp_all add: start_checks_def begin_shutdown_def close_quit_def\<close>)
  have pool: "(\<exists>J. reachable p J (hr_dispatcher x')) \<and> (quit (hr_dispatcher x') \<longleftrightarrow> hr_shutdown x' \<noteq> Up) \<and> hr_loop x' \<noteq> NoLoop"
    using step inv(3,5,6)
    by (elim health_stepE)
      (auto simp: start_checks_def begin_shutdown_def close_quit_def Stop_def goroutine_quit intro: reachable_queued reachable.run
        reachable.stop [unfolded Stop_def])
  show ?thesis using data stat pool counted_step [OF step inv(4)] by (simp add: checker_running_def)
qed

lemma running_steps:
  assumes "working_checker H up ks glob L d up' ks' glob'" and "checker_running H ks L d up' p x" and "health_steps H x x'"
  shows "checker_running H ks L d up' p x'"
  using assms(3,2) by (induction rule: rtranclp_induct) (auto intro: running_step [OF assms(1)])

text \<open>The goroutines of the pool run beside the loops: their jobs are checks, which return.\<close>

lemma pool_runs:
  assumes work: "working_checker H up ks glob L d up' ks' glob'" and "goroutine\<^sup>*\<^sup>* (hr_dispatcher x) e"
    and x: "checker_running H ks L d up' p x"
  shows "\<exists>x'. health_steps H x x' \<and> hr_dispatcher x' = e \<and> hr_shutdown x' = hr_shutdown x"
  using assms(2)
proof (induction rule: rtranclp_induct)
  case (step e e')
  then obtain y where y: "health_steps H x y" "hr_dispatcher y = e" "hr_shutdown y = hr_shutdown x" by blast
  have "\<exists>z. health_step H y z \<and> hr_dispatcher z = e' \<and> hr_shutdown z = hr_shutdown x"
    using goroutine_handled [OF step.hyps(2)]
  proof
    assume "handled e' = handled e"
    then have "health_step H y (y\<lparr>hr_dispatcher := e'\<rparr>)" using step.hyps(2) y(2) by (intro health_step.pool_step) simp_all
    then show ?thesis using y(3) by (intro exI [of _ "y\<lparr>hr_dispatcher := e'\<rparr>"]) simp
  next
    assume "\<exists>j. handled e' = add_mset j (handled e)"
    then obtain j where j: "handled e' = add_mset j (handled e)" by blast
    have ok: "up' (hr_stat y)" "redis_laws (se_server (he_stat H)) up' ks' glob'" "\<And>m. run_check (he_net H) j \<noteq> Some (Panic m)"
      using running_steps [OF work x y(1)] work by (simp_all add: checker_running_def working_checker_def)
    from HandleHealthCheck_up [OF ok(2,1,3)]
    obtain j' s' where "HandleHealthCheck (he_stat H) (he_net H) now (hr_stat y) j = Inr (j', s')" by blast
    then have "health_step H y (y\<lparr>hr_dispatcher := e', hr_stat := s'\<rparr>)"
      using step.hyps(2) y(2) j by (intro health_step.check_step) simp_all
    then show ?thesis using y(3) by (intro exI [of _ "y\<lparr>hr_dispatcher := e', hr_stat := s'\<rparr>"]) simp
  qed
  then show ?case using rtranclp.rtrancl_into_rtrancl [OF y(1)] by blast
qed auto

lemma pool_stops:
  assumes work: "working_checker H up ks glob L d up' ks' glob'" and "checker_running H ks L d up' p x" and "new_dispatcher h = Inr p"
    and "hr_shutdown x = Stopping"
  shows "\<exists>x'. health_steps H x x' \<and> hr_shutdown x' = WaitingForLoops"
proof -
  obtain q where q: "NewDispatcher (hk_maxPendingRequests h) (hk_maxRequests h) = Inr q"
    "p = (AddWorker ^^ nat (hk_maxRequests h)) q"
    using assms(3) by (auto simp: new_dispatcher_def andThen_Inr_iff)
  obtain J where J: "reachable p J (hr_dispatcher x)" "quit (hr_dispatcher x)"
    using assms(2,4) by (auto simp: checker_running_def)
  obtain e where e: "goroutine\<^sup>*\<^sup>* (hr_dispatcher x) e" "resting e" using goroutines_rest by blast
  have "pool_ok (nat (hk_maxRequests h)) (nat (hk_maxRequests h)) J e" "quit e"
    using goroutines_pool_ok [OF e(1) reachable_pool_ok [OF q(1)]] J q(2) by blast+
  then have "dispatch e = Closed" using e(2) by (intro resting_closed) auto
  moreover obtain y where y: "health_steps H x y" "hr_dispatcher y = e" "hr_shutdown y = Stopping"
    using pool_runs [OF work e(1) assms(2)] assms(4) by auto
  ultimately have "health_step H y (close_quit y)" by (intro health_step.pool_stopped) simp_all
  with y(1) have "health_steps H x (close_quit y)" by (rule rtranclp.rtrancl_into_rtrancl)
  then show ?thesis by (intro exI [of _ "close_quit y"]) (simp add: close_quit_def)
qed

text \<open>Each loop comes to its \<open>select\<close> and reads the closed channel there, whatever the other one does.\<close>

lemma loop_ends:
  assumes "working_checker H up ks glob L d up' ks' glob'" and "checker_running H ks L d up' p x" and "hr_quit x"
  shows "\<exists>x'. health_steps H x x' \<and> hr_loop x' = LoopDone \<and> hr_shutdown x' = hr_shutdown x"
proof -
  have laws: "redis_laws (se_server (he_stat H)) up' ks' glob'" "up' (hr_stat x)" "hr_loop x \<noteq> NoLoop"
    using assms by (simp_all add: working_checker_def checker_running_def)
  have waiting: "\<exists>x'. health_steps H y x' \<and> hr_loop x' = LoopDone \<and> hr_shutdown x' = hr_shutdown y"
    if "hr_loop y = Awaiting itemKeys" and "hr_quit y" for itemKeys and y :: "('a, 'c, 'd, 'e, 'f) health_run"
    using health_step.loop_quit [of y itemKeys H] that
    by (intro exI [of _ "y\<lparr>hr_quitWG := hr_quitWG y - 1, hr_loop := LoopDone\<rparr>"]) (simp add: r_into_rtranclp)
  show ?thesis
  proof (cases "hr_loop x")
    case Reading
    obtain itemKeys where "GetActiveHealthcheckItems (he_stat H) (hr_stat x) = Some (Inr itemKeys, hr_stat x)"
      using active_items_up [OF laws(1,2)] by blast
    then have "health_step H x (x\<lparr>hr_stat := hr_stat x, hr_loop := Awaiting itemKeys\<rparr>)"
      using health_step.read_keys [OF Reading] by fastforce
    moreover obtain x' where "health_steps H (x\<lparr>hr_stat := hr_stat x, hr_loop := Awaiting itemKeys\<rparr>) x'"
      "hr_loop x' = LoopDone" "hr_shutdown x' = hr_shutdown x"
      using waiting [of "x\<lparr>hr_stat := hr_stat x, hr_loop := Awaiting itemKeys\<rparr>" itemKeys] assms(3) by auto
    ultimately show ?thesis by (meson converse_rtranclp_into_rtranclp)
  qed (use laws(3) waiting assms(3) in auto)
qed

definition still_quitting :: "('d, 't, 'zc, 'rc, 's) health_run \<Rightarrow> ('d, 't, 'zc, 'rc, 's) health_run \<Rightarrow> bool" where
  "still_quitting x x' \<longleftrightarrow> hr_quit x' \<and> hr_loop x' = hr_loop x \<and> hr_shutdown x' = hr_shutdown x"

lemma transfer_quits:
  assumes "hr_transfer x = Locations i n subdomains domains" and "subdomains \<noteq> []" and "hr_quit x"
  shows "\<exists>x'. health_steps H x x' \<and> still_quitting x x' \<and> hr_transfer x' = TransferDone"
proof -
  obtain l ls where "subdomains = l # ls" using assms(2) by (cases subdomains) auto
  then have "health_step H x (x\<lparr>hr_quitWG := hr_quitWG x - 1, hr_transfer := TransferDone\<rparr>)"
    using health_step.transfer_quit assms(1,3) by blast
  then show ?thesis using assms(3)
    by (intro exI [of _ "x\<lparr>hr_quitWG := hr_quitWG x - 1, hr_transfer := TransferDone\<rparr>"]) (simp add: r_into_rtranclp still_quitting_def)
qed

lemma domains_read:
  assumes work: "working_checker H up ks glob L d up' ks' glob'" and "checker_running H ks L d up' p x" and "hr_quit x"
    and "hr_transfer x = Domains domains"
  shows "\<exists>x'. health_steps H x x' \<and> still_quitting x x' \<and>
    (hr_transfer x' = TransferDone \<or>
     hr_transfer x' = Domains [] \<and> (\<forall>n \<in> set domains. labels_of (he_data H) (ks d) n = Some {}))"
  using assms(2-4)
proof (induction domains arbitrary: x)
  case Nil
  then show ?case by (intro exI [of _ x]) (simp add: still_quitting_def)
next
  case (Cons n domains)
  have src: "sound_source (he_data H) up ks glob L d" "ready (he_data H) ks L d (hr_data x)"
    using work Cons.prems(1) by (simp_all add: working_checker_def checker_running_def)
  from read_zone_ready [OF src, of 0 n] obtain i dh1 subs dh2
    where z: "getDomainId (he_data H) 0 (hr_data x) n = Inr (i, dh1)" "GetZoneLocations (he_data H) 0 dh1 n = Inr (subs, dh2)"
      "Some (set subs) = labels_of (he_data H) (ks d) n" by blast
  define y where "y = x\<lparr>hr_data := dh2, hr_transfer := Locations i n subs domains\<rparr>"
  have y: "health_step H x y" "hr_quit y" "hr_transfer y = Locations i n subs domains" "still_quitting x y"
    using health_step.read_locations [OF Cons.prems(3) z(1,2)] Cons.prems(2) by (simp_all add: y_def still_quitting_def)
  show ?case
  proof (cases "subs = []")
    case False
    from transfer_quits [OF y(3) False y(2), of H] obtain x'
      where x': "health_steps H y x'" "still_quitting y x'" "hr_transfer x' = TransferDone" by blast
    have "health_steps H x x'" using y(1) x'(1) by (rule converse_rtranclp_into_rtranclp)
    moreover have "still_quitting x x'" using y(4) x'(2) by (simp add: still_quitting_def)
    ultimately show ?thesis using x'(3) by blast
  next
    case True
    define w where "w = y\<lparr>hr_transfer := Domains domains\<rparr>"
    have w: "health_step H y w" "hr_quit w" "hr_transfer w = Domains domains" "still_quitting x w"
      using health_step.next_domain [of y i n domains H] y True by (simp_all add: w_def still_quitting_def)
    have xw: "health_steps H x w" using y(1) w(1) by (meson converse_rtranclp_into_rtranclp r_into_rtranclp)
    from Cons.IH [OF running_steps [OF work Cons.prems(1) xw] w(2,3)] obtain x'
      where x': "health_steps H w x'" "still_quitting w x'" "hr_transfer x' = TransferDone \<or>
       hr_transfer x' = Domains [] \<and> (\<forall>n \<in> set domains. labels_of (he_data H) (ks d) n = Some {})" by blast
    have "health_steps H x x'" using xw x'(1) by (rule rtranclp_trans)
    moreover have "still_quitting x x'" using w(4) x'(2) by (simp add: still_quitting_def)
    ultimately show ?thesis using x'(3) z(3) True by (intro exI [of _ x']) auto
  qed
qed

definition transfer_can_end where
  "transfer_can_end H x \<longleftrightarrow> (\<exists>x'. health_steps H x x' \<and> still_quitting x x' \<and> hr_transfer x' = TransferDone)"

lemma transfer_can_end_after: "health_steps H x y \<Longrightarrow> still_quitting x y \<Longrightarrow> transfer_can_end H y \<Longrightarrow> transfer_can_end H x"
  unfolding transfer_can_end_def still_quitting_def by (metis (no_types, lifting) rtranclp_trans)

lemma outer_ends:
  assumes work: "working_checker H up ks glob L d up' ks' glob'" and x: "checker_running H ks L d up' p x" and "hr_quit x"
    and "hr_transfer x = Outer"
  shows "transfer_can_end H x"
proof -
  obtain domains where zones: "GetZones (he_data H) (hr_data x) = Inr (domains, d)"
    "\<exists>n \<in> set domains. labels_of (he_data H) (ks d) n \<noteq> Some {}"
    using GetZones_working [OF work, of "hr_data x"] x by (auto simp: checker_running_def)
  define y where "y = x\<lparr>hr_data := (hr_data x)\<lparr>dh_redis := d\<rparr>, hr_transfer := Domains domains\<rparr>"
  have y: "health_step H x y" "hr_quit y" "hr_transfer y = Domains domains" "still_quitting x y"
    using health_step.read_zones [OF assms(4) zones(1)] assms(3) by (simp_all add: y_def still_quitting_def)
  have "transfer_can_end H y"
    using domains_read [OF work running_step [OF work x y(1)] y(2,3)] zones(2) unfolding transfer_can_end_def by fast
  with y(1,4) show ?thesis by (blast intro: transfer_can_end_after)
qed

lemma transfer_ends:
  assumes work: "working_checker H up ks glob L d up' ks' glob'" and "checker_running H ks L d up' p x" and "hr_quit x"
  shows "transfer_can_end H x"
proof -
  have domains: "transfer_can_end H y"
    if y: "checker_running H ks L d up' p y" "hr_quit y" "hr_transfer y = Domains domains" for y domains
  proof -
    obtain z where z: "health_steps H y z" "still_quitting y z" "hr_transfer z = TransferDone \<or> hr_transfer z = Domains []"
      using domains_read [OF work y] by blast
    have "transfer_can_end H z"
    proof (cases "hr_transfer z = TransferDone")
      case True
      then show ?thesis using z(2) by (auto simp: transfer_can_end_def still_quitting_def)
    next
      case False
      define w where "w = z\<lparr>hr_transfer := Outer\<rparr>"
      have w: "health_step H z w" "hr_quit w" "hr_transfer w = Outer" "still_quitting z w"
        using health_step.next_round [of z H] z False by (simp_all add: w_def still_quitting_def)
      from outer_ends [OF work running_step [OF work running_steps [OF work y(1) z(1)] w(1)] w(2,3)]
      show ?thesis using w(1,4) by (blast intro: transfer_can_end_after)
    qed
    with z(1,2) show ?thesis by (rule transfer_can_end_after)
  qed
  show ?thesis
  proof (cases "hr_transfer x")
    case NoTransfer
    then show ?thesis using assms(2) by (auto simp: checker_running_def counted_def)
  next
    case Outer
    then show ?thesis by (rule outer_ends [OF work assms(2,3)])
  next
    case (Domains ds)
    then show ?thesis by (rule domains [OF assms(2,3)])
  next
    case (Locations i n subs ds)
    show ?thesis
    proof (cases "subs = []")
      case True
      define y where "y = x\<lparr>hr_transfer := Domains ds\<rparr>"
      have y: "health_step H x y" "hr_quit y" "hr_transfer y = Domains ds" "still_quitting x y"
        using health_step.next_domain [of x i n ds H] Locations True assms(3) by (simp_all add: y_def still_quitting_def)
      then show ?thesis using domains [OF running_step [OF work assms(2) y(1)] y(2,3)] by (blast intro: transfer_can_end_after)
    next
      case False
      then show ?thesis using transfer_quits [OF Locations False assms(3), of H] unfolding transfer_can_end_def by blast
    qed
  next
    case TransferDone
    then show ?thesis using assms(3) by (auto simp: transfer_can_end_def still_quitting_def)
  qed
qed

text \<open>Both loops end, and the wait group is then at zero.\<close>

lemma waiting_returns:
  assumes work: "working_checker H up ks glob L d up' ks' glob'" and x: "checker_running H ks L d up' p x"
    and "hr_shutdown x = WaitingForLoops"
  shows "\<exists>x'. health_steps H x x' \<and> hr_shutdown x' = ShutDone"
proof -
  have quit: "hr_quit y" if "checker_running H ks L d up' p y" "hr_shutdown y = WaitingForLoops" for y
    using that by (simp add: checker_running_def counted_def)
  obtain y where y: "health_steps H x y" "hr_loop y = LoopDone" "hr_shutdown y = WaitingForLoops"
    using loop_ends [OF work x quit [OF x assms(3)]] assms(3) by auto
  note run = running_steps [OF work x y(1)]
  obtain z where z: "health_steps H y z" "hr_loop z = LoopDone" "hr_transfer z = TransferDone" "hr_shutdown z = WaitingForLoops"
    using transfer_ends [OF work run quit [OF run y(3)]] y(2,3) by (auto simp: transfer_can_end_def still_quitting_def)
  have "hr_quitWG z = 0" using running_steps [OF work run z(1)] z by (simp add: checker_running_def counted_def alive_def)
  with z(4) have "health_step H z (z\<lparr>hr_shutdown := ShutDone\<rparr>)" by (intro health_step.shutdown_returns)
  with y(1) z(1) have "health_steps H x (z\<lparr>hr_shutdown := ShutDone\<rparr>)" by (meson rtranclp.rtrancl_into_rtrancl rtranclp_trans)
  then show ?thesis by (intro exI [of _ "z\<lparr>hr_shutdown := ShutDone\<rparr>"]) simp
qed

lemma new_dispatcher_open: "new_dispatcher h = Inr p \<Longrightarrow> \<not> quit p"
  by (auto simp: new_dispatcher_def andThen_Inr_iff NewDispatcher_def workers_added split: if_splits)

lemma running_shuts_down:
  assumes work: "working_checker H up ks glob L d up' ks' glob'" and run: "checker_running H ks L d up' p x"
    and p: "new_dispatcher h = Inr p"
  shows "\<exists>x'. health_steps H x x' \<and> hr_shutdown x' = ShutDone"
proof -
  have waiting: "\<exists>x'. health_steps H y x' \<and> hr_shutdown x' = ShutDone"
    if "health_steps H x y" "hr_shutdown y = WaitingForLoops" for y
    by (rule waiting_returns [OF work running_steps [OF work run that(1)] that(2)])
  have stopping: "\<exists>x'. health_steps H x x' \<and> hr_shutdown x' = ShutDone"
    if y: "health_steps H x y" "hr_shutdown y = Stopping" for y
    using pool_stops [OF work running_steps [OF work run y(1)] p y(2)] waiting y(1) by (meson rtranclp_trans)
  show ?thesis
  proof (cases "hr_shutdown x")
    case Up
    from health_step.shutdown_begins [OF this] have "health_steps H x (begin_shutdown x)" by blast
    then show ?thesis by (rule stopping) (simp add: begin_shutdown_def)
  next
    case Stopping
    show ?thesis by (rule stopping [OF rtranclp.rtrancl_refl Stopping])
  next
    case WaitingForLoops
    show ?thesis by (rule waiting [OF rtranclp.rtrancl_refl WaitingForLoops])
  qed auto
qed

section \<open>Properties\<close>


text \<open>
  C34: what the end of a health checker takes.  When \<open>ShutDown\<close> has returned, both loops have ended: the checker had been
  started and redis had a zone.  A
  checker that was not started, as in \<open>src/cmd/healthchecker\<close>, or
  whose list of zones is empty, is never shut down.
\<close>

theorem shutdown_needs_zones:
  assumes "redis_laws (e_server (he_data H)) up ks glob" and "up (dh_redis dh)" and "new_dispatcher h = Inr p"
    and "health_steps H (idle_checker dh s p) x" and "hr_shutdown x = ShutDone"
  shows "hr_loop x = LoopDone \<and> hr_transfer x = TransferDone \<and>
    set_at (ks (dh_redis dh)) (rkey (dc_Redis (e_config (he_data H))) zonesKey) \<noteq> Some {}"
proof -
  have "counted x" using counted_steps [OF assms(4) idle_counted [OF new_dispatcher_idle [OF assms(3)]]] .
  then have "alive x = 0" using assms(5) by (simp add: counted_def)
  then have ended: "hr_loop x = LoopDone" "hr_transfer x = TransferDone" by (auto simp: alive_def split: if_splits)
  have "no_zone_seen (dh_redis dh) (idle_checker dh s p)" by (simp add: no_zone_seen_def idle_checker_def)
  with no_zone_steps [OF assms(1,2) _ assms(4)] ended show ?thesis by (auto simp: no_zone_seen_def)
qed

text \<open>A zone with two locations and checks that do not reach the network.\<close>

definition toy_zones :: mem where
  "toy_zones = (''z42:zones'', VSet [''z.'']) # toy_data"

definition toy_checker ::
  "(mem, mem_reply, alist_tree, string \<Rightarrow> alist_tree Zone option, string \<Rightarrow> RRSet option, mem, mem_reply,
    string \<Rightarrow> HealthCheckItem option) health_env" where
  "toy_checker = \<lparr>he_data = toy_env, he_stat = toy_stat,
     he_net = \<lparr>http_Do = (\<lambda>_ _ _ _. Inr 200), icmp_ListenPacket = Some (Err ''listen''), icmp_ParseIP = (\<lambda>_. None),
       icmp_Marshal = (\<lambda>_. Inr []), icmp_WriteTo = (\<lambda>_ _. None), icmp_ReadFrom = (\<lambda>_. Inr []),
       icmp_ParseMessage = (\<lambda>_. Inr (True, []))\<rparr>,
     he_check = NewHealthcheck Healthcheck_DefaultConfig\<rparr>"

lemma toy_zones_keys: "k \<noteq> ''z42:zones'' \<Longrightarrow> mem_keys toy_zones k = mem_keys toy_data k"
  by (simp add: mem_keys_def toy_zones_def)

lemma toy_zones_sound: "sound_store toy_env (mem_keys toy_zones)"
proof -
  have other: "zoneLocationsKey n \<noteq> ''z42:zones''" "zoneLocationRRSetKey n l t \<noteq> ''z42:zones''" for n l t
    by (auto simp: storage_keys dest!: arg_cong [of _ _ length])
  show ?thesis using toy_sound_store other
    by (simp add: sound_store_def toy_env_sel toy_zones_keys set_at_def)
qed

lemma toy_zones_strings: "string_keys toy_env (mem_keys toy_zones)"
proof -
  have "mem_keys toy_zones k \<noteq> Some (RSet A)" if "k \<in> {zoneConfigKey n, zonePubKey n t, zonePrivKey n t}" for k n t A
  proof -
    have "last k \<noteq> CHR ''s''" using that by (auto simp: storage_keys)
    then show ?thesis by (auto simp: mem_keys_def toy_zones_def toy_data_def)
  qed
  then show ?thesis by (simp add: string_keys_def toy_env_sel)
qed

lemma toy_working:
  "working_checker toy_checker (\<lambda>_. True) mem_keys mem_glob toy_libs toy_zones (\<lambda>_. True) mem_keys mem_glob"
proof -
  have "run_check (he_net toy_checker) item \<noteq> Some (Panic m)" for item m
    by (simp add: toy_checker_def run_check_def httpCheck_def pingCheck_def Let_def)
  moreover have "set_at (mem_keys toy_zones) zonesKey = Some {''z.''}"
    "labels_of toy_env (mem_keys toy_zones) ''z.'' = Some {''@'', ''a''}"
    by (simp_all add: labels_of_def toy_env_sel storage_keys set_at_def mem_keys_def toy_zones_def toy_data_def)
  ultimately show ?thesis
    using memory.redis_laws_axioms toy_fits toy_zones_sound toy_zones_strings
    by (simp add: working_checker_def sound_source_def toy_checker_def toy_stat_def toy_env_sel)
qed

definition toy_pending :: "HealthCheckItem Dispatcher" where
  "toy_pending = (case new_dispatcher (NewHealthcheck Healthcheck_DefaultConfig) of Inr p \<Rightarrow> p)"

definition toy_idle ::
  "(mem, alist_tree, string \<Rightarrow> alist_tree Zone option, string \<Rightarrow> RRSet option, mem) health_run" where
  "toy_idle = idle_checker (toy_storage toy_zones) [] toy_pending"

lemma toy_pending: "new_dispatcher (NewHealthcheck Healthcheck_DefaultConfig) = Inr toy_pending"
  by (simp add: toy_pending_def new_dispatcher_def NewDispatcher_def NewHealthcheck_def Healthcheck_DefaultConfig_def)

lemma toy_ready: "ready (he_data toy_checker) mem_keys toy_libs (dh_redis (toy_storage toy_zones)) (toy_storage toy_zones)"
  by (simp add: ready_def toy_checker_def toy_storage_def NewDataHandler_def cached_served_def toy_env_sel map_cache_def)

lemma toy_storage_redis: "dh_redis (toy_storage s) = s"
  by (simp add: toy_storage_def NewDataHandler_def)


theorem shutdown_needs_zones_witness:
  "\<exists>x. health_steps toy_checker toy_idle x \<and> hr_shutdown x = ShutDone \<and> hr_loop x = LoopDone \<and> hr_transfer x = TransferDone"
proof -
  have "health_step toy_checker toy_idle (start_checks toy_idle)"
    by (rule health_step.started)
      (simp_all add: toy_idle_def idle_checker_def toy_checker_def NewHealthcheck_def Healthcheck_DefaultConfig_def wrap64_def)
  moreover have "checker_running toy_checker mem_keys toy_libs toy_zones (\<lambda>_. True) toy_pending (start_checks toy_idle)"
    unfolding toy_idle_def
    using running_start [OF toy_working _ _ new_dispatcher_open [OF toy_pending]] toy_ready by (simp add: toy_storage_redis)
  from running_shuts_down [OF toy_working this toy_pending]
  obtain x where "health_steps toy_checker (start_checks toy_idle) x" "hr_shutdown x = ShutDone" by blast
  ultimately have "health_steps toy_checker toy_idle x" "hr_shutdown x = ShutDone"
    by (simp_all add: converse_rtranclp_into_rtranclp)
  with shutdown_needs_zones [of toy_checker "\<lambda>_. True" mem_keys mem_glob "toy_storage toy_zones" "NewHealthcheck Healthcheck_DefaultConfig" toy_pending "[]" x]
    memory.redis_laws_axioms toy_pending show ?thesis
    by (auto simp: toy_idle_def toy_checker_def toy_env_sel)
qed

end
