(* ===== verification/MainLoops.thy ===== *)
theory MainLoops
  imports Programs HandlerShutdown HealthRun
begin

text \<open>
  The \<open>main\<close> functions of the resolver and of the health checker (\<open>src/cmd/resolver/resolver.go\<close>,
  \<open>src/cmd/healthchecker/healthchecker.go\<close>): their flags, and the loop over signals with \<open>Stop\<close> and \<open>Start\<close>.

  The two programs have the same loop.  \<open>Stop\<close> first shuts down what the program is for, the request handler or the health checker,
  then the data handler, then the handler of the results; each \<open>ShutDown\<close> waits for goroutines, which run beside it.
\<close>

section \<open>Flags\<close>

datatype main_mode = VerifyOnly string | WriteTemplate string | ServeWith string

definition parse_flags :: "string option \<Rightarrow> bool \<Rightarrow> string option \<Rightarrow> main_mode" where
  "parse_flags configPtr verify generate =
     (let configFile = (case configPtr of None \<Rightarrow> ''config.json'' | Some f \<Rightarrow> f) in
      if verify then VerifyOnly configFile
      else (case generate of Some f \<Rightarrow> WriteTemplate f | None \<Rightarrow> ServeWith configFile))"

section \<open>The loop over signals\<close>

datatype signal = SIGINT | SIGHUP

text \<open>
  \<open>Serving\<close> waits for a signal.  The other live states are \<open>Stop\<close> at the \<open>ShutDown\<close> of the first component, of the
  data handler and of the handler of the results.
\<close>

record ('p, 'c) live =
  lv_program :: 'p
  lv_first :: 'c
  lv_data :: handler_run
  lv_stat :: handler_run

datatype ('p, 'c) main_state =
    Serving "('p, 'c) live"
  | AtFirst signal "('p, 'c) live"
  | AtData signal "('p, 'c) live"
  | AtStat signal "('p, 'c) live"
  | Exited
  | Crashed go_error

text \<open>
  What the loop needs of a program: the steps of its first component and its \<open>ShutDown\<close>, and \<open>Start\<close> at a time, with the
  configuration file as it is then.
\<close>

record ('p, 'c) main_env =
  me_step :: "'c \<Rightarrow> 'c \<Rightarrow> bool"
  me_call :: "'c \<Rightarrow> 'c"
  me_down :: "'c \<Rightarrow> bool"
  me_Start :: "int \<Rightarrow> go_error + 'p \<times> 'c"

text \<open>The handlers are started with or without a connection to redis.\<close>

definition start_live :: "'p \<times> 'c \<Rightarrow> go_error option \<Rightarrow> go_error option \<Rightarrow> go_error option \<Rightarrow> ('p, 'c) live" where
  "start_live pc zoneList zones results = \<lparr>lv_program = fst pc, lv_first = snd pc, lv_data = data_handler_run zoneList zones,
     lv_stat = stat_handler_run results\<rparr>"

definition started_at ::
  "('p, 'c) main_env \<Rightarrow> int \<Rightarrow> go_error option \<Rightarrow> go_error option \<Rightarrow> go_error option \<Rightarrow> ('p, 'c) main_state" where
  "started_at M now zoneList zones results =
     (case me_Start M now of Inl e \<Rightarrow> Crashed e | Inr pc \<Rightarrow> Serving (start_live pc zoneList zones results))"

text \<open>The goroutines of a program that is alive; only \<open>Stop\<close> calls a \<open>ShutDown\<close>.\<close>

definition quiet_step :: "RedisConfig \<Rightarrow> handler_run \<Rightarrow> handler_run \<Rightarrow> bool" where
  "quiet_step cfg d d' \<longleftrightarrow> handler_step cfg d d' \<and> (hd_shutdown d' = NotCalled \<longleftrightarrow> hd_shutdown d = NotCalled)"

inductive live_step :: "('p, 'c) main_env \<Rightarrow> ('p, 'c) live \<Rightarrow> ('p, 'c) live \<Rightarrow> bool" for M where
  first_runs: "me_step M (lv_first l) c \<Longrightarrow> live_step M l (l\<lparr>lv_first := c\<rparr>)"
| data_runs: "quiet_step cfg (lv_data l) d \<Longrightarrow> live_step M l (l\<lparr>lv_data := d\<rparr>)"
| stat_runs: "quiet_step cfg (lv_stat l) d \<Longrightarrow> live_step M l (l\<lparr>lv_stat := d\<rparr>)"

inductive main_step :: "('p, 'c) main_env \<Rightarrow> ('p, 'c) main_state \<Rightarrow> ('p, 'c) main_state \<Rightarrow> bool" for M where
  serving_runs: "live_step M l l' \<Longrightarrow> main_step M (Serving l) (Serving l')"
| first_stops: "live_step M l l' \<Longrightarrow> main_step M (AtFirst sig l) (AtFirst sig l')"
| data_stops: "live_step M l l' \<Longrightarrow> main_step M (AtData sig l) (AtData sig l')"
| stat_stops: "live_step M l l' \<Longrightarrow> main_step M (AtStat sig l) (AtStat sig l')"
| signalled: "main_step M (Serving l) (AtFirst sig (l\<lparr>lv_first := me_call M (lv_first l)\<rparr>))"
| first_down: "me_down M (lv_first l) \<Longrightarrow> main_step M (AtFirst sig l) (AtData sig (l\<lparr>lv_data := call_ShutDown (lv_data l)\<rparr>))"
| data_down: "hd_shutdown (lv_data l) = Drained \<Longrightarrow>
    main_step M (AtData sig l) (AtStat sig (l\<lparr>lv_stat := call_ShutDown (lv_stat l)\<rparr>))"
| exited: "hd_shutdown (lv_stat l) = Drained \<Longrightarrow> main_step M (AtStat SIGINT l) Exited"
| restarted: "hd_shutdown (lv_stat l) = Drained \<Longrightarrow> main_step M (AtStat SIGHUP l) (started_at M now zoneList zones results)"

inductive_cases live_stepE: "live_step M l l'"
inductive_cases main_stepE: "main_step M x x'"

abbreviation main_steps where "main_steps M \<equiv> (main_step M)\<^sup>*\<^sup>*"

section \<open>Handlers that are told to stop\<close>

lemma serving_subs_drainable:
  assumes "handler_ok d" and "hd_shutdown d = NotCalled"
  shows "list_all drainable (hd_subs (call_ShutDown d))"
  using assms by (fastforce simp: handler_ok_def call_ShutDown_def list_all_iff sub_told_def drainable_def)

lemma called_ok: "handler_ok d \<Longrightarrow> hd_shutdown d = NotCalled \<Longrightarrow> handler_ok (call_ShutDown d)"
  by (simp add: handler_ok_def call_ShutDown_def)

lemma stays_called: "handler_step cfg d d' \<Longrightarrow> hd_shutdown d \<noteq> NotCalled \<Longrightarrow> hd_shutdown d' \<noteq> NotCalled"
  by (elim handler_stepE) (auto simp: tell_subs_def)

lemma called_steps:
  assumes "handler_ok d" and "hd_shutdown d = NotCalled"
  obtains d' where "(quiet_step cfg)\<^sup>*\<^sup>* (call_ShutDown d) d'" and "hd_shutdown d' = Drained"
proof -
  obtain d' where d': "handler_steps cfg (call_ShutDown d) d'" "hd_shutdown d' = Drained"
    using shutdown_can_return [OF called_ok [OF assms] serving_subs_drainable [OF assms]] by blast
  have "(quiet_step cfg)\<^sup>*\<^sup>* (call_ShutDown d) d' \<and> hd_shutdown d' \<noteq> NotCalled"
    using d'(1)
  proof (induction rule: rtranclp_induct)
    case base
    then show ?case by (simp add: call_ShutDown_def)
  next
    case (step y z)
    then have "quiet_step cfg y z" "hd_shutdown z \<noteq> NotCalled" using stays_called by (auto simp: quiet_step_def)
    with step.IH show ?case by (auto intro: rtranclp.rtrancl_into_rtrancl)
  qed
  with d'(2) that show thesis by blast
qed

lemma lift_run:
  assumes "R\<^sup>*\<^sup>* a b" and "\<And>y z. R y z \<Longrightarrow> main_step M (f y) (f z)"
  shows "main_steps M (f a) (f b)"
  using assms(1) by (induction rule: rtranclp_induct) (auto dest: assms(2))

text \<open>The goroutines of one handler run while \<open>main\<close> waits.\<close>

lemma data_drains:
  assumes "handler_ok (lv_data l)" and "hd_shutdown (lv_data l) = NotCalled"
  shows "\<exists>d. main_steps M (AtData sig (l\<lparr>lv_data := call_ShutDown (lv_data l)\<rparr>)) (AtData sig (l\<lparr>lv_data := d\<rparr>)) \<and> hd_shutdown d = Drained"
proof -
  obtain d where d: "(quiet_step cfg)\<^sup>*\<^sup>* (call_ShutDown (lv_data l)) d" "hd_shutdown d = Drained" using called_steps [OF assms] .
  have "main_step M (AtData sig (l\<lparr>lv_data := y\<rparr>)) (AtData sig (l\<lparr>lv_data := z\<rparr>))" if "quiet_step cfg y z" for y z
    using main_step.data_stops [OF live_step.data_runs [of cfg "l\<lparr>lv_data := y\<rparr>" z M]] that by simp
  from lift_run [where f = "\<lambda>y. AtData sig (l\<lparr>lv_data := y\<rparr>)", OF d(1) this] d(2) show ?thesis by blast
qed

lemma stat_drains:
  assumes "handler_ok (lv_stat l)" and "hd_shutdown (lv_stat l) = NotCalled"
  shows "\<exists>d. main_steps M (AtStat sig (l\<lparr>lv_stat := call_ShutDown (lv_stat l)\<rparr>)) (AtStat sig (l\<lparr>lv_stat := d\<rparr>)) \<and> hd_shutdown d = Drained"
proof -
  obtain d where d: "(quiet_step cfg)\<^sup>*\<^sup>* (call_ShutDown (lv_stat l)) d" "hd_shutdown d = Drained" using called_steps [OF assms] .
  have "main_step M (AtStat sig (l\<lparr>lv_stat := y\<rparr>)) (AtStat sig (l\<lparr>lv_stat := z\<rparr>))" if "quiet_step cfg y z" for y z
    using main_step.stat_stops [OF live_step.stat_runs [of cfg "l\<lparr>lv_stat := y\<rparr>" z M]] that by simp
  from lift_run [where f = "\<lambda>y. AtStat sig (l\<lparr>lv_stat := y\<rparr>)", OF d(1) this] d(2) show ?thesis by blast
qed

section \<open>Programs that can be stopped\<close>

text \<open>
  The states of \<open>main\<close>: until \<open>Stop\<close> comes to it, a handler serves.  The program that serves was started at some time.
\<close>

definition handler_serves :: "handler_run \<Rightarrow> bool" where
  "handler_serves d \<longleftrightarrow> handler_ok d \<and> hd_shutdown d = NotCalled"

fun main_ok :: "('p, 'c) main_env \<Rightarrow> ('c \<Rightarrow> bool) \<Rightarrow> ('p, 'c) main_state \<Rightarrow> bool" where
  "main_ok M ok (Serving l) \<longleftrightarrow> ok (lv_first l) \<and> handler_serves (lv_data l) \<and> handler_serves (lv_stat l) \<and>
     (\<exists>now c. me_Start M now = Inr (lv_program l, c))"
| "main_ok M ok (AtFirst sig l) \<longleftrightarrow> handler_serves (lv_data l) \<and> handler_serves (lv_stat l)"
| "main_ok M ok (AtData sig l) \<longleftrightarrow> handler_serves (lv_stat l)"
| "main_ok M ok _ \<longleftrightarrow> True"

lemma quiet_serves: "quiet_step cfg d d' \<Longrightarrow> handler_serves d \<Longrightarrow> handler_serves d'"
  by (auto simp: quiet_step_def handler_serves_def intro: handler_step_ok)

lemma follow_serves: "handler_serves (follow_events inits)"
  by (simp add: handler_serves_def follow_ok) (simp add: follow_events_def)

lemma live_step_serves:
  "live_step M l l' \<Longrightarrow> handler_serves (lv_data l) \<Longrightarrow> handler_serves (lv_data l')"
  "live_step M l l' \<Longrightarrow> handler_serves (lv_stat l) \<Longrightarrow> handler_serves (lv_stat l')"
  "live_step M l l' \<Longrightarrow> lv_program l' = lv_program l"
  "live_step M l l' \<Longrightarrow> lv_first l' = lv_first l \<or> me_step M (lv_first l) (lv_first l')"
  by (auto elim!: live_stepE intro: quiet_serves)

text \<open>A first component whose \<open>ShutDown\<close> returns, from every state it comes to.\<close>

locale stoppable =
  fixes M :: "('p, 'c) main_env" and ok :: "'c \<Rightarrow> bool"
  assumes start_ok: "me_Start M now = Inr (p, c) \<Longrightarrow> ok c"
    and step_ok: "ok c \<Longrightarrow> me_step M c c' \<Longrightarrow> ok c'"
    and stops: "ok c \<Longrightarrow> \<exists>c'. (me_step M)\<^sup>*\<^sup>* (me_call M c) c' \<and> me_down M c'"
begin

lemma started_ok: "main_ok M ok (started_at M now i j k)"
  by (auto simp: started_at_def start_live_def data_handler_run_def stat_handler_run_def follow_serves start_ok split: sum.splits)

lemma main_step_ok: "main_step M x x' \<Longrightarrow> main_ok M ok x \<Longrightarrow> main_ok M ok x'"
proof (induction rule: main_step.induct)
  case (serving_runs l l')
  then show ?case using live_step_serves [OF serving_runs(1)] step_ok by auto
qed (auto simp: live_step_serves started_ok)

lemma main_steps_ok: "main_steps M x x' \<Longrightarrow> main_ok M ok x \<Longrightarrow> main_ok M ok x'"
  by (induction rule: rtranclp_induct) (auto dest: main_step_ok)

text \<open>\<open>Stop\<close> can be carried out in every state in which a signal arrives.\<close>

lemma stop_carried_out:
  assumes "main_ok M ok (Serving l)"
  shows "\<exists>l'. main_steps M (Serving l) (AtStat sig l') \<and> hd_shutdown (lv_stat l') = Drained"
proof -
  have serves: "handler_ok (lv_data l)" "hd_shutdown (lv_data l) = NotCalled" "handler_ok (lv_stat l)" "hd_shutdown (lv_stat l) = NotCalled"
    using assms by (simp_all add: handler_serves_def)
  obtain c where c: "(me_step M)\<^sup>*\<^sup>* (me_call M (lv_first l)) c" "me_down M c" using stops assms by auto
  have "main_step M (AtFirst sig (l\<lparr>lv_first := y\<rparr>)) (AtFirst sig (l\<lparr>lv_first := z\<rparr>))" if "me_step M y z" for y z
    using main_step.first_stops [OF live_step.first_runs [of M "l\<lparr>lv_first := y\<rparr>" z]] that by simp
  from lift_run [where f = "\<lambda>y. AtFirst sig (l\<lparr>lv_first := y\<rparr>)", OF c(1) this]
  have first: "main_steps M (Serving l) (AtFirst sig (l\<lparr>lv_first := c\<rparr>))"
    using main_step.signalled [of M l sig] by (rule converse_rtranclp_into_rtranclp [rotated])
  let ?l = "l\<lparr>lv_first := c\<rparr>"
  have "main_step M (AtFirst sig ?l) (AtData sig (?l\<lparr>lv_data := call_ShutDown (lv_data ?l)\<rparr>))"
    using c(2) by (intro main_step.first_down) simp
  moreover obtain d where d: "main_steps M (AtData sig (?l\<lparr>lv_data := call_ShutDown (lv_data ?l)\<rparr>)) (AtData sig (?l\<lparr>lv_data := d\<rparr>))"
    "hd_shutdown d = Drained"
    using data_drains [of ?l M sig] serves by auto
  ultimately have data: "main_steps M (Serving l) (AtData sig (?l\<lparr>lv_data := d\<rparr>))"
    using first by (meson rtranclp.rtrancl_into_rtrancl rtranclp_trans)
  let ?m = "?l\<lparr>lv_data := d\<rparr>"
  have "main_step M (AtData sig ?m) (AtStat sig (?m\<lparr>lv_stat := call_ShutDown (lv_stat ?m)\<rparr>))"
    using d(2) by (intro main_step.data_down) simp
  moreover obtain e where e: "main_steps M (AtStat sig (?m\<lparr>lv_stat := call_ShutDown (lv_stat ?m)\<rparr>)) (AtStat sig (?m\<lparr>lv_stat := e\<rparr>))"
    "hd_shutdown e = Drained"
    using stat_drains [of ?m M sig] serves by auto
  ultimately have "main_steps M (Serving l) (AtStat sig (?m\<lparr>lv_stat := e\<rparr>))"
    using data by (meson rtranclp.rtrancl_into_rtrancl rtranclp_trans)
  with e(2) show ?thesis by (intro exI [of _ "?m\<lparr>lv_stat := e\<rparr>"]) simp
qed

lemma signals_obeyed:
  assumes "main_steps M (started_at M t i j k) (Serving l)"
  shows "(\<exists>now c. me_Start M now = Inr (lv_program l, c)) \<and> main_steps M (Serving l) Exited \<and>
    (\<forall>now i j k. main_steps M (Serving l) (started_at M now i j k))"
proof -
  have ok: "main_ok M ok (Serving l)" using main_steps_ok [OF assms started_ok] .
  have "main_steps M (Serving l) Exited"
    using stop_carried_out [OF ok, of SIGINT] main_step.exited by (meson rtranclp.rtrancl_into_rtrancl)
  moreover have "main_steps M (Serving l) (started_at M now i j k)" for now i j k
    using stop_carried_out [OF ok, of SIGHUP] main_step.restarted by (meson rtranclp.rtrancl_into_rtrancl)
  ultimately show ?thesis using ok by simp
qed

end

section \<open>The resolver\<close>

text \<open>
  \<open>ShutDown\<close> of the request handler waits for a group to which nothing is added.  \<open>A\<close> is what the program finds at a time: files,
  redis, the network.
\<close>

definition resolver_main_env ::
  "(int \<Rightarrow> ('s, 'r, 't, 'zc, 'rc, 'hc, 'uc, 'lc) start_env) \<Rightarrow> string \<Rightarrow> (('s, 't, 'zc, 'rc, 'hc, 'lc) running, unit) main_env" where
  "resolver_main_env A configFile = \<lparr>me_step = (\<lambda>_ _. False), me_call = (\<lambda>_. ()), me_down = (\<lambda>_. True),
     me_Start = (\<lambda>now. map_sum id (\<lambda>p. (p, ())) (resolver_Start (A now) now configFile))\<rparr>"

interpretation resolver_main: stoppable "resolver_main_env A configFile" "\<lambda>_. True"
  by unfold_locales (auto simp: resolver_main_env_def)

section \<open>The health checker\<close>

text \<open>\<open>main\<close> never calls \<open>Start\<close> of the checker, so that its loops do not run.\<close>

definition idle_step ::
  "('d, 'q, 't, 'zc, 'rc, 's, 'r, 'hc) health_env \<Rightarrow> ('d, 't, 'zc, 'rc, 's) health_run option \<Rightarrow>
   ('d, 't, 'zc, 'rc, 's) health_run option \<Rightarrow> bool" where
  "idle_step H c c' \<longleftrightarrow> (\<exists>x x'. c = Some x \<and> c' = Some x' \<and> health_step H x x' \<and> (hr_loop x = NoLoop \<longrightarrow> hr_loop x' = NoLoop) \<and>
     (hr_shutdown x = Up \<longrightarrow> hr_shutdown x' = Up))"

definition checker_Start ::
  "('s, 'r, 't, 'zc, 'rc, 'hc, 'uc, 'lc) start_env \<Rightarrow>
   (healthchecker_Config \<Rightarrow> string \<Rightarrow> healthchecker_Config \<times> go_error option) \<Rightarrow> int \<Rightarrow> string \<Rightarrow>
   go_error + (('s, 't, 'zc, 'rc) reload \<times> ('s, 'hc) StatHandler \<times> Healthcheck) \<times> ('s, 't, 'zc, 'rc, 's) health_run option" where
  "checker_Start A decode now configFile =
     andThen (healthchecker_Start A decode now configFile) (\<lambda>(data, stat, h).
       if \<not> hk_Enable h then Inr ((data, stat, h), None)
       else andThen (new_dispatcher h) (\<lambda>d. Inr ((data, stat, h), Some (idle_checker (rl_dh data) (sh_redis stat) d))))"

definition healthchecker_main_env where
  "healthchecker_main_env H A decode configFile = \<lparr>me_step = idle_step H, me_call = map_option begin_shutdown,
     me_down = (\<lambda>c. case c of None \<Rightarrow> True | Some x \<Rightarrow> hr_shutdown x = ShutDone),
     me_Start = (\<lambda>now. checker_Start (A now) decode now configFile)\<rparr>"

text \<open>A disabled checker stops at once, an enabled one that was not started never.\<close>

definition never_started :: "('d, 't, 'zc, 'rc, 's) health_run option \<Rightarrow> bool" where
  "never_started c \<longleftrightarrow> (\<exists>x. c = Some x \<and> counted x \<and> hr_loop x = NoLoop)"

lemma never_started_step: "idle_step H c c' \<Longrightarrow> never_started c \<Longrightarrow> never_started c'"
  by (auto simp: idle_step_def never_started_def dest: counted_step)

lemma never_started_call:
  "health_step H x (begin_shutdown x) \<Longrightarrow> never_started (Some x) \<Longrightarrow> never_started (Some (begin_shutdown x))"
  by (auto simp: never_started_def begin_shutdown_def dest: counted_step)

lemma never_started_down: "never_started (Some x) \<Longrightarrow> hr_shutdown x \<noteq> ShutDone"
  by (auto simp: never_started_def counted_def alive_def)

fun waits_for_checker :: "('p, ('d, 't, 'zc, 'rc, 's) health_run option) main_state \<Rightarrow> bool" where
  "waits_for_checker (Serving l) \<longleftrightarrow> never_started (lv_first l) \<and> map_option hr_shutdown (lv_first l) = Some Up"
| "waits_for_checker (AtFirst sig l) \<longleftrightarrow> never_started (lv_first l)"
| "waits_for_checker (Crashed e) \<longleftrightarrow> True"
| "waits_for_checker _ \<longleftrightarrow> False"

lemma checker_Start_enabled:
  assumes "\<forall>now data stat h. healthchecker_Start (A now) decode now configFile = Inr (data, stat, h) \<longrightarrow> hk_Enable h"
  shows "waits_for_checker (started_at (healthchecker_main_env H A decode configFile) now i j k)"
proof (cases "checker_Start (A now) decode now configFile")
  case (Inr pc)
  obtain data stat h where r: "healthchecker_Start (A now) decode now configFile = Inr (data, stat, h)"
    using Inr by (auto simp: checker_Start_def andThen_Inr_iff)
  then have "hk_Enable h" using assms by blast
  then obtain d where "new_dispatcher h = Inr d" "snd pc = Some (idle_checker (rl_dh data) (sh_redis stat) d)"
    using Inr r by (auto simp: checker_Start_def andThen_Inr_iff)
  then show ?thesis
    using idle_counted [OF new_dispatcher_idle] Inr
    by (auto simp: started_at_def healthchecker_main_env_def start_live_def never_started_def) (simp_all add: idle_checker_def)
qed (simp add: started_at_def healthchecker_main_env_def)

lemma waits_step:
  assumes start: "\<forall>now data stat h. healthchecker_Start (A now) decode now configFile = Inr (data, stat, h) \<longrightarrow> hk_Enable h"
    and "main_step (healthchecker_main_env H A decode configFile) x x'" and "waits_for_checker x"
  shows "waits_for_checker x'"
  using assms(2,3)
proof (induction rule: main_step.induct)
  case (serving_runs l l')
  have "lv_first l' = lv_first l \<or> idle_step H (lv_first l) (lv_first l')"
    using live_step_serves(4) [OF serving_runs(1)] by (simp add: healthchecker_main_env_def)
  moreover from this have "never_started (lv_first l')" using serving_runs(2) never_started_step by auto
  ultimately show ?case using serving_runs(2) by (auto simp: idle_step_def)
next
  case (first_stops l l' sig)
  have "lv_first l' = lv_first l \<or> idle_step H (lv_first l) (lv_first l')"
    using live_step_serves(4) [OF first_stops(1)] by (simp add: healthchecker_main_env_def)
  then show ?case using first_stops(2) never_started_step by auto
next
  case (signalled l sig)
  then obtain y where "lv_first l = Some y" "never_started (Some y)" "hr_shutdown y = Up" by auto
  then show ?case using never_started_call [OF health_step.shutdown_begins] by (simp add: healthchecker_main_env_def)
next
  case (first_down l sig)
  then obtain y where "lv_first l = Some y" "never_started (Some y)" by (auto simp: never_started_def)
  then show ?case using first_down(1) never_started_down by (auto simp: healthchecker_main_env_def)
qed simp_all

lemma waits_steps:
  assumes "\<forall>now data stat h. healthchecker_Start (A now) decode now configFile = Inr (data, stat, h) \<longrightarrow> hk_Enable h"
    and "main_steps (healthchecker_main_env H A decode configFile) x x'" and "waits_for_checker x"
  shows "waits_for_checker x'"
  using assms(2,3) by (induction rule: rtranclp_induct) (auto intro: waits_step [OF assms(1)])

section \<open>Properties\<close>


text \<open>
  C35: the health checker program does not end.  Once started with health checks enabled, whatever happens, it never exits: \<open>main\<close> does not start the
  checker, so that on a signal \<open>Stop\<close> waits for ever for a pool whose goroutines do not run.
\<close>

theorem enabled_checker_hangs:
  assumes "\<forall>now data stat h. healthchecker_Start (A now) decode now configFile = Inr (data, stat, h) \<longrightarrow> hk_Enable h"
    and "main_steps (healthchecker_main_env H A decode configFile)
      (started_at (healthchecker_main_env H A decode configFile) t i j k) x"
  shows "\<not> main_steps (healthchecker_main_env H A decode configFile) x Exited"
proof
  assume "main_steps (healthchecker_main_env H A decode configFile) x Exited"
  with assms(2) have "main_steps (healthchecker_main_env H A decode configFile)
      (started_at (healthchecker_main_env H A decode configFile) t i j k) Exited" by (rule rtranclp_trans)
  from waits_steps [OF assms(1) this checker_Start_enabled [OF assms(1)]] show False by simp
qed

lemma toy_parts:
  obtains data z where "start_data toy_start 0 DefaultDataHandlerConfig = Inr data" and "NewLogger toy_host logger_DefaultConfig = Inr z"
proof -
  have "\<exists>data. start_data toy_start 0 DefaultDataHandlerConfig = Inr data"
    using start_data_eq [of toy_start "\<lambda>_. True" mem_keys mem_glob DefaultDataHandlerConfig 0]
      alist.radix_tree_axioms memory.redis_laws_axioms
    by (auto simp: toy_start_sel toy_env_sel set_at_def mem_keys_def DefaultDataHandlerConfig_def wrap64_def)
  moreover have "case NewLogger toy_host logger_DefaultConfig of Inl _ \<Rightarrow> False | Inr _ \<Rightarrow> True" by code_simp
  ultimately show thesis using that by (auto split: sum.splits)
qed


definition enabling :: "healthchecker_Config \<Rightarrow> string \<Rightarrow> healthchecker_Config \<times> go_error option" where
  "enabling cfg data = (cfg\<lparr>hp_Healthcheck := (hp_Healthcheck cfg)\<lparr>hcc_Enable := True\<rparr>\<rparr>, None)"

theorem enabled_checker_hangs_witness:
  "\<exists>l. main_steps (healthchecker_main_env toy_checker (\<lambda>_. toy_start) enabling ''config.json'')
      (started_at (healthchecker_main_env toy_checker (\<lambda>_. toy_start) enabling ''config.json'') 0 None None None) (AtFirst SIGINT l) \<and>
    \<not> main_steps (healthchecker_main_env toy_checker (\<lambda>_. toy_start) enabling ''config.json'') (AtFirst SIGINT l) Exited"
proof -
  let ?M = "healthchecker_main_env toy_checker (\<lambda>_. toy_start) enabling ''config.json''"
  have enabled: "\<forall>now data stat h. healthchecker_Start toy_start enabling now ''config.json'' = Inr (data, stat, h) \<longrightarrow> hk_Enable h"
    by (auto simp: healthchecker_Start_def healthchecker_LoadConfig_def enabling_def Let_def andThen_Inr_iff NewHealthcheck_def
        toy_start_sel toy_host_def)
  obtain data z where "start_data toy_start 0 DefaultDataHandlerConfig = Inr data" "NewLogger toy_host logger_DefaultConfig = Inr z"
    using toy_parts .
  then have "\<exists>pc. checker_Start toy_start enabling 0 ''config.json'' = Inr pc"
    by (simp add: checker_Start_def healthchecker_Start_def healthchecker_LoadConfig_def enabling_def toy_start_sel
        toy_host_def [THEN arg_cong [of _ _ host_Open]] healthchecker_DefaultConfig_def must_def new_dispatcher_def NewDispatcher_def
        NewHealthcheck_def Healthcheck_DefaultConfig_def Let_def)
  then obtain pc where "checker_Start toy_start enabling 0 ''config.json'' = Inr pc" by blast
  then have "started_at ?M 0 None None None = Serving (start_live pc None None None)"
    by (simp add: started_at_def healthchecker_main_env_def)
  then have "\<exists>l. main_steps ?M (started_at ?M 0 None None None) (AtFirst SIGINT l)"
    using main_step.signalled [of ?M "start_live pc None None None" SIGINT] by (metis r_into_rtranclp)
  with enabled_checker_hangs [OF enabled, of toy_checker 0 None None None] show ?thesis by blast
qed

end
