(* ===== verification/ApiProgram.thy ===== *)
theory ApiProgram
  imports ApiServer Programs ZoneUpdater
begin

text \<open>
  The programs around the SQL database: \<open>main\<close> and the configuration of the API server (\<open>src/cmd/api\<close>,
  \<open>NewServer\<close> of \<open>src/internal/api/server/server.go\<close>, \<open>NewSMTP\<close> of \<open>src/internal/mailer\<close>) and of the zone updater
  (\<open>src/cmd/zone_updater\<close>), and what becomes of a request whose handler panics.

  Opening the database, parsing the templates and listening are parameters.
\<close>

section \<open>Configuration of the API server\<close>

record api_server_Config =
  sc_BindAddress :: string
  sc_ReadTimeout :: int
  sc_WriteTimeout :: int
  sc_MaxBodyBytes :: int
  sc_WebServer :: string
  sc_ApiServer :: string
  sc_NameServer :: string
  sc_HtmlTemplates :: string
  sc_RecaptchaSecretKey :: string
  sc_RecaptchaServer :: string

definition api_server_DefaultConfig :: api_server_Config where
  "api_server_DefaultConfig = \<lparr>sc_BindAddress = ''localhost:8080'', sc_ReadTimeout = 10, sc_WriteTimeout = 10,
     sc_MaxBodyBytes = 1000000, sc_WebServer = ''www.z42.com'', sc_ApiServer = ''api.z42.com'', sc_NameServer = ''ns.z42.com.'',
     sc_HtmlTemplates = ''./templates/*.tmpl'', sc_RecaptchaSecretKey = ''RECAPTCHA_SECRET_KEY'',
     sc_RecaptchaServer = ''https://www.google.com/recaptcha/api/siteverify''\<rparr>"

text \<open>The configuration of the mailer has two more settings than the mailer uses.\<close>

record mailer_file_Config = mailer_Config +
  mc_NameServer :: string
  mc_HtmlTemplates :: string

definition mailer_DefaultConfig :: mailer_file_Config where
  "mailer_DefaultConfig = \<lparr>mc_Address = ''127.0.0.1:25'', mc_FromEmail = ''noreply@z42.com'', mc_Username = [], mc_Password = [],
     mc_WebServer = ''www.z42.com'', mc_ApiServer = ''api.z42.com'', mc_NameServer = ''ns.z42.com.'',
     mc_HtmlTemplates = ''./templates/*.tmpl''\<rparr>"

record api_Config =
  apc_DBConnectionString :: string
  apc_EventLog :: LogConfig
  apc_AccessLog :: LogConfig
  apc_ServerConfig :: api_server_Config
  apc_MailerConfig :: mailer_file_Config
  apc_UpstreamConfig :: "UpstreamConfig list"

definition defaultConnection :: string where
  "defaultConnection = ''root:root@tcp(127.0.0.1:3306)/z42''"

definition api_DefaultConfig :: api_Config where
  "api_DefaultConfig = \<lparr>apc_DBConnectionString = defaultConnection, apc_EventLog = logger_DefaultConfig,
     apc_AccessLog = logger_DefaultConfig, apc_ServerConfig = api_server_DefaultConfig, apc_MailerConfig = mailer_DefaultConfig,
     apc_UpstreamConfig = [Upstream_DefaultConfig]\<rparr>"

text \<open>The decoder fills in the default configuration and returns it with its error.\<close>

definition api_LoadConfig :: "host \<Rightarrow> (api_Config \<Rightarrow> string \<Rightarrow> api_Config \<times> go_error option) \<Rightarrow> string \<Rightarrow> api_Config \<times> go_error option" where
  "api_LoadConfig H decode path =
     (case host_Open H path of
        Inl e \<Rightarrow> (api_DefaultConfig, Some e)
      | Inr data \<Rightarrow> decode api_DefaultConfig data)"

section \<open>Construction of the API server\<close>

text \<open>
  \<open>pe_Open\<close> is \<open>sql.Open\<close>, \<open>pe_ParseGlob\<close> the parsing of templates, which \<open>LoadHTMLGlob\<close> of gin turns into a panic when it
  fails, and \<open>pe_env\<close> the environment of the handlers, of which the constructors set the settings.
\<close>

record program_env =
  pe_host :: host
  pe_Open :: "string \<Rightarrow> go_error option"
  pe_ParseGlob :: "string \<Rightarrow> go_error option"
  pe_env :: auth_env

record http_Server =
  hs_Addr :: string
  hs_ReadTimeout :: int
  hs_WriteTimeout :: int
  hs_MaxHeaderBytes :: int
  hs_MaxBodyBytes :: int

record 'c api_program =
  ap_http :: http_Server
  ap_env :: auth_env
  ap_upstream :: "'c Upstream"

definition Connect :: "program_env \<Rightarrow> string \<Rightarrow> go_error + unit" where
  "Connect P connectionString = (case pe_Open P connectionString of Some e \<Rightarrow> Inl e | None \<Rightarrow> Inr ())"

definition NewSMTP :: "program_env \<Rightarrow> mailer_file_Config \<Rightarrow> go_error + mailer_Config" where
  "NewSMTP P config =
     (case pe_ParseGlob P (mc_HtmlTemplates config) of
        Some e \<Rightarrow> Inl e
      | None \<Rightarrow> Inr (mailer_Config.truncate config))"

definition api_NewServer :: "program_env \<Rightarrow> api_server_Config \<Rightarrow> mailer_Config \<Rightarrow> 'c Upstream \<Rightarrow> go_error + 'c api_program" where
  "api_NewServer P config mailer u =
     (case pe_ParseGlob P (sc_HtmlTemplates config) of
        Some e \<Rightarrow> Inl (Panic ''template'')
      | None \<Rightarrow> Inr
          \<lparr>ap_http = \<lparr>hs_Addr = sc_BindAddress config, hs_ReadTimeout = wrap64 (sc_ReadTimeout config * second),
             hs_WriteTimeout = wrap64 (sc_WriteTimeout config * second), hs_MaxHeaderBytes = 2 ^ 20,
             hs_MaxBodyBytes = sc_MaxBodyBytes config\<rparr>,
           ap_env = (pe_env P)\<lparr>au_mailer := mailer, au_serverName := sc_WebServer config,
             au_captchaServer := sc_RecaptchaServer config, au_secretKey := sc_RecaptchaSecretKey config,
             au_api := (au_api (pe_env P))\<lparr>a_nameServer := sc_NameServer config\<rparr>\<rparr>,
           ap_upstream = u\<rparr>)"

text \<open>\<open>main\<close> up to \<open>ListenAndServer\<close>.\<close>

definition api_main ::
  "program_env \<Rightarrow> (api_Config \<Rightarrow> string \<Rightarrow> api_Config \<times> go_error option) \<Rightarrow> 'c \<Rightarrow> string \<Rightarrow> go_error + 'c api_program" where
  "api_main P decode cache configFile =
     (case api_LoadConfig (pe_host P) decode configFile of
        (config, Some e) \<Rightarrow> must (Inl e)
      | (config, None) \<Rightarrow>
          andThen (must (NewLogger (pe_host P) (apc_EventLog config))) (\<lambda>_.
          andThen (must (Connect P (apc_DBConnectionString config))) (\<lambda>_.
          andThen (must (NewSMTP P (apc_MailerConfig config))) (\<lambda>m.
          andThen (must (NewLogger (pe_host P) (apc_AccessLog config))) (\<lambda>_.
          api_NewServer P (apc_ServerConfig config) m (NewUpstream cache (apc_UpstreamConfig config)))))))"

section \<open>Start of the zone updater\<close>

record updater_Config =
  zuc_EventLog :: LogConfig
  zuc_DBConnectionString :: string
  zuc_RedisData :: DataHandlerConfig

definition updater_DefaultConfig :: updater_Config where
  "updater_DefaultConfig = \<lparr>zuc_EventLog = logger_DefaultConfig, zuc_DBConnectionString = defaultConnection,
     zuc_RedisData = DefaultDataHandlerConfig\<rparr>"

definition updater_LoadConfig ::
  "host \<Rightarrow> (updater_Config \<Rightarrow> string \<Rightarrow> updater_Config \<times> go_error option) \<Rightarrow> string \<Rightarrow> updater_Config \<times> go_error option" where
  "updater_LoadConfig H decode path =
     (case host_Open H path of
        Inl e \<Rightarrow> (updater_DefaultConfig, Some e)
      | Inr data \<Rightarrow> decode updater_DefaultConfig data)"

text \<open>
  \<open>main\<close> with \<open>n\<close> rounds of its loop.  An error of \<open>Connect\<close> is fatal, the others before the loop are panics; the data handler is
  made for the loaded configuration and is not started.
\<close>

definition updater_main ::
  "program_env \<Rightarrow> (updater_Config \<Rightarrow> string \<Rightarrow> updater_Config \<times> go_error option) \<Rightarrow>
   ('s, 'r, 't, 'zc, 'rc, 'hc, 'uc, 'lc) start_env \<Rightarrow> sql_env \<Rightarrow> DataBase \<Rightarrow> nat \<Rightarrow> string \<Rightarrow>
   go_error + (updater_error option \<times> 's \<times> DataBase)" where
  "updater_main P decode A X db n configFile =
     (case updater_LoadConfig (pe_host P) decode configFile of
        (config, Some e) \<Rightarrow> must (Inl e)
      | (config, None) \<Rightarrow>
          andThen (must (NewLogger (pe_host P) (zuc_EventLog config))) (\<lambda>_.
          andThen (Connect P (zuc_DBConnectionString config)) (\<lambda>_.
          Inr (updater_rounds n (loaded_storage A (zuc_RedisData config)) X (st_dial A (dc_Redis (zuc_RedisData config)), db)))))"

section \<open>Panics of a handler\<close>

text \<open>
  The value of a panic is a string or an error of the runtime; the panics of the handlers, which are type assertions, nil
  pointers and indices out of range, are of the second kind.  The recovery asserts that the value is a string: for another one it panics
  itself, and the HTTP package closes the connection.
\<close>

datatype panic_value = PanicString string | RuntimeError

definition handleRecovery :: "panic_value \<Rightarrow> http_answer" where
  "handleRecovery err = (case err of PanicString m \<Rightarrow> ErrorResponse StatusInternalServerError m | RuntimeError \<Rightarrow> Panicked)"

text \<open>
  The body is read through a reader that fails after the configured number of bytes: the decoders see a longer body cut off, and a form
  that is cut off has no file.
\<close>

definition limit_body :: "int \<Rightarrow> http_request \<Rightarrow> http_request" where
  "limit_body n r =
     (if int (length (rq_Body r)) \<le> max 0 n then r else r\<lparr>rq_Body := take (nat n) (rq_Body r), rq_File := NoFile\<rparr>)"

datatype connection = Answered http_answer | ConnectionClosed

definition serve_connection ::
  "('c, RR list) go_cache \<Rightarrow> exchange \<Rightarrow> int \<Rightarrow> 'c api_program \<Rightarrow> http_request \<Rightarrow> 'c api_world \<Rightarrow>
   (connection \<times> 'c api_world) option" where
  "serve_connection C ex now P r w =
     map_option (\<lambda>(a, w).
       (let a = (if a = Panicked then handleRecovery RuntimeError else a)
        in if a = Panicked then ConnectionClosed else Answered a, w))
       (ServeHTTP C ex now (ap_env P) (limit_body (hs_MaxBodyBytes (ap_http P)) r) w)"

text \<open>A request whose handler panics is not answered: the recovery is of no use.\<close>

lemma panic_not_answered:
  assumes "ServeHTTP C ex now (ap_env P) (limit_body (hs_MaxBodyBytes (ap_http P)) r) w = Some (a, w')"
  shows "serve_connection C ex now P r w = Some (if a = Panicked then ConnectionClosed else Answered a, w')"
  using assms by (simp add: serve_connection_def handleRecovery_def)

text \<open>A user can make the server panic with a zone for which the upstream answers with an alias.\<close>

lemma alias_closes_connection:
  assumes "auth_identity (ap_env P) (limit_body (hs_MaxBodyBytes (ap_http P)) r) = Inr i"
    and "rq_Method r = ''GET''" and "rq_Path r = [''zones'', n, ''active_ns'']" and "n \<noteq> []"
    and "Query C ex now (w_upstream w) n TypeNS = ((RR_CNAME h t # rrs, rcode), u)" and "rcode \<noteq> RcodeServerFailure"
  shows "serve_connection C ex now P r w = Some (ConnectionClosed, w\<lparr>w_upstream := u\<rparr>)"
proof -
  let ?r = "limit_body (hs_MaxBodyBytes (ap_http P)) r"
  have "zone_getActiveNS C ex now c (w_upstream w) = (Panicked, u)"
    if "gin_Params c = [(zoneNameKey, n)]" for c :: gin_context
    using that assms(4-6) by (simp add: zone_getActiveNS_def Param_def Let_def)
  moreover have "rq_Method ?r = ''GET''" "rq_Path ?r = [''zones'', n, ''active_ns'']"
    using assms(2,3) by (simp_all add: limit_body_def)
  ultimately have "ServeHTTP C ex now (ap_env P) ?r w = Some (Panicked, w\<lparr>w_upstream := u\<rparr>)"
    using assms(1)
    by (simp add: ServeHTTP_def auth_RegisterHandlers_def zone_RegisterHandlers_def Let_def run_route_def on_upstream_def
        gin_request_def)
  then show ?thesis by (simp add: panic_not_answered)
qed

end
