(* ===== verification/QueryTools.thy ===== *)
theory QueryTools
  imports HealthRun Upstream Complex_Main
begin

text \<open>
  The query tool (\<open>src/tools/query\<close>), which sends many queries to a server, measures the answers or compares the answers of two
  servers, and the comparison of responses of \<open>src/internal/test/helpers.go\<close> that it uses.

  Times are in nanoseconds; the statistics in floating point are modelled as real numbers.  The random choice
  of a query, the scan of a line and the exchange of messages are parameters.
\<close>

section \<open>Sources of queries\<close>

record dns_Query =
  q_QName :: string
  q_QType :: string

definition dumped_types :: "string list" where
  "dumped_types = [''A'', ''AAAA'', ''CNAME'', ''NS'', ''MX'', ''SRV'', ''TXT'', ''PTR'', ''CAA'', ''TLSA'', ''SOA'', ''DNSKEY'']"

definition location_queries :: "string \<Rightarrow> string \<Rightarrow> dns_Query list" where
  "location_queries zone location =
     (let qname = (if location = ''@'' then zone else location @ ''.'' @ zone)
      in map (\<lambda>t. \<lparr>q_QName = qname, q_QType = t\<rparr>) dumped_types)"

fun dump_zones ::
  "('s, 'r, 't, 'zc, 'rc) storage_env \<Rightarrow> int \<Rightarrow> string list \<Rightarrow> ('s, 't, 'zc, 'rc) DataHandler \<Rightarrow> dns_Query list \<Rightarrow>
   go_error + (dns_Query list \<times> ('s, 't, 'zc, 'rc) DataHandler)" where
  "dump_zones E now [] dh qs = Inr (qs, dh)"
| "dump_zones E now (zone # zones) dh qs =
     andThen (GetZoneLocations E now dh zone) (\<lambda>(locations, dh).
       dump_zones E now zones dh (qs @ concat (map (location_queries zone) locations)))"

record RedisDumpQueryGenerator =
  rg_queries :: "dns_Query list"
  rg_pos :: nat

text \<open>The data handler is started, which loads the zones, before it is read.\<close>

definition NewRedisDumpQueryGenerator ::
  "('s, 'r, 't, 'zc, 'rc) storage_env \<Rightarrow> int \<Rightarrow> ('s, 't, 'zc, 'rc) DataHandler \<Rightarrow>
   go_error + (RedisDumpQueryGenerator \<times> ('s, 't, 'zc, 'rc) DataHandler)" where
  "NewRedisDumpQueryGenerator E now dh =
     andThen (LoadZones E now dh) (\<lambda>dh.
     andThen (GetZones E dh) (\<lambda>(zones, s).
     andThen (dump_zones E now zones (dh\<lparr>dh_redis := s\<rparr>) []) (\<lambda>(qs, dh).
       Inr (\<lparr>rg_queries = qs, rg_pos = 0\<rparr>, dh))))"

definition redis_Count :: "RedisDumpQueryGenerator \<Rightarrow> nat" where
  "redis_Count g = length (rg_queries g)"

definition redis_GetQuery :: "RedisDumpQueryGenerator \<Rightarrow> go_error + dns_Query \<times> RedisDumpQueryGenerator" where
  "redis_GetQuery g =
     (if rg_pos g < length (rg_queries g) then Inr (rg_queries g ! rg_pos g, g\<lparr>rg_pos := rg_pos g + 1\<rparr>)
      else Inl (Panic ''index out of range''))"

text \<open>
  A line that cannot be scanned leaves a query with what was scanned; the queries of a file are drawn by \<open>zipf\<close>, whose argument is
  the largest index, the largest number of 64 bits for an empty file.
\<close>

record FileQueryGenerator =
  fg_queries :: "dns_Query list"
  fg_count :: nat

definition NewFileQueryGenerator :: "(string \<Rightarrow> dns_Query) \<Rightarrow> string list \<Rightarrow> nat \<Rightarrow> FileQueryGenerator" where
  "NewFileQueryGenerator sscanf scanned n = \<lparr>fg_queries = map sscanf scanned, fg_count = n\<rparr>"

definition file_GetQuery :: "(nat \<Rightarrow> nat) \<Rightarrow> FileQueryGenerator \<Rightarrow> go_error + dns_Query" where
  "file_GetQuery zipf g =
     (let z = zipf (unat (word_of_nat (length (fg_queries g)) - 1 :: uint64))
      in if z < length (fg_queries g) then Inr (fg_queries g ! z) else Inl (Panic ''index out of range''))"

text \<open>
  The dump of a database in order asks for every location of every zone and for nothing else, and it can be read to its end.
\<close>

definition zone_queries :: "('s, 'r, 't, 'zc, 'rc) storage_env \<Rightarrow> keyspace \<Rightarrow> string \<Rightarrow> dns_Query set" where
  "zone_queries E ks zone = (case labels_of E ks zone of None \<Rightarrow> {} | Some A \<Rightarrow> \<Union>l \<in> A. set (location_queries zone l))"

lemma dump_zones_complete:
  assumes "sound_source E up ks glob L d" and "ready E ks L d dh"
  shows "\<exists>qs' dh'. dump_zones E now zones dh qs = Inr (qs @ qs', dh') \<and> set qs' = (\<Union>z \<in> set zones. zone_queries E (ks d) z)"
  using assms(2)
proof (induction zones arbitrary: dh qs)
  case (Cons zone zones)
  obtain z dh1 where z: "GetZone E now dh zone = Inr (Some z, dh1)" "ready E ks L d dh1"
    "Some (set (z_LocationsList z)) = labels_of E (ks d) zone"
    using GetZone_ready [OF assms(1) Cons.prems] by blast
  let ?new = "concat (map (location_queries zone) (z_LocationsList z))"
  from Cons.IH [OF z(2), of "qs @ ?new"] obtain qs' dh2
    where "dump_zones E now zones dh1 (qs @ ?new) = Inr ((qs @ ?new) @ qs', dh2)"
      "set qs' = (\<Union>z \<in> set zones. zone_queries E (ks d) z)" by (elim exE conjE)
  moreover have "set ?new = zone_queries E (ks d) zone" by (simp add: zone_queries_def flip: z(3))
  ultimately show ?case using z(1) by (intro exI [of _ "?new @ qs'"] exI [of _ dh2]) (simp add: GetZoneLocations_def)
qed simp

lemma redis_queries_read:
  assumes "n \<le> length (rg_queries g)"
  shows "map (\<lambda>i. redis_GetQuery (g\<lparr>rg_pos := i\<rparr>)) [0..<n] = map (\<lambda>i. Inr (rg_queries g ! i, g\<lparr>rg_pos := Suc i\<rparr>)) [0..<n]"
  using assms by (auto simp: redis_GetQuery_def)

lemma redis_dump_complete:
  assumes src: "sound_source E up ks glob L (dh_redis dh)" and "ready E ks L (dh_redis dh) dh"
    and "set_at (ks (dh_redis dh)) (rkey (dc_Redis (e_config E)) zonesKey) = Some Z"
  shows "\<exists>g dh'. NewRedisDumpQueryGenerator E now dh = Inr (g, dh') \<and> rg_pos g = 0 \<and>
    set (rg_queries g) = (\<Union>z \<in> Z. zone_queries E (ks (dh_redis dh)) z)"
proof -
  have laws: "redis_laws (e_server E) up ks glob" "up (dh_redis dh)" using src by (simp_all add: sound_source_def)
  obtain zones where zones: "SMembers (e_server E) (dc_Redis (e_config E)) (dh_redis dh) zonesKey = Some (Inr zones, dh_redis dh)" "set zones = Z"
    using redis_laws.smembers_complete [OF laws assms(3)] by blast
  obtain dh1 where dh1: "LoadZones E now dh = Inr dh1" "dh_redis dh1 = dh_redis dh" "dh_zoneCache dh1 = dh_zoneCache dh"
    using zones(1) by (auto simp: LoadZones_def Let_def split: if_splits)
  have "ready E ks L (dh_redis dh) (dh1\<lparr>dh_redis := dh_redis dh\<rparr>)" using assms(2) dh1(3) by (simp add: ready_def)
  from dump_zones_complete [OF src this, of now zones "[]"] obtain qs dh2
    where qs: "dump_zones E now zones (dh1\<lparr>dh_redis := dh_redis dh\<rparr>) [] = Inr (qs, dh2)"
      "set qs = (\<Union>z \<in> set zones. zone_queries E (ks (dh_redis dh)) z)" by auto
  have "GetZones E dh1 = Inr (zones, dh_redis dh)" using zones(1) dh1(2) by (simp add: GetZones_def)
  then have "NewRedisDumpQueryGenerator E now dh = Inr (\<lparr>rg_queries = qs, rg_pos = 0\<rparr>, dh2)"
    by (simp add: NewRedisDumpQueryGenerator_def dh1(1) qs(1))
  with qs(2) zones(2) show ?thesis by simp
qed

section \<open>Measuring\<close>

record BenchTool =
  bt_count :: int
  bt_totalTime :: int
  bt_min :: int
  bt_max :: int
  bt_mean :: real
  bt_stdev :: real

definition NewBenchTool :: BenchTool where
  "NewBenchTool = \<lparr>bt_count = 0, bt_totalTime = 0, bt_min = 1000, bt_max = 0, bt_mean = 0, bt_stdev = 0\<rparr>"

definition Seconds :: "int \<Rightarrow> real" where
  "Seconds d = of_int d / 1000000000"

definition bench_Act :: "int \<Rightarrow> BenchTool \<Rightarrow> BenchTool" where
  "bench_Act rtt t =
     (let prevMean = bt_mean t; n = bt_count t + 1; x = Seconds rtt; mean = bt_mean t + (x - bt_mean t) / of_int n
      in \<lparr>bt_count = n, bt_totalTime = wrap64 (bt_totalTime t + rtt), bt_min = (if rtt < bt_min t then rtt else bt_min t),
          bt_max = (if rtt > bt_max t then rtt else bt_max t), bt_mean = mean,
          bt_stdev = bt_stdev t + (x - mean) * (x - prevMean)\<rparr>)"

text \<open>
  The running mean is the mean.  What is reported as the standard deviation is the sum of the squared deviations, and
  the reported minimum is at most a microsecond.
\<close>

definition mean_of :: "int list \<Rightarrow> real" where
  "mean_of rs = (\<Sum>r \<leftarrow> rs. Seconds r) / of_nat (length rs)"

definition squares_of :: "int list \<Rightarrow> real" where
  "squares_of rs = (\<Sum>r \<leftarrow> rs. (Seconds r - mean_of rs)\<^sup>2)"

lemma welford:
  fixes n S Q x :: real
  assumes "0 < n"
  shows "S / n + (x - S / n) / (n + 1) = (S + x) / (n + 1)"
    and "Q - S\<^sup>2 / n + (x - (S + x) / (n + 1)) * (x - S / n) = Q + x\<^sup>2 - (S + x)\<^sup>2 / (n + 1)"
proof -
  have n: "n \<noteq> 0" "n + 1 \<noteq> 0" using assms by auto
  show "S / n + (x - S / n) / (n + 1) = (S + x) / (n + 1)"
    using n by (simp add: divide_simps) (simp add: algebra_simps)
  show "Q - S\<^sup>2 / n + (x - (S + x) / (n + 1)) * (x - S / n) = Q + x\<^sup>2 - (S + x)\<^sup>2 / (n + 1)"
  proof -
    have "(x - (S + x) / (n + 1)) * (x - S / n) = (n * x - S)\<^sup>2 / (n * (n + 1))"
      using n by (simp add: divide_simps power2_eq_square) (simp add: algebra_simps)
    moreover have "(S + x)\<^sup>2 / (n + 1) = S\<^sup>2 / n + x\<^sup>2 - (n * x - S)\<^sup>2 / (n * (n + 1))"
      using n by (simp add: divide_simps power2_eq_square) (simp add: algebra_simps)
    ultimately show ?thesis by simp
  qed
qed

lemma squares_expand:
  assumes "rs \<noteq> []"
  shows "squares_of rs = (\<Sum>r \<leftarrow> rs. (Seconds r)\<^sup>2) - (\<Sum>r \<leftarrow> rs. Seconds r)\<^sup>2 / of_nat (length rs)"
proof -
  have shift: "(\<Sum>r \<leftarrow> xs. (Seconds r - m)\<^sup>2) = (\<Sum>r \<leftarrow> xs. (Seconds r)\<^sup>2) - 2 * m * (\<Sum>r \<leftarrow> xs. Seconds r) + of_nat (length xs) * m\<^sup>2" for xs m
    by (induction xs) (simp_all add: power2_eq_square algebra_simps)
  have "n \<noteq> 0 \<Longrightarrow> Q - 2 * (S / n) * S + n * (S / n)\<^sup>2 = Q - S\<^sup>2 / n" for n S Q :: real
    by (simp add: field_simps power2_eq_square)
  then show ?thesis using assms unfolding squares_of_def shift mean_of_def by simp
qed

lemma bench_run:
  assumes "rs \<noteq> []"
  shows "bt_count (fold bench_Act rs NewBenchTool) = int (length rs) \<and> bt_mean (fold bench_Act rs NewBenchTool) = mean_of rs \<and>
    bt_stdev (fold bench_Act rs NewBenchTool) = squares_of rs \<and> bt_min (fold bench_Act rs NewBenchTool) \<le> 1000"
  using assms
proof (induction rs rule: rev_induct)
  case (snoc r rs)
  show ?case
  proof (cases "rs = []")
    case True
    then show ?thesis
      by (simp add: bench_Act_def NewBenchTool_def Let_def mean_of_def squares_of_def)
  next
    case False
    let ?t = "fold bench_Act rs NewBenchTool" and ?n = "of_nat (length rs) :: real"
    have IH: "bt_count ?t = int (length rs)" "bt_mean ?t = mean_of rs" "bt_stdev ?t = squares_of rs" "bt_min ?t \<le> 1000"
      using snoc.IH [OF False] by simp_all
    have n: "0 < ?n" using False by simp
    have mean: "mean_of rs + (Seconds r - mean_of rs) / (?n + 1) = mean_of (rs @ [r])"
      using welford(1) [OF n, of "\<Sum>r \<leftarrow> rs. Seconds r" "Seconds r"] by (simp add: mean_of_def add.commute)
    have "squares_of rs + (Seconds r - mean_of (rs @ [r])) * (Seconds r - mean_of rs) = squares_of (rs @ [r])"
      using welford(2) [OF n, of "\<Sum>r \<leftarrow> rs. (Seconds r)\<^sup>2" "\<Sum>r \<leftarrow> rs. Seconds r" "Seconds r"] squares_expand [OF False]
        squares_expand [of "rs @ [r]"] by (simp add: mean_of_def add.commute)
    then show ?thesis using IH mean by (simp add: bench_Act_def [of r ?t] Let_def add.commute)
  qed
qed simp

section \<open>Comparing\<close>

text \<open>
  A comparison of a record with the expected one.  A panic is a failed type assertion or an index out of range; the messages
  of the differences are left out.
\<close>

datatype verdict = Same | Differs | CheckPanics

definition check_that :: "bool \<Rightarrow> verdict" where "check_that b = (if b then Same else Differs)"

fun txt_verdict :: "string list \<Rightarrow> string list \<Rightarrow> verdict" where
  "txt_verdict [] expected = Same"
| "txt_verdict (x # xs) [] = CheckPanics"
| "txt_verdict (x # xs) (y # ys) = (if x \<noteq> y then Differs else txt_verdict xs ys)"

fun is_OPT :: "RR \<Rightarrow> bool" where "is_OPT (RR_OPT _) = True" | "is_OPT _ = False"

text \<open>The number of labels of a signature is no field of the model; types without a case are accepted.\<close>

definition data_verdict :: "RR \<Rightarrow> RR \<Rightarrow> verdict" where
  "data_verdict a e =
     (case a of
        RR_SRV _ p w t n \<Rightarrow> (case e of RR_SRV _ p' w' t' n' \<Rightarrow> check_that (p = p' \<and> w = w' \<and> t = t' \<and> n = n') | _ \<Rightarrow> CheckPanics)
      | RR_RRSIG s \<Rightarrow> (case e of RR_RRSIG s' \<Rightarrow> check_that (sig_TypeCovered s = sig_TypeCovered s' \<and> sig_SignerName s = sig_SignerName s') | _ \<Rightarrow> CheckPanics)
      | RR_NSEC _ n _ \<Rightarrow> (case e of RR_NSEC _ n' _ \<Rightarrow> check_that (n = n') | _ \<Rightarrow> CheckPanics)
      | RR_A _ x \<Rightarrow> (case e of RR_A _ x' \<Rightarrow> check_that (IP_String x = IP_String x') | _ \<Rightarrow> CheckPanics)
      | RR_AAAA _ x \<Rightarrow> (case e of RR_AAAA _ x' \<Rightarrow> check_that (IP_String x = IP_String x') | _ \<Rightarrow> CheckPanics)
      | RR_SOA _ n _ _ _ _ _ _ \<Rightarrow> (case e of RR_SOA _ n' _ _ _ _ _ _ \<Rightarrow> check_that (n = n') | _ \<Rightarrow> CheckPanics)
      | RR_PTR _ x \<Rightarrow> (case e of RR_PTR _ x' \<Rightarrow> check_that (x = x') | _ \<Rightarrow> CheckPanics)
      | RR_CNAME _ x \<Rightarrow> (case e of RR_CNAME _ x' \<Rightarrow> check_that (x = x') | _ \<Rightarrow> CheckPanics)
      | RR_MX _ p x \<Rightarrow> (case e of RR_MX _ p' x' \<Rightarrow> check_that (x = x' \<and> p = p') | _ \<Rightarrow> CheckPanics)
      | RR_NS _ x \<Rightarrow> (case e of RR_NS _ x' \<Rightarrow> check_that (x = x') | _ \<Rightarrow> CheckPanics)
      | RR_OPT x \<Rightarrow> (case e of RR_OPT x' \<Rightarrow> check_that (opt_UDPSize x = opt_UDPSize x' \<and> opt_Do x = opt_Do x') | _ \<Rightarrow> CheckPanics)
      | RR_CAA _ f t v \<Rightarrow> (case e of RR_CAA _ f' t' v' \<Rightarrow> check_that (v = v' \<and> t = t' \<and> f = f') | _ \<Rightarrow> CheckPanics)
      | RR_TLSA _ u s m c \<Rightarrow> (case e of RR_TLSA _ u' s' m' c' \<Rightarrow> check_that (u = u' \<and> s = s' \<and> m = m' \<and> c = c') | _ \<Rightarrow> CheckPanics)
      | RR_TXT _ xs \<Rightarrow> if xs = [] then Same else (case e of RR_TXT _ xs' \<Rightarrow> txt_verdict xs xs' | _ \<Rightarrow> CheckPanics)
      | RR_DS _ _ _ _ _ \<Rightarrow> Same
      | RR_DNSKEY _ \<Rightarrow> Same
      | RR_Other _ \<Rightarrow> Same
      | RR_Nil \<Rightarrow> CheckPanics
      | RR_NilRRSIG \<Rightarrow> CheckPanics)"

definition record_verdict :: "RR \<Rightarrow> RR \<Rightarrow> verdict" where
  "record_verdict a e =
     (if RR_Nil \<in> {a, e} then CheckPanics
      else if hdr_Name (Header a) \<noteq> hdr_Name (Header e) then Differs
      else if hdr_Ttl (Header e) \<noteq> 303 \<and> hdr_Ttl (Header a) \<noteq> hdr_Ttl (Header e) \<and> \<not> is_OPT e then Differs
      else if hdr_Rrtype (Header a) \<noteq> hdr_Rrtype (Header e) then Differs
      else data_verdict a e)"

fun Section :: "RR list \<Rightarrow> RR list \<Rightarrow> verdict" where
  "Section [] expected = Same"
| "Section (a # rr) [] = CheckPanics"
| "Section (a # rr) (e # es) = (case record_verdict a e of Same \<Rightarrow> Section rr es | v \<Rightarrow> v)"

definition check_Header :: "Msg \<Rightarrow> Msg \<Rightarrow> bool" where
  "check_Header tc resp \<longleftrightarrow> msg_Rcode resp = msg_Rcode tc \<and> length (msg_Answer resp) = length (msg_Answer tc) \<and>
     length (msg_Ns resp) = length (msg_Ns tc) \<and> length (msg_Extra resp) = length (msg_Extra tc)"

text \<open>\<open>srt\<close> is \<open>sort.Sort\<close> by the printed form.\<close>

definition SortAndCheck :: "(RR list \<Rightarrow> RR list) \<Rightarrow> Msg \<Rightarrow> Msg \<Rightarrow> verdict" where
  "SortAndCheck srt resp tc =
     (if \<not> check_Header tc resp then Differs
      else (case Section (srt (msg_Answer resp)) (msg_Answer tc) of
              Same \<Rightarrow> (case Section (srt (msg_Ns resp)) (msg_Ns tc) of
                         Same \<Rightarrow> Section (srt (msg_Extra resp)) (msg_Extra tc)
                       | v \<Rightarrow> v)
            | v \<Rightarrow> v))"

text \<open>
  Errors are compared by identity, which \<open>same\<close> stands for: it tells whether two exchanges returned one error value, as they
  do not for errors that are made anew.  A response without a question makes the tool panic.
\<close>

definition compare_Act ::
  "(go_error \<Rightarrow> go_error \<Rightarrow> bool) \<Rightarrow> (RR list \<Rightarrow> RR list) \<Rightarrow> go_error + Msg \<Rightarrow> go_error + Msg \<Rightarrow> verdict" where
  "compare_Act same srt r1 r2 =
     (case (r1, r2) of
        (Inr resp1, Inr resp2) \<Rightarrow>
          if msg_Question resp1 = [] then CheckPanics
          else SortAndCheck srt resp2
            (resp1\<lparr>msg_Answer := srt (msg_Answer resp1), msg_Ns := srt (msg_Ns resp1), msg_Extra := srt (msg_Extra resp1)\<rparr>)
      | (Inl e1, Inl e2) \<Rightarrow> check_that (same e1 e2)
      | _ \<Rightarrow> Differs)"

lemma txt_verdict_refl: "txt_verdict xs xs = Same"
  by (induction xs) simp_all

lemma record_verdict_refl: "a \<noteq> RR_Nil \<Longrightarrow> a \<noteq> RR_NilRRSIG \<Longrightarrow> record_verdict a a = Same"
  by (cases a) (simp_all add: record_verdict_def data_verdict_def check_that_def txt_verdict_refl split: list.split)

lemma Section_refl: "RR_Nil \<notin> set rr \<Longrightarrow> RR_NilRRSIG \<notin> set rr \<Longrightarrow> Section rr rr = Same"
  by (induction rr) (auto simp: record_verdict_refl)

text \<open>Servers with the same answers are found equal, in whatever order they send them.\<close>

lemma same_answers_accepted:
  assumes "msg_Question resp1 \<noteq> []" and "msg_Rcode resp1 = msg_Rcode resp2" and "mset (msg_Answer resp1) = mset (msg_Answer resp2)"
    and "mset (msg_Ns resp1) = mset (msg_Ns resp2)" and "mset (msg_Extra resp1) = mset (msg_Extra resp2)"
    and "\<And>rr. mset (srt rr) = mset rr" and "\<And>xs ys. mset xs = mset ys \<Longrightarrow> srt xs = srt ys"
    and "{RR_Nil, RR_NilRRSIG} \<inter> (set (msg_Answer resp1) \<union> set (msg_Ns resp1) \<union> set (msg_Extra resp1)) = {}"
  shows "compare_Act same srt (Inr resp1) (Inr resp2) = Same"
proof -
  have len: "length (srt rr) = length rr" "set (srt rr) = set rr" for rr
    using assms(6) [of rr] by (metis size_mset, metis set_mset_mset)
  have eq: "srt (msg_Answer resp2) = srt (msg_Answer resp1)" "srt (msg_Ns resp2) = srt (msg_Ns resp1)"
    "srt (msg_Extra resp2) = srt (msg_Extra resp1)" using assms(3-5,7) by metis+
  have "Section (srt (msg_Answer resp1)) (srt (msg_Answer resp1)) = Same" "Section (srt (msg_Ns resp1)) (srt (msg_Ns resp1)) = Same"
    "Section (srt (msg_Extra resp1)) (srt (msg_Extra resp1)) = Same"
    using assms(8) by (auto intro!: Section_refl simp: len)
  moreover have "length (msg_Answer resp2) = length (msg_Answer resp1)" "length (msg_Ns resp2) = length (msg_Ns resp1)"
    "length (msg_Extra resp2) = length (msg_Extra resp1)" using assms(3-5) by (metis size_mset)+
  ultimately show ?thesis using assms(1,2) by (simp add: compare_Act_def SortAndCheck_def check_Header_def eq len)
qed

text \<open>A text that is cut off and a digest that is wrong are accepted; two servers that fail with errors made anew are reported as different.\<close>

lemma difference_overlooked:
  "record_verdict (RR_TXT h [x]) (RR_TXT h [x, y]) = Same"
  "record_verdict (RR_DS h k a t d) (RR_DS h k' a' t' d') = Same"
  "\<not> same e e' \<Longrightarrow> compare_Act same srt (Inl e) (Inl e') = Differs"
  by (simp_all add: record_verdict_def data_verdict_def compare_Act_def check_that_def)

section \<open>The program\<close>

text \<open>
  \<open>main\<close> makes a pool of the workers, queues every query and then waits until the workers have counted as many as there are; a worker
  counts a query before it acts on it.
\<close>

definition query_pool :: "int \<Rightarrow> go_error + dns_Query Dispatcher" where
  "query_pool threads = andThen (NewDispatcher 10000 threads) (\<lambda>d. Inr ((AddWorker ^^ nat threads) d))"

definition is_handling :: "'j worker \<Rightarrow> bool" where
  "is_handling w = (case w of Handling _ \<Rightarrow> True | _ \<Rightarrow> False)"

definition totalCount :: "'j Dispatcher \<Rightarrow> nat" where
  "totalCount e = size (handled e) + length (filter is_handling (WorkerList e))"

lemma held_none: "sum_list (map held ws) = {#} \<Longrightarrow> filter is_handling ws = []"
  by (induction ws) (auto simp: held_def is_handling_def split: worker.splits)

text \<open>Whatever the workers have done so far, they can go on until every query is counted.\<close>

lemma query_main_ends:
  assumes "query_pool threads = Inr p" and "reachable p (mset queries) e" and "\<not> quit e" and "0 < threads"
  shows "\<exists>e'. goroutine\<^sup>*\<^sup>* e e' \<and> totalCount e' = length queries"
proof -
  obtain d where d: "NewDispatcher 10000 threads = Inr d" "p = (AddWorker ^^ nat threads) d"
    using assms(1) by (auto simp: query_pool_def andThen_Inr_iff)
  obtain e' where e': "goroutine\<^sup>*\<^sup>* e e'" "resting e'" using goroutines_rest by blast
  have ok: "pool_ok (nat threads) (nat threads) (mset queries) e'" "\<not> quit e'"
    using goroutines_pool_ok [OF e'(1) reachable_pool_ok [OF d(1)]] assms(2,3) d(2) by blast+
  then have all: "handled e' = mset queries" using e'(2) assms(4) by (intro resting_all_handled) auto
  have "jobs e' = mset queries" using ok(1) by (auto simp: pool_ok_def)
  then have "sum_list (map held (WorkerList e')) = {#}" using all by (simp add: jobs_def)
  then have "totalCount e' = length queries" using all by (simp add: totalCount_def held_none)
  with e'(1) show ?thesis by blast
qed

end
