(* ===== verification/PerfTools.thy ===== *)
theory PerfTools
  imports Upstream DataHandler
begin

text \<open>
  The performance tools: the generator of random zones (\<open>src/tools/perf/gen/gen.go\<close>) and the client that checks the answers of a
  server with its list of queries (\<open>src/tools/perf/bulk/bulk.go\<close>).

  The random sources are sequences of numbers, of which a state has the position.  Lines on the console are left out.
\<close>

section \<open>Random strings\<close>

definition gen_letterBytes :: string where "gen_letterBytes = ''abcdefghijklmnopqrstuvwxyz''"
definition letterIdxBits :: nat where "letterIdxBits = 6"
definition letterIdxMax :: nat where "letterIdxMax = 63 div letterIdxBits"

text \<open>
  The string is filled from its end.  Each number of the source has ten letter indices, of which those beyond the letters are dropped, so that
  the loop ends when the source goes on to produce letters.
\<close>

partial_function (option) letter_loop ::
  "(nat \<Rightarrow> int) \<Rightarrow> nat \<Rightarrow> int \<Rightarrow> nat \<Rightarrow> nat \<Rightarrow> string \<Rightarrow> (string \<times> nat) option" where
  "letter_loop src p cache remain i b =
     (if i = 0 then Some (b, p)
      else if remain = 0 then letter_loop src (p + 1) (src p) letterIdxMax i b
      else let idx = nat (cache mod 2 ^ letterIdxBits) in
        if idx < length gen_letterBytes
        then letter_loop src p (cache div 2 ^ letterIdxBits) (remain - 1) (i - 1) (gen_letterBytes ! idx # b)
        else letter_loop src p (cache div 2 ^ letterIdxBits) (remain - 1) i b)"

definition RandomString :: "(nat \<Rightarrow> int) \<Rightarrow> nat \<Rightarrow> nat \<Rightarrow> (string \<times> nat) option" where
  "RandomString src n p = letter_loop src (p + 1) (src p) letterIdxMax n []"

text \<open>A number with a letter among its first \<open>r\<close> indices.\<close>

definition has_letter :: "nat \<Rightarrow> int \<Rightarrow> bool" where
  "has_letter r c \<longleftrightarrow> (\<exists>k < r. nat (c div 64 ^ k mod 64) < 26)"

definition productive :: "(nat \<Rightarrow> int) \<Rightarrow> bool" where
  "productive src \<longleftrightarrow> (\<forall>p. \<exists>q \<ge> p. has_letter letterIdxMax (src q))"

lemma letters: "length gen_letterBytes = 26" "(2::int) ^ letterIdxBits = 64" "letterIdxMax = 10"
  by (simp_all add: gen_letterBytes_def letterIdxBits_def letterIdxMax_def)

lemma letter_loop_steps:
  "letter_loop src p c r 0 b = Some (b, p)"
  "letter_loop src p c 0 (Suc i) b = letter_loop src (p + 1) (src p) 10 (Suc i) b"
  "letter_loop src p c (Suc r) (Suc i) b =
     (if nat (c mod 64) < 26 then letter_loop src p (c div 64) r i (gen_letterBytes ! nat (c mod 64) # b)
      else letter_loop src p (c div 64) r (Suc i) b)"
  by (subst letter_loop.simps, simp add: letters Let_def)+

text \<open>Within one number the loop finds a letter or comes to the end of the number.\<close>

lemma number_scanned:
  "(\<exists>c' r' k. k < 26 \<and> letter_loop src p c r (Suc i) b = letter_loop src p c' r' i (gen_letterBytes ! k # b)) \<or>
   \<not> has_letter r c \<and> (\<exists>c'. letter_loop src p c r (Suc i) b = letter_loop src p c' 0 (Suc i) b)"
proof (induction r arbitrary: c)
  case (Suc r)
  show ?case
  proof (cases "nat (c mod 64) < 26")
    case True
    then show ?thesis by (auto simp: letter_loop_steps)
  next
    case False
    have "has_letter (Suc r) c \<longleftrightarrow> has_letter r (c div 64)"
    proof
      assume "has_letter (Suc r) c"
      then obtain k where k: "k < Suc r" "nat (c div 64 ^ k mod 64) < 26" by (auto simp: has_letter_def)
      then obtain j where "k = Suc j" using False by (cases k) auto
      with k show "has_letter r (c div 64)" by (auto simp: has_letter_def zdiv_zmult2_eq)
    next
      assume "has_letter r (c div 64)"
      then obtain k where "k < r" "nat (c div 64 div 64 ^ k mod 64) < 26" by (auto simp: has_letter_def)
      then show "has_letter (Suc r) c" unfolding has_letter_def by (intro exI [of _ "Suc k"]) (simp add: zdiv_zmult2_eq)
    qed
    with False Suc.IH [of "c div 64"] show ?thesis by (simp add: letter_loop_steps)
  qed
qed (auto simp: has_letter_def)

lemma next_letter:
  assumes "productive src"
  shows "\<exists>p' c' r' k. k < 26 \<and> letter_loop src p c r (Suc i) b = letter_loop src p' c' r' i (gen_letterBytes ! k # b)"
proof -
  have found: "\<exists>p' c' r' k. k < 26 \<and> letter_loop src p c 0 (Suc i) b = letter_loop src p' c' r' i (gen_letterBytes ! k # b)"
    if "has_letter 10 (src q)" "p \<le> q" for p q c
    using that
  proof (induction "q - p" arbitrary: p c)
    case 0
    then have "has_letter 10 (src p)" by simp
    then show ?case using number_scanned [of src "p + 1" "src p" 10 i b] by (auto simp: letter_loop_steps)
  next
    case (Suc n)
    from number_scanned [of src "p + 1" "src p" 10 i b] show ?case
    proof
      assume "\<not> has_letter 10 (src p) \<and>
        (\<exists>c'. letter_loop src (p + 1) (src p) 10 (Suc i) b = letter_loop src (p + 1) c' 0 (Suc i) b)"
      moreover have "n = q - (p + 1)" "p + 1 \<le> q" using Suc.hyps(2) by simp_all
      ultimately show ?case using Suc.hyps(1) [OF _ Suc.prems(1)] by (simp add: letter_loop_steps)
    qed (auto simp: letter_loop_steps)
  qed
  obtain q where q: "q \<ge> p" "has_letter 10 (src q)" using assms by (auto simp: productive_def letters)
  from number_scanned [of src p c r i b] found [OF q(2,1)] show ?thesis by metis
qed

lemma letter_loop_ends:
  assumes "productive src"
  shows "\<exists>s p'. letter_loop src p c r n b = Some (s @ b, p') \<and> length s = n \<and> set s \<subseteq> set gen_letterBytes"
proof (induction n arbitrary: p c r b)
  case 0
  then show ?case by (simp add: letter_loop_steps)
next
  case (Suc n)
  obtain p' c' r' k where k: "k < 26" "letter_loop src p c r (Suc n) b = letter_loop src p' c' r' n (gen_letterBytes ! k # b)"
    using next_letter [OF assms] by blast
  obtain s p'' where "letter_loop src p' c' r' n (gen_letterBytes ! k # b) = Some (s @ gen_letterBytes ! k # b, p'')" "length s = n"
    "set s \<subseteq> set gen_letterBytes" using Suc.IH by blast
  with k show ?case by (intro exI [of _ "s @ [gen_letterBytes ! k]"] exI [of _ p'']) (simp add: letters)
qed

lemma random_string:
  assumes "productive src"
  shows "\<exists>s p'. RandomString src n p = Some (s, p') \<and> length s = n \<and> set s \<subseteq> set gen_letterBytes"
  using letter_loop_ends [OF assms, of "p + 1" "src p" letterIdxMax n "[]"] by (simp add: RandomString_def)

section \<open>Generating a zone\<close>

definition tst_suffix :: string where "tst_suffix = ''.tst.''"

text \<open>
  What the generator has written: the locations in the order of their writes, each with its JSON text, the lines of the list of
  queries and the text of the zone file.
\<close>

record generated =
  gn_src :: nat
  gn_rand :: nat
  gn_locations :: "(string \<times> string) list"
  gn_queries :: "string list"
  gn_zone :: string

definition quoted :: "string \<Rightarrow> string" where
  "quoted s = [CHR 0x22] @ s @ [CHR 0x22]"

definition random_ip :: "(nat \<Rightarrow> nat) \<Rightarrow> nat \<Rightarrow> string" where
  "random_ip intn k = Itoa_nat (intn k) @ ''.'' @ Itoa_nat (intn (k + 1)) @ ''.'' @ Itoa_nat (intn (k + 2)) @ ''.'' @ Itoa_nat (intn (k + 3))"

definition a_json :: "string \<Rightarrow> string" where
  "a_json ip = ''{'' @ quoted ''a'' @ '':{'' @ quoted ''ttl'' @ '':300, '' @ quoted ''records'' @ '':[{'' @ quoted ''ip'' @ '':'' @
     quoted ip @ ''}]}}''"

definition cname_json :: "string \<Rightarrow> string" where
  "cname_json host = ''{'' @ quoted ''cname'' @ '':{'' @ quoted ''ttl'' @ '':300, '' @ quoted ''host'' @ '':'' @ quoted host @ ''}}''"

text \<open>The key \<open>records\<close> has no closing quote.\<close>

definition txt_json :: "string \<Rightarrow> string" where
  "txt_json t = ''{'' @ quoted ''txt'' @ '':{'' @ quoted ''ttl'' @ '':300, '' @ [CHR 0x22] @ ''records:{'' @ quoted ''text'' @ '':'' @
     quoted t @ ''}'' @ [CHR 0x22] @ ''}}''"

definition query_line :: "string \<Rightarrow> string \<Rightarrow> uint16 \<Rightarrow> int \<Rightarrow> string" where
  "query_line location zoneName t rcode =
     location @ ''.'' @ zoneName @ '' '' @ Itoa_nat (unat t) @ '' '' @ Itoa rcode"

definition gen_location :: "(nat \<Rightarrow> int) \<Rightarrow> nat \<Rightarrow> (string \<Rightarrow> generated \<Rightarrow> generated option) \<Rightarrow> generated \<Rightarrow> generated option" where
  "gen_location src n f g = (case RandomString src n (gn_src g) of None \<Rightarrow> None | Some (s, p) \<Rightarrow> f s (g\<lparr>gn_src := p\<rparr>))"

definition put_location :: "string \<Rightarrow> string \<Rightarrow> generated \<Rightarrow> generated" where
  "put_location location json g = g\<lparr>gn_locations := gn_locations g @ [(location, json)]\<rparr>"

definition put_query :: "string \<Rightarrow> generated \<Rightarrow> generated" where
  "put_query line g = g\<lparr>gn_queries := gn_queries g @ [line]\<rparr>"

definition put_zone :: "string \<Rightarrow> generated \<Rightarrow> generated" where
  "put_zone text g = g\<lparr>gn_zone := gn_zone g @ text\<rparr>"

definition take_ip :: "(nat \<Rightarrow> nat) \<Rightarrow> (string \<Rightarrow> generated \<Rightarrow> generated) \<Rightarrow> generated \<Rightarrow> generated" where
  "take_ip intn f g = f (random_ip intn (gn_rand g)) (g\<lparr>gn_rand := gn_rand g + 4\<rparr>)"

definition gen_cname :: "(nat \<Rightarrow> int) \<Rightarrow> (nat \<Rightarrow> nat) \<Rightarrow> string \<Rightarrow> generated \<Rightarrow> generated option" where
  "gen_cname src intn zoneName = gen_location src 15 (\<lambda>location1. gen_location src 15 (\<lambda>location2 g. Some
     (take_ip intn (\<lambda>ip.
        put_zone (location1 @ '' CNAME '' @ location2 @ ''\<newline>'' @ location2 @ '' A '' @ ip @ ''\<newline>'') o
        put_query (query_line location1 zoneName TypeA RcodeSuccess @ '' '' @ ip @ ''\<newline>'') o
        put_location location2 (a_json ip))
      (put_location location1 (cname_json (location2 @ ''.'' @ zoneName @ ''.'')) g))))"

definition gen_txt :: "(nat \<Rightarrow> int) \<Rightarrow> string \<Rightarrow> generated \<Rightarrow> generated option" where
  "gen_txt src zoneName = gen_location src 15 (\<lambda>location. gen_location src 200 (\<lambda>txt g. Some
     (put_zone (location @ '' TXT '' @ quoted txt)
       (put_query (query_line location zoneName TypeTXT RcodeSuccess @ '' '' @ txt @ ''\<newline>'')
         (put_location location (txt_json txt) g)))))"

definition gen_nxdomain :: "(nat \<Rightarrow> int) \<Rightarrow> string \<Rightarrow> generated \<Rightarrow> generated option" where
  "gen_nxdomain src zoneName = gen_location src 15 (\<lambda>location g. Some
     (put_query (query_line location zoneName TypeA RcodeNameError @ ''\<newline>'') g))"

definition gen_a :: "(nat \<Rightarrow> int) \<Rightarrow> (nat \<Rightarrow> nat) \<Rightarrow> string \<Rightarrow> generated \<Rightarrow> generated option" where
  "gen_a src intn zoneName = gen_location src 15 (\<lambda>location g. Some
     (take_ip intn (\<lambda>ip.
        put_zone (location @ '' A '' @ ip @ ''\<newline>'') o
        put_query (query_line location zoneName TypeA RcodeSuccess @ '' '' @ ip @ ''\<newline>'') o
        put_location location (a_json ip)) g))"

definition gen_entry :: "(nat \<Rightarrow> int) \<Rightarrow> (nat \<Rightarrow> nat) \<Rightarrow> string \<Rightarrow> string \<Rightarrow> generated \<Rightarrow> generated option" where
  "gen_entry src intn kind zoneName =
     (if kind = ''cname'' then gen_cname src intn zoneName
      else if kind = ''txt'' then gen_txt src zoneName
      else if kind = ''nxdomain'' then gen_nxdomain src zoneName
      else gen_a src intn zoneName)"

fun gen_entries :: "(nat \<Rightarrow> int) \<Rightarrow> (nat \<Rightarrow> nat) \<Rightarrow> string \<Rightarrow> string \<Rightarrow> nat \<Rightarrow> generated \<Rightarrow> generated option" where
  "gen_entries src intn kind zoneName 0 g = Some g"
| "gen_entries src intn kind zoneName (Suc n) g =
     Option.bind (gen_entry src intn kind zoneName g) (gen_entries src intn kind zoneName n)"

definition zone_head :: "string \<Rightarrow> string" where
  "zone_head zoneName =
     ''$ORIGIN '' @ zoneName @ ''\<newline>$TTL 300\<newline>\<newline>@       SOA ns1 hostmaster (\<newline>1      ; serial\<newline>7200   ; refresh\<newline>30M    ; retry\<newline>3D     ; expire\<newline>900    ; ncache\<newline>)\<newline>@ NS ns1.''
     @ zoneName @ ''\<newline>ns1 A 1.2.3.4\<newline>\<newline>''"

text \<open>One round of the outer loop: the zone is enabled, then its locations are set; errors are dropped.\<close>

definition gen_zone ::
  "('s, 'r, 't, 'zc, 'rc) storage_env \<Rightarrow> (string \<Rightarrow> go_error + locationEntry) \<Rightarrow> (nat \<Rightarrow> int) \<Rightarrow> (nat \<Rightarrow> nat) \<Rightarrow> string \<Rightarrow> nat \<Rightarrow>
   's \<Rightarrow> generated \<Rightarrow> ('s \<times> generated) option" where
  "gen_zone E unmarshal src intn kind n s g =
     (case RandomString src 15 (gn_src g) of
        None \<Rightarrow> None
      | Some (name, p) \<Rightarrow>
          let zoneName = name @ tst_suffix in
          map_option (\<lambda>g. (fold (\<lambda>(l, json) s. snd (SetLocationFromJson E unmarshal s zoneName l json)) (gn_locations g)
                              (snd (EnableZone E s zoneName)), g))
            (gen_entries src intn kind zoneName n (g\<lparr>gn_src := p, gn_locations := [], gn_zone := zone_head zoneName\<rparr>)))"

lemma gen_entry_ends:
  assumes "productive src"
  shows "\<exists>g'. gen_entry src intn kind zoneName g = Some g' \<and> length (gn_queries g') = Suc (length (gn_queries g))"
proof -
  have draw: "\<exists>s p'. RandomString src k p = Some (s, p')" for k p using random_string [OF assms] by blast
  obtain s p where 1: "RandomString src 15 (gn_src g) = Some (s, p)" using draw by blast
  obtain s' p' where 2: "RandomString src 15 p = Some (s', p')" using draw by blast
  obtain s'' p'' where 3: "RandomString src 200 p = Some (s'', p'')" using draw by blast
  note puts = put_location_def put_query_def put_zone_def take_ip_def gen_location_def
  have "\<exists>g'. gen_cname src intn zoneName g = Some g' \<and> length (gn_queries g') = Suc (length (gn_queries g))"
    by (simp add: gen_cname_def puts 1 2)
  moreover have "\<exists>g'. gen_txt src zoneName g = Some g' \<and> length (gn_queries g') = Suc (length (gn_queries g))"
    by (simp add: gen_txt_def puts 1 3)
  moreover have "\<exists>g'. gen_nxdomain src zoneName g = Some g' \<and> length (gn_queries g') = Suc (length (gn_queries g))"
    by (simp add: gen_nxdomain_def puts 1)
  moreover have "\<exists>g'. gen_a src intn zoneName g = Some g' \<and> length (gn_queries g') = Suc (length (gn_queries g))"
    by (simp add: gen_a_def puts 1)
  ultimately show ?thesis by (simp add: gen_entry_def)
qed

text \<open>The generator ends, with one query for each entry.\<close>

lemma gen_entries_end:
  assumes "productive src"
  shows "\<exists>g'. gen_entries src intn kind zoneName n g = Some g' \<and> length (gn_queries g') = length (gn_queries g) + n"
proof (induction n arbitrary: g)
  case (Suc n)
  then show ?case using gen_entry_ends [OF assms, of intn kind zoneName g] by fastforce
qed simp

text \<open>A parser that rejects the text of a TXT location leaves the database as it is, while the query for it is written.\<close>

lemma txt_not_stored:
  assumes "\<And>t. unmarshal (txt_json t) = Inl e"
  shows "SetLocationFromJson E unmarshal s zone location (txt_json t) = (Some e, s)"
  using assms by (simp add: SetLocationFromJson_def)

section \<open>Checking answers\<close>

record known_query =
  qy_queryAddr :: string
  qy_queryType :: int
  qy_resultCode :: int
  qy_queryResult :: string

text \<open>
  The loop of \<open>main\<close> in \<open>bulk\<close> over the queries that are drawn: an answer with another code or without records ends it.  The \<open>break\<close> at a
  wrong record ends the \<open>switch\<close> only, so that the loop goes on.
\<close>

datatype bulk_verdict = NextQuery int | EndLoop | BulkPanics

definition check_answer :: "known_query \<Rightarrow> RR list \<Rightarrow> int \<Rightarrow> bulk_verdict" where
  "check_answer q answer rtt =
     (case answer of
        [] \<Rightarrow> EndLoop
      | rr # _ \<Rightarrow>
          if (word_of_int (qy_queryType q) :: uint16) = TypeA then (case rr of RR_A _ _ \<Rightarrow> NextQuery rtt | _ \<Rightarrow> BulkPanics)
          else if (word_of_int (qy_queryType q) :: uint16) = TypeTXT
               then (case rr of RR_TXT _ (_ # _) \<Rightarrow> NextQuery rtt | _ \<Rightarrow> BulkPanics)
          else NextQuery rtt)"

definition bulk_query :: "known_query \<Rightarrow> go_error + Msg \<times> int \<Rightarrow> bulk_verdict" where
  "bulk_query q r =
     (case r of
        Inl _ \<Rightarrow> NextQuery 0
      | Inr (m, rtt) \<Rightarrow>
          if msg_Rcode m \<noteq> qy_resultCode q then EndLoop
          else if qy_resultCode q = RcodeSuccess then check_answer q (msg_Answer m) rtt
          else NextQuery 0)"

fun bulk_loop :: "(known_query \<Rightarrow> go_error + Msg \<times> int) \<Rightarrow> known_query list \<Rightarrow> int \<Rightarrow> go_error + int" where
  "bulk_loop ask [] duration = Inr duration"
| "bulk_loop ask (q # qs) duration =
     (case bulk_query q (ask q) of
        NextQuery rtt \<Rightarrow> bulk_loop ask qs (wrap64 (duration + rtt))
      | EndLoop \<Rightarrow> Inr duration
      | BulkPanics \<Rightarrow> Inl (Panic ''interface conversion''))"

text \<open>A wrong address counts like the right one.\<close>

lemma wrong_answer_counts:
  assumes "ask q = Inr (m, rtt)" and "msg_Rcode m = RcodeSuccess" and "qy_resultCode q = RcodeSuccess"
    and "qy_queryType q = uint TypeA" and "msg_Answer m = [RR_A h ip]"
  shows "bulk_loop ask (q # qs) duration = bulk_loop ask qs (wrap64 (duration + rtt))"
  using assms by (simp add: bulk_query_def check_answer_def)

end
