(* ===== verification/Spec2Isabelle.thy ===== *)
theory Spec2Isabelle
  imports Programs ZoneUpdater AccountRequests ImportProps MainLoops ApiProgram QueryTools PerfTools
begin

text \<open>
  z42-core is an authoritative DNS service.  It has four programs.  The resolver answers DNS requests from
  zones in a redis database.  The API server lets users manage their zones in an SQL database, where every
  change is recorded as an event.  The zone updater copies these events to redis.  The health checker probes the addresses
  of record sets.  This development models the Go sources of these programs as HOL functions and
  transition systems and proves what makes them correct.  This theory composes the parts: the resolver program
  on the storage layer, and the way of a change from the API to a DNS answer.

  \<^bold>\<open>How the code is modelled.\<close>  A Go struct is a record, an interface or a tagged value a datatype, a method a
  function that takes the state and returns it.  Machine integers are words or integers with \<open>wrap64\<close>.  An error is the left
  side of a sum; \<open>go_error\<close> distinguishes errors, panics and calls that do not return.  Loops are recursive; loops that may
  run for ever are partial functions into option, and what ends is proved to end.  Goroutines are inductive
  step relations.  Definitions keep the names of the source; a prefix tells apart names that occur in several packages
  (\<open>dh_TXT\<close>, \<open>db_AddZone\<close>, \<open>zone_addZone\<close>, \<open>auth_login\<close>, \<open>server_Verify\<close>).

  \<^bold>\<open>Parameters.\<close>  Code outside the repository is an argument, and locales state what is assumed of it: the redis server
  (\<open>redis_server\<close>, \<open>redis_laws\<close>), the radix tree (\<open>radix\<close>, \<open>radix_tree\<close>), caches (\<open>cache_api\<close>, \<open>lossy_cache\<close>; \<open>go_cache\<close>,
  \<open>expiring_cache\<close>), the JSON codec (\<open>json_api\<close>), the dns package (\<open>msg_api\<close>, \<open>dns_crypto\<close>, \<open>dns_tables\<close>), the SQL server
  (\<open>sql_env\<close>), MaxMind readers, the network (\<open>exchange\<close>, \<open>net_checks\<close>, \<open>smtp_api\<close>, \<open>host\<close>), gin with its
  decoders and the zone file parser (\<open>api_env\<close>), the token package (\<open>jwt_api\<close>).  Each locale is interpreted, and every
  property with hypotheses has a witness on a concrete instance.

  \<^bold>\<open>Foundations.\<close>  \<open>GoPrelude\<close>: machine types, the functions of \<open>strings\<close>, \<open>strconv\<close>, \<open>encoding/hex\<close> and \<open>net\<close> that
  the sources call, lemmas on lists and options.  \<open>GoCache\<close>: the cache with expiration.

  \<^bold>\<open>Data.\<close>  \<open>DnsTypes\<close> (\<open>src/internal/types/dns_types.go\<close>): record sets with \<open>Value\<close>, \<open>Parse\<close>, \<open>Empty\<close>; printing and
  parsing are inverse, \<open>SplitSets\<close> partitions.  \<open>Zones\<close> (\<open>src/internal/types/zone.go\<close>): \<open>FindLocation\<close> refines the
  rules of closest encloser and wildcard.  \<open>Events\<close> (\<open>src/internal/api/database/types.go\<close>): events and their decoding.

  \<^bold>\<open>Resolver.\<close>  \<open>Geo\<close>, \<open>IpSelect\<close> (\<open>src/pkg/geoip\<close>, \<open>src/internal/geotools\<close>, parts of
  \<open>src/internal/resolver/handler.go\<close>): filters and order of addresses; no index is out of range, no address is sent
  twice.  \<open>Dnssec\<close> (\<open>src/internal/dnssec\<close>): an answer keeps its records and gains the signatures of its sets.  \<open>Request\<close>
  (\<open>request.go\<close>, \<open>cookie.go\<close>): cookies are accepted within an hour.  \<open>Handler\<close>, \<open>HandlerProps\<close> (\<open>handler.go\<close>): the
  resolution ends, follows at most ten aliases, answers with the stored records, denies what does not exist.  The
  loop over aliases has the bound of the source, so that eleven rounds are all there are.  \<open>Upstream\<close>
  (\<open>src/internal/upstream\<close>), \<open>RateLimit\<close> (\<open>src/pkg/ratelimit\<close>).  \<open>Server\<close>: \<open>handleRequest\<close> of \<open>src/cmd/resolver\<close>.

  \<^bold>\<open>Storage.\<close>  \<open>HiRedis\<close>, \<open>Subscription\<close> (\<open>src/pkg/hiredis\<close>): commands, scans with a cursor, transactions, and the
  goroutines that receive key events.  \<open>DataHandler\<close>, \<open>StorageProps\<close>, \<open>ZoneReload\<close>
  (\<open>src/internal/storage/data_handler.go\<close>): zones, record sets, keys, caches, and the goroutine that follows the list
  of zones.  \<open>ApplyEvents\<close>: \<open>ApplyEvent\<close>, one transaction for each event.  \<open>Resolver\<close>: the storage layer as the
  database of the request handler.

  \<^bold>\<open>Control plane.\<close>  \<open>Database\<close> (\<open>internal.go\<close>, \<open>transaction.go\<close>, the SQL schema): each statement as an operation on the
  tables.  \<open>ControlPlane\<close>, \<open>ControlPlaneProps\<close>, \<open>DatabaseIntegrity\<close>, \<open>Accounts\<close> (\<open>db.go\<close>, \<open>password.go\<close>): changes
  are authorized, atomic and recorded; the keys and references of the schema are an invariant; codes work once.
  \<open>ZoneUpdater\<close> (\<open>src/cmd/zone_updater\<close>): the loop applies each event once and in order, a hundred per round, so that
  \<open>n\<close> rounds are enough for \<open>100 * n\<close> events.

  \<^bold>\<open>API.\<close>  \<open>ZoneApi\<close>, \<open>ApiServer\<close> (\<open>src/internal/api/handlers\<close>, \<open>src/internal/api/server\<close>, \<open>src/internal/mailer\<close>): the
  handlers, the routes with their middleware, and \<open>ServeHTTP\<close>.  \<open>ZoneRequests\<close>: a request changes a zone only for its
  owner and records it, or has no effect.  \<open>ZoneExport\<close>: the export in pages of ten ends and is complete.
  \<open>ImportProps\<close>: an import sorts the records of a zone file.  \<open>AccountRequests\<close>: signup, verification, login.

  \<^bold>\<open>Health and concurrency.\<close>  \<open>StatHandler\<close>, \<open>HealthCheck\<close> (\<open>src/internal/storage/stat_handler.go\<close>,
  \<open>src/internal/healthcheck\<close>): the status of an address counts equal verdicts, the filter keeps healthy addresses.
  \<open>WorkerPool\<close> (\<open>src/pkg/workerpool\<close>): every job is handled once, and a pool can be stopped.  \<open>HealthRun\<close>: the goroutines
  of \<open>Start\<close>, \<open>Transfer\<close> and \<open>ShutDown\<close> of the health checker over the pool and the storage layer; a started
  checker can be shut down, one without zones cannot.  \<open>HandlerShutdown\<close>: \<open>ShutDown\<close> of the two storage handlers over the
  subscriptions of \<open>Subscription\<close>; when it returns and when it waits for ever.

  \<^bold>\<open>Programs.\<close>  \<open>Configuration\<close> (\<open>src/configs\<close>, the \<open>config.go\<close> files, \<open>src/internal/server\<close>, \<open>src/internal/logger\<close>),
  \<open>Programs\<close> (\<open>src/cmd/resolver\<close>, \<open>src/cmd/healthchecker\<close>): a configuration that the verification accepts starts the
  resolver, but for two settings that it does not look at.  \<open>MainLoops\<close>: the \<open>main\<close> functions of these two programs, a loop over signals in
  which \<open>Stop\<close> waits for the goroutines of the parts; the locale \<open>stoppable\<close> is what the loop needs of
  a program.  \<open>ApiProgram\<close> (\<open>src/cmd/api\<close>, \<open>src/cmd/zone_updater\<close>): the start of the API server and of the zone updater, the recovery
  from panics, the limit on bodies.

  \<^bold>\<open>Tools.\<close>  \<open>QueryTools\<close> (\<open>src/tools/query\<close>, the comparison of responses of \<open>src/internal/test/helpers.go\<close>): the dump of a
  database asks for every location, the running mean is the mean, equal answers are found equal.  \<open>PerfTools\<close>
  (\<open>src/tools/perf\<close>): the loop over random bits ends when the source goes on to produce letters.

  \<^bold>\<open>Not modelled.\<close>  Log lines; the profiling servers and the writing of template files; listening and the shutdown of the HTTP and
  DNS servers, which are calls of their packages; the interleaving of database calls of concurrent requests; rounding of
  floating point numbers in distances and statistics; files, flags and printed lines of the tools; the other helpers of the tests.
\<close>

section \<open>The resolver on the storage layer\<close>




section \<open>From the control plane to the answer\<close>

text \<open>Storing a text record set at a site leaves its other keys alone.\<close>

lemma text_stored_update:
  assumes "dns_table_laws (e_tables E)" and "plain_site E k n l"
    and "v \<noteq> []" and "j_RRSet (e_json E) v (TXT_Set zero_TXT) = Inr (TXT_Set txt)"
  shows "text_stored E (k
      (rkey (dc_Redis (e_config E)) (zoneLocationRRSetKey n l (TypeToString (e_tables E) TypeTXT)) := Some (RString v),
       rkey (dc_Redis (e_config E)) revisionKey \<mapsto> w)) n l txt"
proof -
  let ?T = "TypeToString (e_tables E)"
  have "StringToType (e_tables E) (?T TypeTXT) = TypeTXT" "StringToType (e_tables E) (?T TypeCNAME) = TypeCNAME"
    "StringToType (e_tables E) (?T TypeNS) = TypeNS"
    using type_name_roundtrip [OF assms(1)] by (simp_all add: IsSupported_def)
  moreover have "TypeCNAME \<noteq> TypeTXT" "TypeNS \<noteq> TypeTXT" by (simp_all add: type_codes)
  ultimately have "?T TypeCNAME \<noteq> ?T TypeTXT" "?T TypeNS \<noteq> ?T TypeTXT" by metis+
  then show ?thesis
    using assms(2-4) by (auto simp: text_stored_def plain_site_def Let_def storage_keys)
qed


text \<open>A request that is granted, and what it does to the database.\<close>

definition toy_put :: http_request where
  "toy_put = toy_request ''PUT'' [''zones'', ''z.'', ''locations'', ''a'', ''rrsets'', ''txt''] ''u'' []"

lemma toy_type: "TypeToString (e_tables toy_env) TypeTXT = ''txt''"
  by (simp add: toy_env_sel toy_type_names)

lemma toy_put_request:
  "rq_Method toy_put = ''PUT''"
  "rq_Path toy_put = [''zones'', ''z.'', ''locations'', ''a'', ''rrsets'', TypeToString (e_tables toy_env) TypeTXT]"
  "\<forall>code m. jwt_Claims (au_jwt toy_auth) toy_put = Inl (code, m) \<longrightarrow> 400 \<le> code"
  by (simp_all add: toy_put_def toy_request_def toy_type toy_auth_def toy_jwt_def)

lemma toy_put_body:
  "a_UpdateRecordSetRequest (au_api toy_auth) (rq_Body toy_put)
     (TypeStrToRRSet (a_tables (au_api toy_auth)) (TypeToString (e_tables toy_env) TypeTXT)) =
   Inr \<lparr>urq_Value = Some (TXT_Set \<lparr>TtlValue = 60, txt_Data = [''t'']\<rparr>), urq_Enabled = True\<rparr>"
  by (simp add: toy_auth_def toy_api_def toy_txt_def)

lemma toy_put_update:
  "toy_update = \<lparr>ru_ZoneName = ''z.'', ru_Location = ''a'', ru_Type = TypeToString (e_tables toy_env) TypeTXT,
     ru_Value = Some (TXT_Set \<lparr>TtlValue = 60, txt_Data = [''t'']\<rparr>), ru_Enabled = True\<rparr>"
  by (simp add: toy_update_def toy_type toy_txt_def)

lemma toy_auth_sql: "au_sql toy_auth = toy_sql"
  by (simp add: toy_auth_def toy_api_def)

lemma toy_put_granted: "\<exists>a w'. toy_serve toy_put toy_world = Some (a, w') \<and> granted a \<and> w_db w' = toy_updated"
proof -
  have "map_option (granted \<circ> fst) (toy_serve toy_put toy_world) = Some True" by code_simp
  then obtain a w' where serve: "toy_serve toy_put toy_world = Some (a, w')" "granted a" by auto
  have "auth_identity toy_auth toy_put = Inr \<lparr>id_Id = ''u'', id_Email = ''u''\<rparr>" by code_simp
  then have "w_db w' = toy_updated"
    using put_record_set [OF toy_put_request serve] toy_put_body toy_put_update toy_auth_sql
    by (auto simp: toy_updated_def toy_world_def)
  with serve show ?thesis by blast
qed




end
